(* ===== verification/Prelude.thy ===== *)
theory Prelude
  imports Main "HOL-Library.Sublist" "HOL-Library.List_Lexorder" "HOL-Library.Char_ord"
begin

section \<open>Prelude: shared types, automation and generic lemmas\<close>

text \<open>
  What every component of the development uses.  Instants and durations are integers in
  nanoseconds, as Go's \<open>time.Time\<close> (with its monotonic reading) and \<open>time.Duration\<close> are.
  A call into the database driver, the operating system or a random source can fail; which calls
  of a request fail is an argument of the model, a predicate on the path of calls that led to the
  statement.  The collections \<open>inv_simps\<close>, \<open>inv_intros\<close> and \<open>branch_simps\<close> are filled by
  the components and carry their proofs.
\<close>

named_theorems inv_simps "unfoldings of invariants"
named_theorems inv_intros "operations that preserve invariants"
named_theorems branch_simps "equations that evaluate one branch of an operation"

type_synonym instant = int
type_synonym duration = int

definition second :: duration where
  "second = 1000000000"

definition millisecond :: duration where
  "millisecond = 1000000"

definition minute :: duration where
  "minute = 60 * second"

lemmas duration_defs = second_def millisecond_def minute_def

text \<open>\<open>Time.Unix()\<close>: whole seconds since the epoch, rounded towards minus infinity as Go
  stores seconds and a non-negative nanosecond part; \<open>Time.UnixMilli()\<close> likewise.\<close>

definition unix_sec :: "instant \<Rightarrow> int" where
  "unix_sec t = t div second"

definition unix_milli :: "instant \<Rightarrow> int" where
  "unix_milli t = t div millisecond"

text \<open>\<open>time.Unix(sec, 0)\<close>.\<close>

definition time_unix :: "int \<Rightarrow> instant" where
  "time_unix s = s * second"

text \<open>\<open>Time.Sub\<close> saturates at the bounds of the 64-bit duration.\<close>

definition max_duration :: duration where
  "max_duration = 2 ^ 63 - 1"

definition min_duration :: duration where
  "min_duration = - (2 ^ 63)"

definition time_sub :: "instant \<Rightarrow> instant \<Rightarrow> duration" where
  "time_sub t u = max min_duration (min max_duration (t - u))"

lemma second_pos [simp]: "0 < second"
  by (simp add: second_def)

lemma millisecond_pos [simp]: "0 < millisecond"
  by (simp add: millisecond_def)

lemma minute_pos [simp]: "0 < minute"
  by (simp add: minute_def)

lemma minute_le_max: "minute < max_duration"
  by (simp add: duration_defs max_duration_def)

text \<open>Saturation never hides that a duration is over a bound below the maximum.\<close>

lemma time_sub_gt_iff:
  assumes "min_duration \<le> d" and "d < max_duration"
  shows "d < time_sub t u \<longleftrightarrow> d < t - u"
  using assms by (auto simp: time_sub_def)

lemma unix_sec_time_unix [simp]: "unix_sec (time_unix s) = s"
  by (simp add: unix_sec_def time_unix_def second_def)

lemma time_unix_unix_sec_le: "time_unix (unix_sec t) \<le> t"
  by (simp add: unix_sec_def time_unix_def second_def)

lemma time_unix_unix_sec_gt: "t < time_unix (unix_sec t) + second"
  by (simp add: unix_sec_def time_unix_def second_def)

lemma unix_sec_mono: "t \<le> u \<Longrightarrow> unix_sec t \<le> unix_sec u"
  by (simp add: unix_sec_def zdiv_mono1)

lemma unix_milli_mono: "t \<le> u \<Longrightarrow> unix_milli t \<le> unix_milli u"
  by (simp add: unix_milli_def zdiv_mono1)

subsection \<open>Faults of external calls\<close>

text \<open>
  \<open>fault\<close> says which external calls of one request return an error.  A call is named by the
  path of program functions that leads to it and the statement's number in the innermost one.
\<close>

datatype call =
    C_Authenticate | C_Resolve | C_Authorize | C_Broadcast | C_Save | C_List
  | C_ChannelType | C_UserExists | C_UserByName | C_IsMember | C_FindOrCreateDM
  | C_Members | C_Audit | Stmt nat

type_synonym fault = "call list \<Rightarrow> bool"

definition at :: "fault \<Rightarrow> call \<Rightarrow> fault" where
  "at f c = (\<lambda>p. f (c # p))"

definition no_faults :: fault where
  "no_faults = (\<lambda>_. False)"

lemma at_no_faults [simp]: "at no_faults c = no_faults"
  by (simp add: at_def no_faults_def)

lemma no_faults_apply [simp]: "no_faults p = False"
  by (simp add: no_faults_def)

subsection \<open>Lists\<close>

lemma filter_drop_prefix:
  assumes "\<forall>x\<in>set (take i xs). \<not> P x"
  shows "filter P (drop i xs) = filter P xs"
proof -
  have "filter P (take i xs) = []" using assms by (simp add: filter_empty_conv)
  moreover have "filter P xs = filter P (take i xs) @ filter P (drop i xs)"
    by (metis append_take_drop_id filter_append)
  ultimately show ?thesis by simp
qed

lemma sorted_snoc: "sorted (xs @ [x]) \<longleftrightarrow> sorted xs \<and> (\<forall>y\<in>set xs. y \<le> x)"
  by (simp add: sorted_append)

lemma length_filter_mono:
  assumes "\<And>x. x \<in> set xs \<Longrightarrow> P x \<Longrightarrow> Q x"
  shows "length (filter P xs) \<le> length (filter Q xs)"
  using assms by (induction xs) auto

lemma distinct_set_single: "distinct xs \<Longrightarrow> set xs = {x} \<Longrightarrow> xs = [x]"
  by (cases xs; cases "tl xs") auto

lemma find_None_conv: "find P xs = None \<longleftrightarrow> (\<forall>x\<in>set xs. \<not> P x)"
  by (auto simp: find_None_iff)

lemma find_Some_in: "find P xs = Some x \<Longrightarrow> x \<in> set xs \<and> P x"
  by (auto simp: find_Some_iff in_set_conv_nth)

lemma find_exists: "x \<in> set xs \<Longrightarrow> P x \<Longrightarrow> \<exists>y. find P xs = Some y"
  by (cases "find P xs") (auto simp: find_None_iff)

lemma distinct_map_filter: "distinct (map f xs) \<Longrightarrow> distinct (map f (filter P xs))"
  by (induction xs) auto

lemma distinct_map_same:
  "distinct (map f xs) \<Longrightarrow> x \<in> set xs \<Longrightarrow> y \<in> set xs \<Longrightarrow> f x = f y \<Longrightarrow> x = y"
  by (simp add: distinct_map inj_on_def)

lemma find_key_unique:
  assumes "distinct (map f xs)" and "x \<in> set xs" and "f x = k"
  shows "find (\<lambda>y. f y = k) xs = Some x"
proof (cases "find (\<lambda>y. f y = k) xs")
  case None
  with assms show ?thesis by (auto simp: find_None_iff)
next
  case (Some y)
  then have "y \<in> set xs" and "f y = k" using find_Some_in [OF Some] by auto
  with assms have "y = x" by (auto intro: distinct_map_same)
  with Some show ?thesis by simp
qed

subsection \<open>Step relations: invariants and simulations\<close>

text \<open>
  The contract of an invariant that every step keeps, and of a concrete step relation that performs
  steps of an abstract one under such an invariant.  The components interpret them on their own steps.
\<close>

locale step_invariant =
  fixes step :: "'s \<Rightarrow> 's \<Rightarrow> bool" and inv :: "'s \<Rightarrow> bool"
  assumes preserved: "step s t \<Longrightarrow> inv s \<Longrightarrow> inv t"
begin

lemma steps: "step\<^sup>*\<^sup>* s t \<Longrightarrow> inv s \<Longrightarrow> inv t"
  by (induction rule: rtranclp_induct) (auto intro: preserved)

end

locale simulation = step_invariant cstep cinv
  for cstep :: "'c \<Rightarrow> 'c \<Rightarrow> bool" and cinv :: "'c \<Rightarrow> bool" +
  fixes astep :: "'a \<Rightarrow> 'a \<Rightarrow> bool" and abs :: "'c \<Rightarrow> 'a"
  assumes simulates: "cstep s t \<Longrightarrow> cinv s \<Longrightarrow> astep\<^sup>*\<^sup>* (abs s) (abs t)"
begin

lemma runs: "cstep\<^sup>*\<^sup>* s t \<Longrightarrow> cinv s \<Longrightarrow> astep\<^sup>*\<^sup>* (abs s) (abs t)"
proof (induction rule: rtranclp_induct)
  case (step t u)
  with simulates [OF step(2)] steps [OF step(1)] show ?case by (blast intro: rtranclp_trans)
qed simp

lemma runs_keep:
  "step_invariant astep ainv \<Longrightarrow> cstep\<^sup>*\<^sup>* s t \<Longrightarrow> cinv s \<Longrightarrow> ainv (abs s) \<Longrightarrow> ainv (abs t)"
  using runs by (blast intro: step_invariant.steps)

end

end
