(* ===== verification/GoStrings.thy ===== *)
theory GoStrings
  imports Prelude
begin

section \<open>The string functions of Go's standard library that the services use\<close>

text \<open>
  A Go string is a sequence of bytes, here a \<open>string\<close> (a list of 8-bit characters), so
  \<open>length\<close> is Go's \<open>len\<close> and the order of \<open>List_Lexorder\<close> is Go's \<open><\<close> on strings (and
  SQLite's BINARY collation).  \<open>strings.TrimSpace\<close> strips the UTF-8 encodings of the Unicode
  white-space characters from both ends.
\<close>

subsection \<open>TrimSpace\<close>

definition space_encodings :: "string list" where
  "space_encodings =
    [[CHR 0x09], [CHR 0x0A], [CHR 0x0B], [CHR 0x0C], [CHR 0x0D], [CHR 0x20],
     [CHR 0xC2, CHR 0x85], [CHR 0xC2, CHR 0xA0], [CHR 0xE1, CHR 0x9A, CHR 0x80],
     [CHR 0xE2, CHR 0x80, CHR 0x80], [CHR 0xE2, CHR 0x80, CHR 0x81],
     [CHR 0xE2, CHR 0x80, CHR 0x82], [CHR 0xE2, CHR 0x80, CHR 0x83],
     [CHR 0xE2, CHR 0x80, CHR 0x84], [CHR 0xE2, CHR 0x80, CHR 0x85],
     [CHR 0xE2, CHR 0x80, CHR 0x86], [CHR 0xE2, CHR 0x80, CHR 0x87],
     [CHR 0xE2, CHR 0x80, CHR 0x88], [CHR 0xE2, CHR 0x80, CHR 0x89],
     [CHR 0xE2, CHR 0x80, CHR 0x8A], [CHR 0xE2, CHR 0x80, CHR 0xA8],
     [CHR 0xE2, CHR 0x80, CHR 0xA9], [CHR 0xE2, CHR 0x80, CHR 0xAF],
     [CHR 0xE2, CHR 0x81, CHR 0x9F], [CHR 0xE3, CHR 0x80, CHR 0x80]]"

lemma space_encodings_nonempty: "e \<in> set space_encodings \<Longrightarrow> e \<noteq> []"
  by (auto simp: space_encodings_def)

lemma find_prefix_shorter:
  assumes "find (\<lambda>e. prefix e s) space_encodings = Some e"
  shows "length (drop (length e) s) < length s"
proof -
  from find_Some_in [OF assms] have "e \<noteq> []" and "prefix e s"
    using space_encodings_nonempty by auto
  then show ?thesis by (auto simp: prefix_def)
qed

lemma find_suffix_shorter:
  assumes "find (\<lambda>e. suffix e s) space_encodings = Some e"
  shows "length (take (length s - length e) s) < length s"
proof -
  from find_Some_in [OF assms] have "e \<noteq> []" and "suffix e s"
    using space_encodings_nonempty by auto
  then show ?thesis by (auto simp: suffix_def)
qed

function trim_left :: "string \<Rightarrow> string" where
  "trim_left s =
    (case find (\<lambda>e. prefix e s) space_encodings of
       None \<Rightarrow> s
     | Some e \<Rightarrow> trim_left (drop (length e) s))"
  by pat_completeness auto
termination
  by (relation "measure length") (use find_prefix_shorter in auto)

function trim_right :: "string \<Rightarrow> string" where
  "trim_right s =
    (case find (\<lambda>e. suffix e s) space_encodings of
       None \<Rightarrow> s
     | Some e \<Rightarrow> trim_right (take (length s - length e) s))"
  by pat_completeness auto
termination
  by (relation "measure length") (use find_suffix_shorter in auto)

declare trim_left.simps [simp del]
declare trim_right.simps [simp del]

definition trim_space :: "string \<Rightarrow> string" where
  "trim_space s = trim_right (trim_left s)"

lemma trim_left_no_prefix: "e \<in> set space_encodings \<Longrightarrow> \<not> prefix e (trim_left s)"
proof (induction s rule: trim_left.induct)
  case (1 s)
  then show ?case
    by (subst trim_left.simps) (auto split: option.splits simp: find_None_iff)
qed

lemma trim_right_no_suffix: "e \<in> set space_encodings \<Longrightarrow> \<not> suffix e (trim_right s)"
proof (induction s rule: trim_right.induct)
  case (1 s)
  then show ?case
    by (subst trim_right.simps) (auto split: option.splits simp: find_None_iff)
qed

lemma trim_right_prefix: "prefix (trim_right s) s"
proof (induction s rule: trim_right.induct)
  case (1 s)
  then show ?case
    by (subst trim_right.simps)
       (auto split: option.splits intro: prefix_order.trans take_is_prefix)
qed

lemma trim_left_id:
  assumes "\<And>e. e \<in> set space_encodings \<Longrightarrow> \<not> prefix e s"
  shows "trim_left s = s"
proof -
  have "find (\<lambda>e. prefix e s) space_encodings = None" using assms by (auto simp: find_None_iff)
  then show ?thesis by (subst trim_left.simps) simp
qed

lemma trim_right_id:
  assumes "\<And>e. e \<in> set space_encodings \<Longrightarrow> \<not> suffix e s"
  shows "trim_right s = s"
proof -
  have "find (\<lambda>e. suffix e s) space_encodings = None" using assms by (auto simp: find_None_iff)
  then show ?thesis by (subst trim_right.simps) simp
qed

lemma trim_space_no_prefix: "e \<in> set space_encodings \<Longrightarrow> \<not> prefix e (trim_space s)"
  unfolding trim_space_def
  using trim_left_no_prefix trim_right_prefix prefix_order.trans by blast

lemma trim_space_idem [simp]: "trim_space (trim_space s) = trim_space s"
proof -
  have "trim_left (trim_space s) = trim_space s"
    by (rule trim_left_id) (rule trim_space_no_prefix)
  moreover have "trim_right (trim_space s) = trim_space s"
    unfolding trim_space_def by (rule trim_right_id) (rule trim_right_no_suffix)
  ultimately show ?thesis by (simp add: trim_space_def)
qed

lemma trim_left_Nil [simp]: "trim_left [] = []"
  by (rule trim_left_id) (auto dest: space_encodings_nonempty)

lemma trim_right_Nil [simp]: "trim_right [] = []"
  by (rule trim_right_id) (auto dest: space_encodings_nonempty)

lemma trim_space_Nil [simp]: "trim_space [] = []"
  by (simp add: trim_space_def)

subsection \<open>Split, SplitN, EqualFold, Contains, indices\<close>

text \<open>\<open>strings.Split(s, sep)\<close> for a separator of one byte.\<close>

fun split_on :: "char \<Rightarrow> string \<Rightarrow> string list" where
  "split_on c [] = [[]]"
| "split_on c (x # xs) =
    (if x = c then [] # split_on c xs
     else (case split_on c xs of
             [] \<Rightarrow> [[x]]
           | p # ps \<Rightarrow> (x # p) # ps))"

lemma split_on_not_Nil [simp]: "split_on c s \<noteq> []"
  by (induction s) (auto split: list.splits)

lemma split_on_no_sep: "c \<notin> set s \<Longrightarrow> split_on c s = [s]"
  by (induction s) auto

lemma split_on_append: "c \<notin> set s \<Longrightarrow> split_on c (s @ c # t) = s # split_on c t"
  by (induction s) auto

text \<open>\<open>strings.SplitN(s, sep, 2)\<close> for a separator of one byte.\<close>

definition split_n2 :: "char \<Rightarrow> string \<Rightarrow> string list" where
  "split_n2 c s =
    (if c \<in> set s
     then [takeWhile (\<lambda>x. x \<noteq> c) s, drop 1 (dropWhile (\<lambda>x. x \<noteq> c) s)]
     else [s])"

lemma split_n2_append: "c \<notin> set s \<Longrightarrow> split_n2 c (s @ c # t) = [s, t]"
  by (induction s) (auto simp: split_n2_def)

definition to_lower :: "char \<Rightarrow> char" where
  "to_lower c = (if of_char c \<in> {65..(90::nat)} then char_of (of_char c + (32::nat)) else c)"

text \<open>\<open>strings.EqualFold(s, lit)\<close> for a literal of ASCII letters other than k and s, which are
  the only ASCII letters with a non-ASCII case variant.\<close>

definition equal_fold :: "string \<Rightarrow> string \<Rightarrow> bool" where
  "equal_fold s lit \<longleftrightarrow> map to_lower s = map to_lower lit"

definition contains :: "string \<Rightarrow> string \<Rightarrow> bool" where
  "contains s sub \<longleftrightarrow> sublist sub s"

fun index_byte :: "string \<Rightarrow> char \<Rightarrow> nat option" where
  "index_byte [] c = None"
| "index_byte (x # xs) c = (if x = c then Some 0 else map_option Suc (index_byte xs c))"

fun last_index_byte :: "string \<Rightarrow> char \<Rightarrow> nat option" where
  "last_index_byte [] c = None"
| "last_index_byte (x # xs) c =
    (case last_index_byte xs c of
       Some i \<Rightarrow> Some (Suc i)
     | None \<Rightarrow> (if x = c then Some 0 else None))"

lemma index_byte_None: "index_byte s c = None \<longleftrightarrow> c \<notin> set s"
  by (induction s) auto

lemma last_index_byte_None: "last_index_byte s c = None \<longleftrightarrow> c \<notin> set s"
  by (induction s) (auto split: option.splits)

lemma last_index_byte_append:
  "c \<notin> set t \<Longrightarrow> last_index_byte (s @ c # t) c = Some (length s)"
  by (induction s) (auto simp: last_index_byte_None split: option.splits)

subsection \<open>Character classes of the regular expressions\<close>

definition is_alnum :: "char \<Rightarrow> bool" where
  "is_alnum c \<longleftrightarrow>
    (let n = (of_char c :: nat)
     in (97 \<le> n \<and> n \<le> 122) \<or> (65 \<le> n \<and> n \<le> 90) \<or> (48 \<le> n \<and> n \<le> 57))"

text \<open>A pattern of the form \<open>^[class]{lo,hi}$\<close>: the whole string is in the class and its length
  in the range.  The classes are ASCII, so no byte of a multi-byte character is in them.\<close>

definition matches_class :: "(char \<Rightarrow> bool) \<Rightarrow> nat \<Rightarrow> nat \<Rightarrow> string \<Rightarrow> bool" where
  "matches_class P lo hi s \<longleftrightarrow> list_all P s \<and> lo \<le> length s \<and> length s \<le> hi"

subsection \<open>Hexadecimal encoding\<close>

definition hex_digit :: "nat \<Rightarrow> char" where
  "hex_digit n = (if n < 10 then char_of (48 + n) else char_of (87 + n))"

fun hex_encode :: "string \<Rightarrow> string" where
  "hex_encode [] = []"
| "hex_encode (c # cs) =
    hex_digit (of_char c div 16) # hex_digit (of_char c mod 16) # hex_encode cs"

lemma length_hex_encode [simp]: "length (hex_encode s) = 2 * length s"
  by (induction s) auto

lemma hex_digit_inj: "m < 16 \<Longrightarrow> n < 16 \<Longrightarrow> hex_digit m = hex_digit n \<Longrightarrow> m = n"
  by (auto simp: hex_digit_def char_of_eq_iff take_bit_eq_mod split: if_splits)

lemma hex_encode_inj: "hex_encode s = hex_encode t \<Longrightarrow> s = t"
proof (induction s arbitrary: t)
  case Nil
  then show ?case by (cases t) auto
next
  case (Cons c s)
  then obtain d t' where t: "t = d # t'" by (cases t) auto
  have bound: "(of_char x :: nat) div 16 < 16" for x :: char
    by (rule less_mult_imp_div_less) simp
  have "(of_char c :: nat) div 16 = of_char d div 16"
    using Cons.prems t by (intro hex_digit_inj bound) simp
  moreover have "(of_char c :: nat) mod 16 = of_char d mod 16"
    using Cons.prems t by (intro hex_digit_inj) auto
  ultimately have "(of_char c :: nat) = of_char d" by (metis div_mult_mod_eq)
  then have "c = d" by simp
  with Cons t show ?case by auto
qed

end
