(* ===== verification/Http.thy ===== *)
theory Http
  imports GoStrings
begin

section \<open>HTTP requests, replies, client addresses and request identifiers\<close>

text \<open>
  What the services read of a request and write to a response.  \<open>rq_header\<close> and \<open>rq_query\<close> are
  \<open>Header.Get\<close> and \<open>URL.Query().Get\<close>, with the empty string for an absent key.  A handler's
  writes are kept as the events the response writer sees, because the services wrap the writer in
  a \<open>statusRecorder\<close> whose recorded status ends up in the log.  The wrapper embeds the interface
  \<open>http.ResponseWriter\<close>, so it offers only that interface's methods: \<open>can_hijack\<close> says whether a
  writer also implements \<open>http.Hijacker\<close>.
\<close>

record request =
  rq_method :: string
  rq_path :: string
  rq_header :: "string \<Rightarrow> string"
  rq_query :: "string \<Rightarrow> string"
  rq_remote :: string
  rq_body :: string

definition requestIDHeader :: string where
  "requestIDHeader = ''X-Request-ID''"

datatype 'b wevent = W_Header nat | W_Text string | W_Err | W_Json 'b

datatype 'b reply =
    Http_Error nat string   \<comment> \<open>\<open>http.Error(w, msg, code)\<close>\<close>
  | Http_Err nat            \<comment> \<open>\<open>http.Error(w, err.Error(), code)\<close>: the text is not modelled\<close>
  | Status_Only nat         \<comment> \<open>\<open>w.WriteHeader(code)\<close>\<close>
  | Json 'b                 \<comment> \<open>\<open>json.NewEncoder(w).Encode(v)\<close>\<close>
  | Status_Json nat 'b      \<comment> \<open>\<open>w.WriteHeader(code)\<close>, then the body\<close>
  | No_Write                \<comment> \<open>the handler returns without writing\<close>

fun reply_events :: "'b reply \<Rightarrow> 'b wevent list" where
  "reply_events (Http_Error c m) = [W_Header c, W_Text m]"
| "reply_events (Http_Err c) = [W_Header c, W_Err]"
| "reply_events (Status_Only c) = [W_Header c]"
| "reply_events (Json v) = [W_Json v]"
| "reply_events (Status_Json c v) = [W_Header c, W_Json v]"
| "reply_events No_Write = []"

text \<open>The recorder starts at 200 and every \<open>WriteHeader\<close> overwrites its field.\<close>

fun recorder_write :: "nat \<Rightarrow> 'b wevent \<Rightarrow> nat" where
  "recorder_write st (W_Header c) = c"
| "recorder_write st (W_Text m) = st"
| "recorder_write st W_Err = st"
| "recorder_write st (W_Json v) = st"

definition recorded_status :: "'b wevent list \<Rightarrow> nat" where
  "recorded_status evs = foldl recorder_write 200 evs"

text \<open>The status on the wire is fixed by the first \<open>WriteHeader\<close> or write (which implies 200).\<close>

fun wire_status :: "'b wevent list \<Rightarrow> nat" where
  "wire_status [] = 200"
| "wire_status (W_Header c # _) = c"
| "wire_status (W_Text m # _) = 200"
| "wire_status (W_Err # _) = 200"
| "wire_status (W_Json v # _) = 200"

definition status_of :: "'b reply \<Rightarrow> nat" where
  "status_of r = wire_status (reply_events r)"

lemma status_of_simps [simp]:
  "status_of (Http_Error c m) = c"
  "status_of (Http_Err c) = c"
  "status_of (Status_Only c) = c"
  "status_of (Json v) = 200"
  "status_of (Status_Json c v) = c"
  "status_of No_Write = 200"
  by (simp_all add: status_of_def)

lemma recorded_status_reply [simp]: "recorded_status (reply_events r) = status_of r"
  by (cases r) (simp_all add: recorded_status_def)

subsection \<open>Client addresses\<close>

text \<open>\<open>net.SplitHostPort\<close>: \<open>None\<close> stands for its error.\<close>

definition splitHostPort :: "string \<Rightarrow> (string \<times> string) option" where
  "splitHostPort hp =
    (case last_index_byte hp CHR '':'' of
       None \<Rightarrow> None
     | Some i \<Rightarrow>
         (if take 1 hp = ''['' then
            (case index_byte hp CHR '']'' of
               None \<Rightarrow> None
             | Some e \<Rightarrow>
                 (if e + 1 \<noteq> i then None
                  else if CHR ''['' \<in> set (drop 1 hp) then None
                  else if CHR '']'' \<in> set (drop (e + 1) hp) then None
                  else Some (drop 1 (take e hp), drop (i + 1) hp)))
          else
            (if CHR '':'' \<in> set (take i hp) then None
             else if CHR ''['' \<in> set hp then None
             else if CHR '']'' \<in> set hp then None
             else Some (take i hp, drop (i + 1) hp))))"

definition clientIP :: "request \<Rightarrow> string" where
  "clientIP r =
    (let xff = trim_space (rq_header r ''X-Forwarded-For'')
     in if xff \<noteq> [] then trim_space (hd (split_on CHR '','' xff))
        else (case splitHostPort (rq_remote r) of
                Some (host, _) \<Rightarrow> host
              | None \<Rightarrow> rq_remote r))"

lemma splitHostPort_plain:
  assumes "CHR '':'' \<notin> set h" "CHR ''['' \<notin> set h" "CHR '']'' \<notin> set h"
    and "CHR '':'' \<notin> set p" "CHR ''['' \<notin> set p" "CHR '']'' \<notin> set p"
  shows "splitHostPort (h @ CHR '':'' # p) = Some (h, p)"
proof -
  have "take 1 (h @ CHR '':'' # p) \<noteq> ''[''" using assms(2) by (cases h) auto
  with assms show ?thesis by (simp add: splitHostPort_def last_index_byte_append)
qed

text \<open>With no forwarding header the address of the peer is used, port stripped, whatever port it
  came from.\<close>

lemma clientIP_remote:
  assumes "trim_space (rq_header r ''X-Forwarded-For'') = []"
    and "CHR '':'' \<notin> set h" "CHR ''['' \<notin> set h" "CHR '']'' \<notin> set h"
    and "CHR '':'' \<notin> set p" "CHR ''['' \<notin> set p" "CHR '']'' \<notin> set p"
    and "rq_remote r = h @ CHR '':'' # p"
  shows "clientIP r = h"
  using assms by (simp add: clientIP_def splitHostPort_plain)

lemma clientIP_forwarded:
  assumes "trim_space (rq_header r ''X-Forwarded-For'') = x" and "x \<noteq> []" and "CHR '','' \<notin> set x"
  shows "clientIP r = x"
proof -
  have "trim_space x = x" using assms(1) by (metis trim_space_idem)
  with assms show ?thesis by (simp add: clientIP_def split_on_no_sep)
qed

subsection \<open>Request identifiers and the log entry of a request\<close>

text \<open>
  \<open>rnd\<close> is the result of \<open>rand.Read\<close> on 16 bytes (\<open>None\<close>: the error) and \<open>fallback\<close> what a
  service uses then.
\<close>

definition getOrCreateRequestID :: "string option \<Rightarrow> string \<Rightarrow> request \<Rightarrow> string" where
  "getOrCreateRequestID rnd fallback r =
    (let rid = trim_space (rq_header r requestIDHeader)
     in if rid \<noteq> [] then rid
        else (case rnd of Some b \<Rightarrow> hex_encode b | None \<Rightarrow> fallback))"

definition set_header :: "string \<Rightarrow> string \<Rightarrow> request \<Rightarrow> request" where
  "set_header k v r = r\<lparr>rq_header := (rq_header r)(k := v)\<rparr>"

record log_entry =
  le_ts :: instant
  le_service :: string
  le_handler :: string
  le_request_id :: string
  le_method :: string
  le_path :: string
  le_status :: nat
  le_latency_us :: int

text \<open>What a traced request leaves: the response header, the reply and the log line.\<close>

record 'b traced =
  tr_request_id :: string
  tr_reply :: "'b reply"
  tr_log :: log_entry

text \<open>The readings a traced request takes from its surroundings.\<close>

record trace_env =
  te_start :: instant
  te_allow :: instant
  te_end :: instant
  te_rnd :: "string option"
  te_fallback :: string

definition trace_log ::
  "string \<Rightarrow> string \<Rightarrow> trace_env \<Rightarrow> string \<Rightarrow> request \<Rightarrow> nat \<Rightarrow> log_entry" where
  "trace_log svc name e rid r st =
    \<lparr>le_ts = te_end e, le_service = svc, le_handler = name, le_request_id = rid,
     le_method = rq_method r, le_path = rq_path r, le_status = st,
     le_latency_us = (te_end e - te_start e) div 1000\<rparr>"

definition limit_body :: "nat \<Rightarrow> request \<Rightarrow> request" where
  "limit_body n r = r\<lparr>rq_body := take n (rq_body r)\<rparr>"

lemma request_id_nonempty:
  assumes "\<And>b. rnd = Some b \<Longrightarrow> b \<noteq> []" and "fallback \<noteq> []"
  shows "getOrCreateRequestID rnd fallback r \<noteq> []"
proof (cases rnd)
  case None
  with assms show ?thesis by (simp add: getOrCreateRequestID_def Let_def)
next
  case (Some b)
  with assms(1) have "b \<noteq> []" by simp
  then have "hex_encode b \<noteq> []" by (cases b) auto
  with Some show ?thesis by (simp add: getOrCreateRequestID_def Let_def)
qed

text \<open>A service further down sees the identifier its caller logged.\<close>

lemma request_id_propagates:
  assumes "trim_space rid = rid" and "rid \<noteq> []"
  shows "getOrCreateRequestID rnd fb (set_header requestIDHeader rid r) = rid"
  using assms by (simp add: getOrCreateRequestID_def set_header_def)

lemma hex_digit_not_space:
  assumes "n < 16" shows "\<forall>e\<in>set space_encodings. hd e \<noteq> hex_digit n \<and> last e \<noteq> hex_digit n"
proof -
  have "n \<in> set [0..<16]" using assms by simp
  moreover have "\<forall>n\<in>set [0..<16]. \<forall>e\<in>set space_encodings.
      hd e \<noteq> hex_digit n \<and> last e \<noteq> hex_digit n"
    by (simp add: space_encodings_def hex_digit_def upt_rec char_of_def)
  ultimately show ?thesis by blast
qed

end
