(* ===== verification/RateLimiter.thy ===== *)
theory RateLimiter
  imports Http
begin

section \<open>The sliding-window rate limiter\<close>

text \<open>
  \<open>ipRateLimiter\<close> of the auth, audit, cluster and filetransfer services (four copies of the same
  type).  The map of hits is a partial map; a missing key reads as the empty slice.  The pruning
  loop is kept as a loop over the index.  The copies differ in where \<open>time.Now()\<close> is read: before
  the lock in three of them, under the lock in filetransfer; the two systems at the end interleave
  requests accordingly.
\<close>

record limiter =
  lim_limit :: int
  lim_window :: duration
  lim_hits :: "string \<rightharpoonup> instant list"

definition newIPRateLimiter :: "int \<Rightarrow> duration \<Rightarrow> limiter" where
  "newIPRateLimiter limit window = \<lparr>lim_limit = limit, lim_window = window, lim_hits = Map.empty\<rparr>"

definition hits_of :: "limiter \<Rightarrow> string \<Rightarrow> instant list" where
  "hits_of l ip = (case lim_hits l ip of None \<Rightarrow> [] | Some xs \<Rightarrow> xs)"

function skip_old :: "instant \<Rightarrow> instant list \<Rightarrow> nat \<Rightarrow> nat" where
  "skip_old cutoff xs i =
    (if i < length xs \<and> xs ! i < cutoff then skip_old cutoff xs (i + 1) else i)"
  by pat_completeness auto
termination
  by (relation "measure (\<lambda>(c, xs, i). length xs - i)") auto

declare skip_old.simps [simp del]

definition Allow :: "instant \<Rightarrow> string \<Rightarrow> limiter \<Rightarrow> bool \<times> limiter" where
  "Allow now ip l =
    (let cutoff = now - lim_window l;
         xs = hits_of l ip;
         i = skip_old cutoff xs 0;
         ys = (if i > 0 then drop i xs else xs)
     in if int (length ys) \<ge> lim_limit l
        then (False, l\<lparr>lim_hits := (lim_hits l)(ip \<mapsto> ys)\<rparr>)
        else (True, l\<lparr>lim_hits := (lim_hits l)(ip \<mapsto> ys @ [now])\<rparr>))"

lemma skip_old_drop:
  "i \<le> length xs \<Longrightarrow> drop (skip_old c xs i) xs = dropWhile (\<lambda>t. t < c) (drop i xs)"
proof (induction c xs i rule: skip_old.induct)
  case (1 c xs i)
  show ?case
  proof (cases "i < length xs \<and> xs ! i < c")
    case True
    with 1 show ?thesis
      by (simp add: skip_old.simps [of c xs i] Cons_nth_drop_Suc [symmetric])
  next
    case False
    then have "skip_old c xs i = i" by (subst skip_old.simps) (simp only: if_False)
    with 1 False show ?thesis
      by (cases "i < length xs") (auto simp: Cons_nth_drop_Suc [symmetric])
  qed
qed

lemma Allow_prunes:
  "Allow now ip l =
    (let ys = dropWhile (\<lambda>t. t < now - lim_window l) (hits_of l ip);
         ok = int (length ys) < lim_limit l
     in (ok, l\<lparr>lim_hits := (lim_hits l)(ip \<mapsto> (if ok then ys @ [now] else ys))\<rparr>))"
proof -
  let ?i = "skip_old (now - lim_window l) (hits_of l ip) 0"
  have "(if ?i > 0 then drop ?i (hits_of l ip) else hits_of l ip)
      = dropWhile (\<lambda>t. t < now - lim_window l) (hits_of l ip)"
    using skip_old_drop [of 0 "hits_of l ip" "now - lim_window l"] by (cases "?i > 0") auto
  then show ?thesis by (auto simp: Allow_def Let_def)
qed

subsection \<open>The interface: admission control over a window\<close>

text \<open>
  What a service relies on.  \<open>admit\<close> takes the time of the request and the client's key;
  \<open>stored\<close> is what the limiter remembers of a key.
\<close>

locale admission =
  fixes admit :: "instant \<Rightarrow> string \<Rightarrow> 's \<Rightarrow> bool \<times> 's"
    and stored :: "'s \<Rightarrow> string \<Rightarrow> instant list"
    and cap :: "'s \<Rightarrow> int"
    and window :: "'s \<Rightarrow> duration"
  assumes admit_iff:
      "fst (admit t k s) \<longleftrightarrow>
        int (length (dropWhile (\<lambda>u. u < t - window s) (stored s k))) < cap s"
    and stored_same:
      "stored (snd (admit t k s)) k =
        dropWhile (\<lambda>u. u < t - window s) (stored s k) @ (if fst (admit t k s) then [t] else [])"
    and stored_other: "j \<noteq> k \<Longrightarrow> stored (snd (admit t k s)) j = stored s j"
    and cap_fixed: "cap (snd (admit t k s)) = cap s"
    and window_fixed: "window (snd (admit t k s)) = window s"

text \<open>A run of requests in the order in which they hold the lock, with the admitted ones.\<close>

fun admit_run ::
  "(instant \<Rightarrow> string \<Rightarrow> 's \<Rightarrow> bool \<times> 's) \<Rightarrow> (instant \<times> string) list \<Rightarrow> 's \<Rightarrow>
    's \<times> (instant \<times> string) list" where
  "admit_run f [] s = (s, [])"
| "admit_run f ((t, k) # rs) s =
    (let p = f t k s; q = admit_run f rs (snd p)
     in (fst q, if fst p then (t, k) # snd q else snd q))"

definition times_of :: "string \<Rightarrow> (instant \<times> string) list \<Rightarrow> instant list" where
  "times_of k adm = map fst (filter (\<lambda>(t, j). j = k) adm)"

text \<open>How many instants of a list lie in the closed window that ends at \<open>T\<close>.\<close>

definition in_window :: "duration \<Rightarrow> instant \<Rightarrow> instant list \<Rightarrow> nat" where
  "in_window w T xs = length (filter (\<lambda>u. T - w \<le> u \<and> u \<le> T) xs)"

lemma times_of_Nil [simp]: "times_of k [] = []"
  by (simp add: times_of_def)

lemma times_of_Cons [simp]:
  "times_of k ((t, j) # adm) = (if j = k then t # times_of k adm else times_of k adm)"
  by (simp add: times_of_def)

lemma times_of_append [simp]: "times_of k (xs @ ys) = times_of k xs @ times_of k ys"
  by (simp add: times_of_def)

lemma admit_run_append:
  "admit_run f (rs @ qs) s =
    (let p = admit_run f rs s; q = admit_run f qs (fst p) in (fst q, snd p @ snd q))"
proof (induction rs arbitrary: s)
  case (Cons r rs)
  then show ?case by (cases r) (simp add: Let_def)
qed (simp add: Let_def)

definition quota_ok :: "duration \<Rightarrow> int \<Rightarrow> instant \<Rightarrow> instant list \<Rightarrow> instant list \<Rightarrow> bool" where
  "quota_ok w c now acc kept \<longleftrightarrow>
    (\<exists>old. acc = old @ kept \<and> (\<forall>u\<in>set old. u < now - w)) \<and>
    (\<forall>T. int (in_window w T acc) \<le> c)"

lemma quota_ok_later: "quota_ok w c now acc kept \<Longrightarrow> now \<le> t \<Longrightarrow> quota_ok w c t acc kept"
  by (force simp: quota_ok_def)

lemma quota_ok_prune:
  assumes "quota_ok w c t acc kept"
  shows "quota_ok w c t acc (dropWhile (\<lambda>u. u < t - w) kept)"
proof -
  obtain old where old: "acc = old @ kept" "\<forall>u\<in>set old. u < t - w"
    using assms by (auto simp: quota_ok_def)
  let ?p = "takeWhile (\<lambda>u. u < t - w) kept"
  have "acc = (old @ ?p) @ dropWhile (\<lambda>u. u < t - w) kept" using old by simp
  moreover have "\<forall>u\<in>set (old @ ?p). u < t - w" using old by (auto dest: set_takeWhileD)
  ultimately show ?thesis using assms unfolding quota_ok_def by blast
qed

lemma quota_ok_admit:
  assumes ok: "quota_ok w c t acc kept" and room: "int (length kept) < c"
  shows "quota_ok w c t (acc @ [t]) (kept @ [t])"
proof -
  obtain old where old: "acc = old @ kept" "\<forall>u\<in>set old. u < t - w"
    using ok by (auto simp: quota_ok_def)
  have "int (in_window w T (acc @ [t])) \<le> c" for T
  proof (cases "T - w \<le> t \<and> t \<le> T")
    case False
    with ok show ?thesis by (auto simp: quota_ok_def in_window_def)
  next
    case True
    then have "filter (\<lambda>u. T - w \<le> u \<and> u \<le> T) old = []"
      using old by (fastforce simp: filter_empty_conv)
    moreover have "int (length (filter (\<lambda>u. T - w \<le> u \<and> u \<le> T) kept)) < c"
      using room length_filter_le [of "\<lambda>u. T - w \<le> u \<and> u \<le> T" kept] by linarith
    ultimately show ?thesis using True old by (simp add: in_window_def)
  qed
  moreover have "acc @ [t] = old @ (kept @ [t])" using old by simp
  ultimately show ?thesis using old unfolding quota_ok_def by blast
qed

context admission
begin

text \<open>One request keeps the quota of every key, whatever key it is for.\<close>

lemma admit_quota:
  assumes q: "quota_ok (window s) (cap s) now acc (stored s k)" and le: "now \<le> t"
  shows "quota_ok (window s) (cap s) t
    (if j = k \<and> fst (admit t j s) then acc @ [t] else acc) (stored (snd (admit t j s)) k)"
proof (cases "j = k")
  case False
  with q le show ?thesis by (auto simp: stored_other intro: quota_ok_later)
next
  case True
  have p: "quota_ok (window s) (cap s) t acc (dropWhile (\<lambda>u. u < t - window s) (stored s k))"
    by (rule quota_ok_prune) (rule quota_ok_later [OF q le])
  show ?thesis
  proof (cases "fst (admit t k s)")
    case ok: True
    then have "int (length (dropWhile (\<lambda>u. u < t - window s) (stored s k))) < cap s"
      by (simp add: admit_iff)
    from quota_ok_admit [OF p this] True ok show ?thesis by (simp add: stored_same)
  next
    case no: False
    with p True show ?thesis by (simp add: stored_same)
  qed
qed

lemma run_params:
  "cap (fst (admit_run admit rs s)) = cap s \<and> window (fst (admit_run admit rs s)) = window s"
proof (induction rs arbitrary: s)
  case (Cons r rs)
  obtain t k where r: "r = (t, k)" by (cases r)
  show ?case
    using Cons.IH [of "snd (admit t k s)"]
    by (simp add: r cap_fixed window_fixed Let_def)
qed simp

lemma run_quota:
  assumes "quota_ok (window s) (cap s) now acc (stored s k)"
    and "sorted (map fst rs)" and "\<forall>r\<in>set rs. now \<le> fst r"
  shows "\<exists>t. quota_ok (window s) (cap s) t (acc @ times_of k (snd (admit_run admit rs s)))
      (stored (fst (admit_run admit rs s)) k)"
  using assms
proof (induction rs arbitrary: s now acc)
  case Nil
  then show ?case by auto
next
  case (Cons r rs)
  obtain t j where r: "r = (t, j)" by (cases r)
  let ?s = "snd (admit t j s)" and ?ok = "fst (admit t j s)"
  let ?acc = "if j = k \<and> ?ok then acc @ [t] else acc"
  have "now \<le> t" using Cons.prems r by simp
  from admit_quota [OF Cons.prems(1) this, of j]
  have "quota_ok (window ?s) (cap ?s) t ?acc (stored ?s k)"
    by (simp add: cap_fixed window_fixed)
  moreover have "sorted (map fst rs)" and "\<forall>r\<in>set rs. t \<le> fst r"
    using Cons.prems r by auto
  ultimately obtain u where u: "quota_ok (window ?s) (cap ?s) u
      (?acc @ times_of k (snd (admit_run admit rs ?s))) (stored (fst (admit_run admit rs ?s)) k)"
    using Cons.IH by blast
  have "?acc @ times_of k (snd (admit_run admit rs ?s))
      = acc @ times_of k (snd (admit_run admit (r # rs) s))"
    by (simp add: r Let_def)
  moreover have "fst (admit_run admit (r # rs) s) = fst (admit_run admit rs ?s)"
    by (simp add: r Let_def)
  ultimately show ?case using u by (auto simp: cap_fixed window_fixed)
qed

text \<open>The quota: requests that hold the lock in time order never exceed the cap in any window.\<close>

lemma window_bound:
  assumes "stored s k = []" and "0 \<le> cap s" and "sorted (map fst rs)"
  shows "int (in_window (window s) T (times_of k (snd (admit_run admit rs s)))) \<le> cap s"
proof (cases rs)
  case Nil
  with assms show ?thesis by (simp add: in_window_def)
next
  case (Cons r rs')
  have "quota_ok (window s) (cap s) (fst r) [] (stored s k)"
    using assms by (simp add: quota_ok_def in_window_def)
  from run_quota [OF this assms(3)] assms(3) Cons show ?thesis
    by (auto simp: quota_ok_def)
qed

lemma other_keys_unaffected:
  assumes "\<forall>r\<in>set rs. snd r \<noteq> k"
  shows "stored (fst (admit_run admit rs s)) k = stored s k"
  using assms
proof (induction rs arbitrary: s)
  case (Cons r rs)
  obtain t j where r: "r = (t, j)" by (cases r)
  have "stored (fst (admit_run admit rs (snd (admit t j s)))) k = stored s k"
    using Cons.IH Cons.prems r stored_other [of k j t s] by auto
  then show ?case by (simp add: r Let_def)
qed simp

lemma readmitted_after_window:
  assumes "0 < cap s" and "\<forall>u\<in>set (stored s k). u < t - window s"
  shows "fst (admit t k s)"
proof -
  have "dropWhile (\<lambda>u. u < t - window s) (stored s k) = []" using assms(2) by simp
  then show ?thesis using assms(1) unfolding admit_iff by (simp only: list.size)
qed

lemma fresh_key_admitted: "0 < cap s \<Longrightarrow> stored s k = [] \<Longrightarrow> fst (admit t k s)"
  by (rule readmitted_after_window) auto

text \<open>Requests that each bring a key of their own are all admitted.\<close>

lemma distinct_keys_all_admitted:
  assumes "0 < cap s" and "distinct (map snd rs)" and "\<forall>r\<in>set rs. stored s (snd r) = []"
  shows "snd (admit_run admit rs s) = rs"
  using assms
proof (induction rs arbitrary: s)
  case (Cons r rs)
  obtain t j where r: "r = (t, j)" by (cases r)
  have ok: "fst (admit t j s)" using Cons.prems r by (auto intro: fresh_key_admitted)
  have fresh: "\<forall>q\<in>set rs. stored (snd (admit t j s)) (snd q) = []"
  proof
    fix q assume "q \<in> set rs"
    with Cons.prems(2) r have "snd q \<noteq> j" by force
    with Cons.prems(3) \<open>q \<in> set rs\<close> show "stored (snd (admit t j s)) (snd q) = []"
      by (simp add: stored_other)
  qed
  have "snd (admit_run admit rs (snd (admit t j s))) = rs"
    using Cons.IH [OF _ _ fresh] Cons.prems r by (simp add: cap_fixed)
  with ok show ?case by (simp add: r Let_def)
qed simp

end

interpretation rl: admission Allow hits_of lim_limit lim_window
  by unfold_locales (auto simp: Allow_prunes hits_of_def Let_def)

lemma hits_of_new [simp]: "hits_of (newIPRateLimiter c w) k = []"
  by (simp add: hits_of_def newIPRateLimiter_def)

lemma lim_limit_new [simp]: "lim_limit (newIPRateLimiter c w) = c"
  by (simp add: newIPRateLimiter_def)

lemma lim_window_new [simp]: "lim_window (newIPRateLimiter c w) = w"
  by (simp add: newIPRateLimiter_def)

end
