(* ===== verification/LimiterConcurrency.thy ===== *)
theory LimiterConcurrency
  imports RateLimiter
begin

section \<open>Concurrent requests at a rate limiter\<close>

text \<open>
  Every request runs in a goroutine of its own.  In the auth, audit and cluster services
  \<open>Allow\<close> reads the clock, then waits for the mutex (\<open>pre_lock_step\<close>): a request can hold the
  mutex after a request with a later reading.  In filetransfer the clock is read while the mutex
  is held (\<open>under_lock_step\<close>).  \<open>ls_admitted\<close> is the log of the admitted requests.
\<close>

record lock_sys =
  ls_clock :: instant
  ls_pending :: "(string \<times> instant) list"
  ls_lim :: limiter
  ls_admitted :: "(instant \<times> string) list"

definition lock_sys_init :: "int \<Rightarrow> duration \<Rightarrow> lock_sys" where
  "lock_sys_init c w =
    \<lparr>ls_clock = 0, ls_pending = [], ls_lim = newIPRateLimiter c w, ls_admitted = []\<rparr>"

definition admit_at :: "instant \<Rightarrow> string \<Rightarrow> lock_sys \<Rightarrow> lock_sys" where
  "admit_at now ip s =
    (let (ok, l) = Allow now ip (ls_lim s)
     in s\<lparr>ls_lim := l,
          ls_admitted := (if ok then ls_admitted s @ [(now, ip)] else ls_admitted s)\<rparr>)"

inductive pre_lock_step :: "lock_sys \<Rightarrow> lock_sys \<Rightarrow> bool" where
  pre_tick: "0 \<le> d \<Longrightarrow> pre_lock_step s (s\<lparr>ls_clock := ls_clock s + d\<rparr>)"
| pre_sample: "pre_lock_step s (s\<lparr>ls_pending := ls_pending s @ [(ip, ls_clock s)]\<rparr>)"
| pre_commit: "i < length (ls_pending s) \<Longrightarrow> ls_pending s ! i = (ip, now) \<Longrightarrow>
    pre_lock_step s
      ((admit_at now ip s)\<lparr>ls_pending := take i (ls_pending s) @ drop (Suc i) (ls_pending s)\<rparr>)"

inductive under_lock_step :: "lock_sys \<Rightarrow> lock_sys \<Rightarrow> bool" where
  under_tick: "0 \<le> d \<Longrightarrow> under_lock_step s (s\<lparr>ls_clock := ls_clock s + d\<rparr>)"
| under_serve: "under_lock_step s (admit_at (ls_clock s) ip s)"

inductive pre_lock_reach :: "int \<Rightarrow> duration \<Rightarrow> lock_sys \<Rightarrow> bool" for c w where
  pre_init: "pre_lock_reach c w (lock_sys_init c w)"
| pre_next: "pre_lock_reach c w s \<Longrightarrow> pre_lock_step s t \<Longrightarrow> pre_lock_reach c w t"

inductive under_lock_reach :: "int \<Rightarrow> duration \<Rightarrow> lock_sys \<Rightarrow> bool" for c w where
  under_init: "under_lock_reach c w (lock_sys_init c w)"
| under_next: "under_lock_reach c w s \<Longrightarrow> under_lock_step s t \<Longrightarrow> under_lock_reach c w t"

inductive_cases under_lock_stepE: "under_lock_step s t"
inductive_cases pre_lock_stepE: "pre_lock_step s t"

subsection \<open>Filetransfer: reading the clock under the lock enforces the quota\<close>

definition lock_inv :: "int \<Rightarrow> duration \<Rightarrow> lock_sys \<Rightarrow> bool" where
  [inv_simps]: "lock_inv c w s \<longleftrightarrow>
    lim_limit (ls_lim s) = c \<and> lim_window (ls_lim s) = w \<and>
    (\<forall>k. quota_ok w c (ls_clock s) (times_of k (ls_admitted s)) (hits_of (ls_lim s) k))"

lemma lock_inv_init: "0 \<le> c \<Longrightarrow> lock_inv c w (lock_sys_init c w)"
  by (simp add: lock_inv_def lock_sys_init_def quota_ok_def in_window_def)

lemma admit_at_simps [simp]:
  "ls_clock (admit_at now ip s) = ls_clock s"
  "ls_lim (admit_at now ip s) = snd (Allow now ip (ls_lim s))"
  "ls_admitted (admit_at now ip s) =
    (if fst (Allow now ip (ls_lim s)) then ls_admitted s @ [(now, ip)] else ls_admitted s)"
  by (auto simp: admit_at_def split: prod.splits)

lemma lock_inv_serve: "lock_inv c w s \<Longrightarrow> lock_inv c w (admit_at (ls_clock s) ip s)"
proof -
  assume inv: "lock_inv c w s"
  have "quota_ok w c (ls_clock s) (times_of k (ls_admitted (admit_at (ls_clock s) ip s)))
      (hits_of (snd (Allow (ls_clock s) ip (ls_lim s))) k)" for k
    using rl.admit_quota [of "ls_lim s" "ls_clock s" "times_of k (ls_admitted s)" k
        "ls_clock s" ip] inv
    by (auto simp: lock_inv_def split: if_splits)
  with inv show ?thesis by (simp add: lock_inv_def rl.cap_fixed rl.window_fixed)
qed

lemma lock_inv_step: "under_lock_step s t \<Longrightarrow> lock_inv c w s \<Longrightarrow> lock_inv c w t"
proof (erule under_lock_stepE)
  fix d :: int
  assume "lock_inv c w s" "t = s\<lparr>ls_clock := ls_clock s + d\<rparr>" "0 \<le> d"
  then show ?thesis by (auto simp: lock_inv_def intro: quota_ok_later)
qed (auto intro: lock_inv_serve)

lemma under_lock_inv: "under_lock_reach c w s \<Longrightarrow> 0 \<le> c \<Longrightarrow> lock_inv c w s"
  by (induction rule: under_lock_reach.induct) (auto intro: lock_inv_init lock_inv_step)

text \<open>C15: in every reachable state of the limiter that reads the clock while it holds the mutex
  (filetransfer), whatever requests arrive and in whatever order they are served, no key has more
  than \<open>limit\<close> admitted requests in any closed window of the configured length.\<close>

theorem under_lock_quota:
  assumes "under_lock_reach c w s" and "0 \<le> c"
  shows "int (in_window w T (times_of k (ls_admitted s))) \<le> c"
  using under_lock_inv [OF assms] by (simp add: lock_inv_def quota_ok_def)

lemma under_lock_example:
  "under_lock_reach 1 10 (admit_at 0 ''a'' (admit_at 0 ''a'' (lock_sys_init 1 10)))"
proof -
  have "under_lock_reach 1 10 (admit_at (ls_clock (lock_sys_init 1 10)) ''a'' (lock_sys_init 1 10))"
    by (rule under_next [OF under_init under_serve])
  from under_next [OF this under_serve [of _ "''a''"]] show ?thesis
    by (simp add: lock_sys_init_def)
qed

theorem under_lock_quota_witness:
  "int (in_window 10 5 (times_of ''a''
     (ls_admitted (admit_at 0 ''a'' (admit_at 0 ''a'' (lock_sys_init 1 10)))))) \<le> 1 \<and>
   ls_admitted (admit_at 0 ''a'' (admit_at 0 ''a'' (lock_sys_init 1 10))) = [(0, ''a'')]"
  using under_lock_quota [OF under_lock_example, of 5 "''a''"]
  by (simp add: lock_sys_init_def Allow_prunes hits_of_def newIPRateLimiter_def)

subsection \<open>Auth, audit, cluster: reading the clock before the lock\<close>

text \<open>
  The run that breaks the quota of 2 in a window of 10: two requests are served at 0 and 1, a
  third reads 9 and stalls, a fourth reads 12, is served and prunes the first two; then the third
  is served with its old reading.
\<close>

definition overshoot_state :: lock_sys where
  "overshoot_state =
    (let s1 = admit_at 0 ''a'' (lock_sys_init 2 10);
         s2 = admit_at 1 ''a'' (s1\<lparr>ls_clock := 1\<rparr>);
         s3 = admit_at 12 ''a'' (s2\<lparr>ls_pending := [(''a'', 9)], ls_clock := 12\<rparr>)
     in (admit_at 9 ''a'' s3)\<lparr>ls_pending := []\<rparr>)"

lemma pre_lock_request:
  assumes "pre_lock_reach c w s" and "ls_pending s = ps"
  shows "pre_lock_reach c w ((admit_at (ls_clock s) ip s)\<lparr>ls_pending := ps\<rparr>)"
proof -
  let ?s = "s\<lparr>ls_pending := ps @ [(ip, ls_clock s)]\<rparr>"
  have "pre_lock_reach c w ?s" using pre_next [OF assms(1) pre_sample] assms(2) by simp
  from pre_next [OF this pre_commit [of "length ps" ?s ip "ls_clock s"]]
  have "pre_lock_reach c w ((admit_at (ls_clock s) ip ?s)\<lparr>ls_pending := ps\<rparr>)" by simp
  moreover have "(admit_at (ls_clock s) ip ?s)\<lparr>ls_pending := ps\<rparr>
      = (admit_at (ls_clock s) ip s)\<lparr>ls_pending := ps\<rparr>"
    by (simp add: admit_at_def split: prod.splits)
  ultimately show ?thesis by simp
qed

lemma admit_at_pending [simp]: "ls_pending (admit_at now ip s) = ls_pending s"
  by (simp add: admit_at_def split: prod.splits)

lemma lock_sys_pending_id: "ls_pending s = ps \<Longrightarrow> s\<lparr>ls_pending := ps\<rparr> = s"
  by (cases s) simp

lemma overshoot_reachable: "pre_lock_reach 2 10 overshoot_state"
proof -
  let ?s1 = "admit_at 0 ''a'' (lock_sys_init 2 10)"
  let ?s2 = "admit_at 1 ''a'' (?s1\<lparr>ls_clock := 1\<rparr>)"
  let ?s3 = "admit_at 12 ''a'' (?s2\<lparr>ls_pending := [(''a'', 9)], ls_clock := 12\<rparr>)"
  note req = pre_lock_request [OF _ refl, unfolded lock_sys_pending_id [OF admit_at_pending]]
  have "pre_lock_reach 2 10 ?s1"
    using req [OF pre_init, of 2 10 "''a''"] by (simp add: lock_sys_init_def)
  from pre_next [OF this pre_tick [of 1]]
  have "pre_lock_reach 2 10 (?s1\<lparr>ls_clock := 1\<rparr>)" by (simp add: lock_sys_init_def)
  from req [OF this, of "''a''"] have "pre_lock_reach 2 10 ?s2" by simp
  from pre_next [OF this pre_tick [of 8]]
  have "pre_lock_reach 2 10 (?s2\<lparr>ls_clock := 9\<rparr>)" by (simp add: lock_sys_init_def)
  from pre_next [OF this pre_sample [of _ "''a''"]]
  have "pre_lock_reach 2 10 (?s2\<lparr>ls_clock := 9, ls_pending := [(''a'', 9)]\<rparr>)"
    by (simp add: lock_sys_init_def)
  from pre_next [OF this pre_tick [of 3]]
  have "pre_lock_reach 2 10 (?s2\<lparr>ls_pending := [(''a'', 9)], ls_clock := 12\<rparr>)" by simp
  from req [OF this, of "''a''"] have "pre_lock_reach 2 10 ?s3" by simp
  from pre_next [OF this pre_commit [of 0 ?s3 "''a''" 9]]
  show ?thesis by (simp add: overshoot_state_def Let_def)
qed

text \<open>with the clock read before the mutex is taken (auth, audit and cluster), the quota is
  not an invariant: a limiter of 2 requests per window of 10 reaches a state with 3 admitted
  requests of one key in one window.\<close>

theorem pre_lock_overshoots:
  "\<exists>s T. pre_lock_reach 2 10 s \<and> 2 < int (in_window 10 T (times_of ''a'' (ls_admitted s)))"
proof -
  have "ls_admitted overshoot_state = [(0, ''a''), (1, ''a''), (12, ''a''), (9, ''a'')]"
    by (simp add: overshoot_state_def lock_sys_init_def Allow_prunes hits_of_def
        newIPRateLimiter_def Let_def)
  then have "in_window 10 10 (times_of ''a'' (ls_admitted overshoot_state)) = 3"
    by (simp add: in_window_def)
  with overshoot_reachable show ?thesis by (intro exI [of _ overshoot_state] exI [of _ 10]) simp
qed

end
