(* ===== verification/Trace.thy ===== *)
theory Trace
  imports RateLimiter
begin

section \<open>The tracing middleware of the services\<close>

text \<open>
  \<open>withRequestTrace\<close> of each service: it fixes the request identifier, wraps the writer, applies
  the service's rate limiter and body limit where it has one, and logs the recorded status.  A
  handler maps the writer, the request and the service's state to a reply and the new state.
  The log entry is emitted because its marshalling cannot fail (strings, integers and a finite
  float).
\<close>

record writer =
  can_hijack :: bool

text \<open>\<open>&statusRecorder{ResponseWriter: w}\<close>: only the methods of the embedded interface remain.\<close>

definition statusRecorder :: "writer \<Rightarrow> writer" where
  "statusRecorder w = w\<lparr>can_hijack := False\<rparr>"

type_synonym ('s, 'b) handler = "writer \<Rightarrow> request \<Rightarrow> 's \<Rightarrow> 'b reply \<times> 's"

definition too_many :: "'b reply" where
  "too_many = Http_Error 429 ''Too many requests''"

definition plain_trace ::
  "string \<Rightarrow> string \<Rightarrow> ('s, 'b) handler \<Rightarrow> trace_env \<Rightarrow> writer \<Rightarrow> request \<Rightarrow> 's \<Rightarrow>
    'b traced \<times> 's" where
  "plain_trace svc name nxt e w r s =
    (let rid = getOrCreateRequestID (te_rnd e) (te_fallback e) r;
         r' = set_header requestIDHeader rid r;
         (rep, s') = nxt (statusRecorder w) r' s;
         st = recorded_status (reply_events rep)
     in (\<lparr>tr_request_id = rid, tr_reply = rep, tr_log = trace_log svc name e rid r' st\<rparr>, s'))"

definition limited_trace ::
  "string \<Rightarrow> string \<Rightarrow> nat \<Rightarrow> ('s, 'b) handler \<Rightarrow> trace_env \<Rightarrow> writer \<Rightarrow> request \<Rightarrow>
    limiter \<times> 's \<Rightarrow> 'b traced \<times> limiter \<times> 's" where
  "limited_trace svc name maxBody nxt e w r ls =
    (let rid = getOrCreateRequestID (te_rnd e) (te_fallback e) r;
         r' = set_header requestIDHeader rid r;
         (ok, l) = Allow (te_allow e) (clientIP r') (fst ls);
         (rep, s') =
           (if \<not> ok then (too_many, snd ls)
            else nxt (statusRecorder w) (if maxBody > 0 then limit_body maxBody r' else r') (snd ls));
         st = recorded_status (reply_events rep)
     in (\<lparr>tr_request_id = rid, tr_reply = rep, tr_log = trace_log svc name e rid r' st\<rparr>, l, s'))"

subsection \<open>The six services\<close>

definition messaging_withRequestTrace where
  "messaging_withRequestTrace = plain_trace ''messaging''"

definition presence_withRequestTrace where
  "presence_withRequestTrace = plain_trace ''presence''"

definition auth_withRequestTrace where
  "auth_withRequestTrace = limited_trace ''auth''"

definition audit_withRequestTrace where
  "audit_withRequestTrace = limited_trace ''audit''"

definition filetransfer_withRequestTrace where
  "filetransfer_withRequestTrace = limited_trace ''filetransfer''"

definition cluster_withRequestTrace where
  "cluster_withRequestTrace name = limited_trace ''cluster'' name 0"

definition authLimiter :: limiter where
  "authLimiter = newIPRateLimiter 60 minute"

definition auditLimiter :: limiter where
  "auditLimiter = newIPRateLimiter 120 minute"

definition clusterLimiter :: limiter where
  "clusterLimiter = newIPRateLimiter 120 minute"

definition fileLimiter :: limiter where
  "fileLimiter = newIPRateLimiter 45 minute"

subsection \<open>What tracing guarantees\<close>

lemma clientIP_set_header [simp]:
  "clientIP (set_header requestIDHeader rid r) = clientIP r"
  by (simp add: clientIP_def set_header_def requestIDHeader_def Let_def split: option.splits)

lemma limited_trace_rejects:
  assumes "\<not> fst (Allow (te_allow e) (clientIP r) (fst ls))"
  shows "tr_reply (fst (limited_trace svc name mb nxt e w r ls)) = too_many"
    and "snd (snd (limited_trace svc name mb nxt e w r ls)) = snd ls"
  using assms by (auto simp: limited_trace_def Let_def split: prod.splits)

lemma limited_trace_limiter:
  "fst (snd (limited_trace svc name mb nxt e w r ls))
    = snd (Allow (te_allow e) (clientIP r) (fst ls))"
  by (auto simp: limited_trace_def Let_def split: prod.splits if_splits)

lemma limited_trace_log:
  "let t = fst (limited_trace svc name mb nxt e w r ls)
   in le_status (tr_log t) = status_of (tr_reply t) \<and> le_request_id (tr_log t) = tr_request_id t"
  by (auto simp: limited_trace_def trace_log_def Let_def split: prod.splits if_splits)

lemma plain_trace_log:
  "let t = fst (plain_trace svc name nxt e w r s)
   in le_status (tr_log t) = status_of (tr_reply t) \<and> le_request_id (tr_log t) = tr_request_id t"
  by (auto simp: plain_trace_def trace_log_def Let_def split: prod.splits)

text \<open>A server that handles a sequence of requests through a limited handler.\<close>

fun serve_all ::
  "string \<Rightarrow> nat \<Rightarrow> ('s, 'b) handler \<Rightarrow> (trace_env \<times> writer \<times> request) list \<Rightarrow> limiter \<times> 's \<Rightarrow>
    'b traced list" where
  "serve_all svc mb nxt [] ls = []"
| "serve_all svc mb nxt ((e, w, r) # rs) ls =
    (let p = limited_trace svc [] mb nxt e w r ls
     in fst p # serve_all svc mb nxt rs (snd p))"

definition requests_of :: "(trace_env \<times> writer \<times> request) list \<Rightarrow> (instant \<times> string) list" where
  "requests_of rs = map (\<lambda>(e, w, r). (te_allow e, clientIP r)) rs"

text \<open>The handler never answers 429 itself.\<close>

definition never_limits :: "('s, 'b) handler \<Rightarrow> bool" where
  "never_limits nxt \<longleftrightarrow> (\<forall>w r s. status_of (fst (nxt w r s)) \<noteq> 429)"

lemma limited_trace_429:
  assumes "never_limits nxt"
  shows "status_of (tr_reply (fst (limited_trace svc name mb nxt e w r ls))) = 429
    \<longleftrightarrow> \<not> fst (Allow (te_allow e) (clientIP r) (fst ls))"
  using assms
  by (auto simp: limited_trace_def never_limits_def too_many_def Let_def split: prod.splits if_splits)
     (metis fst_conv)+

lemma requests_of_Cons [simp]:
  "requests_of ((e, w, r) # rs) = (te_allow e, clientIP r) # requests_of rs"
  by (simp add: requests_of_def)

lemma requests_of_Nil [simp]: "requests_of [] = []"
  by (simp add: requests_of_def)

text \<open>The replies that are not 429 are the requests the limiter admits.\<close>

lemma serve_all_admits:
  assumes "never_limits nxt"
  shows "length (filter (\<lambda>t. status_of (tr_reply t) \<noteq> 429) (serve_all svc mb nxt rs ls))
    = length (snd (admit_run Allow (requests_of rs) (fst ls)))"
proof (induction rs arbitrary: ls)
  case (Cons q rs)
  obtain e w r where q: "q = (e, w, r)" by (cases q)
  let ?p = "limited_trace svc [] mb nxt e w r ls"
  have "length (filter (\<lambda>t. status_of (tr_reply t) \<noteq> 429) (serve_all svc mb nxt rs (snd ?p)))
      = length (snd (admit_run Allow (requests_of rs)
          (snd (Allow (te_allow e) (clientIP r) (fst ls)))))"
    using Cons.IH [of "snd ?p"] by (simp add: limited_trace_limiter)
  then show ?case using limited_trace_429 [OF assms] by (simp add: q Let_def)
qed simp

text \<open>A request whose forwarding header carries an address of its own, sent from any peer.\<close>

definition spoofed :: "request \<Rightarrow> string \<Rightarrow> request" where
  "spoofed r ip = set_header ''X-Forwarded-For'' ip r"

lemma clientIP_spoofed:
  "trim_space ip = ip \<Longrightarrow> ip \<noteq> [] \<Longrightarrow> CHR '','' \<notin> set ip \<Longrightarrow> clientIP (spoofed r ip) = ip"
  by (rule clientIP_forwarded) (auto simp: spoofed_def set_header_def)

lemma spoofing_all_admitted:
  assumes "0 < c" and "distinct ips"
    and "\<And>ip. ip \<in> set ips \<Longrightarrow> trim_space ip = ip \<and> ip \<noteq> [] \<and> CHR '','' \<notin> set ip"
    and "never_limits nxt"
  shows "length (filter (\<lambda>t. status_of (tr_reply t) \<noteq> 429)
      (serve_all svc mb nxt (map (\<lambda>ip. (e, w, spoofed r ip)) ips) (newIPRateLimiter c win, s)))
    = length ips"
proof -
  let ?rs = "map (\<lambda>ip. (e, w, spoofed r ip)) ips"
  have req: "requests_of ?rs = map (\<lambda>ip. (te_allow e, ip)) ips"
    using assms(3) by (induction ips) (auto simp: clientIP_spoofed)
  have "snd (admit_run Allow (requests_of ?rs) (newIPRateLimiter c win)) = requests_of ?rs"
    using assms(1,2) by (intro rl.distinct_keys_all_admitted) (auto simp: req comp_def)
  then show ?thesis using serve_all_admits [OF assms(4)] by (simp add: req)
qed

end
