(* ===== verification/PlatformDB.thy ===== *)
theory PlatformDB
  imports GoStrings
begin

section \<open>The shared SQLite database\<close>

text \<open>
  In the shipped deployment the auth, messaging, presence and admin services open the same file
  (\<open>deploy/docker-compose.yml\<close>, \<open>platform.db\<close>).  A table is the list of its rows in insertion
  order, or \<open>None\<close> while no service has created it.  A nullable column is an option.  Primary-key,
  UNIQUE and NOT NULL constraints are enforced by the statements; foreign keys are not, because
  SQLite leaves \<open>PRAGMA foreign_keys\<close> off and no service turns it on, so no delete cascades.
  The tables \<open>channels\<close> and \<open>channel_members\<close> are declared by two services with different columns,
  and \<open>CREATE TABLE IF NOT EXISTS\<close> keeps the first declaration; \<open>chan_ddl\<close> records which one.
\<close>

datatype ddl = DDL_Messaging | DDL_Admin

type_synonym 'r table = "'r list option"

record user_row =
  usr_id :: string
  usr_username :: string
  usr_full_name :: "string option"
  usr_password_hash :: string
  usr_role_id :: "string option"
  usr_department_id :: "string option"
  usr_created_at :: int
  usr_updated_at :: int

record admin_user_row =
  adm_id :: string
  adm_username :: string
  adm_password_hash :: string
  adm_role :: string
  adm_created_at :: int
  adm_updated_at :: int

record role_row =
  rol_id :: string
  rol_name :: string
  rol_permissions :: string
  rol_created_at :: int
  rol_updated_at :: int

record department_row =
  dep_id :: string
  dep_name :: string
  dep_created_at :: int
  dep_updated_at :: int

record channel_row =
  ch_id :: string
  ch_name :: string
  ch_type :: string
  ch_department_id :: "string option"
  ch_created_at :: "int option"
  ch_updated_at :: "int option"
  ch_created_by :: "string option"

record member_row =
  mem_channel_id :: string
  mem_user_id :: string
  mem_role :: "string option"
  mem_joined_at :: "int option"

record device_row =
  dev_id :: string
  dev_user_id :: string
  dev_name :: string
  dev_fingerprint :: string
  dev_last_seen :: "int option"
  dev_created_at :: int

record audit_row =
  aud_id :: nat
  aud_timestamp :: int
  aud_actor_id :: string
  aud_actor_username :: string
  aud_action :: string
  aud_target :: string
  aud_details :: string
  aud_ip :: string

text \<open>\<open>protocol.Message\<close>, the row of \<open>messages\<close> and the object that is delivered.\<close>

record message =
  msg_id :: string
  msg_channel_id :: string
  msg_sender_id :: string
  msg_timestamp :: int
  msg_type :: int
  msg_content :: string
  msg_nonce :: string
  msg_signature :: string

record presence_row =
  pr_user_id :: string
  pr_status :: int
  pr_last_seen :: int
  pr_updated_at :: int

record platform_db =
  t_users :: "user_row table"
  t_admin_users :: "admin_user_row table"
  t_roles :: "role_row table"
  t_departments :: "department_row table"
  t_channels :: "channel_row table"
  t_members :: "member_row table"
  t_devices :: "device_row table"
  t_audit_logs :: "audit_row table"
  t_messages :: "message table"
  t_presence :: "presence_row table"
  t_audit_seq :: nat
  chan_ddl :: ddl

definition empty_db :: platform_db where
  "empty_db =
    \<lparr>t_users = None, t_admin_users = None, t_roles = None, t_departments = None,
     t_channels = None, t_members = None, t_devices = None, t_audit_logs = None,
     t_messages = None, t_presence = None, t_audit_seq = 0, chan_ddl = DDL_Messaging\<rparr>"

subsection \<open>Statements\<close>

datatype db_err = NoRows | DriverErr

text \<open>A query: the driver's error, the error of a missing table, or the rows.\<close>

definition query :: "bool \<Rightarrow> 'r table \<Rightarrow> db_err + 'r list" where
  "query f t =
    (if f then Inl DriverErr
     else (case t of None \<Rightarrow> Inl DriverErr | Some rs \<Rightarrow> Inr rs))"

text \<open>\<open>QueryRow(...).Scan(...)\<close> on the first row that satisfies the condition.\<close>

definition query_row :: "bool \<Rightarrow> ('r \<Rightarrow> bool) \<Rightarrow> 'r table \<Rightarrow> db_err + 'r" where
  "query_row f P t =
    (case query f t of
       Inl e \<Rightarrow> Inl e
     | Inr rs \<Rightarrow> (case find P rs of None \<Rightarrow> Inl NoRows | Some r \<Rightarrow> Inr r))"

text \<open>\<open>SELECT EXISTS(SELECT 1 FROM t WHERE P)\<close>.\<close>

definition query_exists :: "bool \<Rightarrow> ('r \<Rightarrow> bool) \<Rightarrow> 'r table \<Rightarrow> db_err + bool" where
  "query_exists f P t =
    (case query f t of Inl e \<Rightarrow> Inl e | Inr rs \<Rightarrow> Inr (list_ex P rs))"

text \<open>\<open>INSERT\<close>: \<open>ins\<close> checks the constraints of the new row; \<open>None\<close> is the error.\<close>

definition exec_insert ::
  "bool \<Rightarrow> ('r \<Rightarrow> 'r list \<Rightarrow> 'r list option) \<Rightarrow> 'r \<Rightarrow> 'r table \<Rightarrow> 'r table option" where
  "exec_insert f ins r t =
    (if f then None
     else (case t of
             None \<Rightarrow> None
           | Some rs \<Rightarrow> (case ins r rs of None \<Rightarrow> None | Some rs' \<Rightarrow> Some (Some rs'))))"

text \<open>\<open>DELETE FROM t WHERE P\<close>, with the number of rows affected.\<close>

definition exec_delete :: "bool \<Rightarrow> ('r \<Rightarrow> bool) \<Rightarrow> 'r table \<Rightarrow> ('r table \<times> nat) option" where
  "exec_delete f P t =
    (if f then None
     else (case t of
             None \<Rightarrow> None
           | Some rs \<Rightarrow> Some (Some (filter (\<lambda>r. \<not> P r) rs), length (filter P rs))))"

text \<open>\<open>UPDATE t SET g WHERE P\<close>; \<open>ok\<close> is the table's uniqueness constraint on the result.\<close>

definition exec_update ::
  "bool \<Rightarrow> ('r list \<Rightarrow> bool) \<Rightarrow> ('r \<Rightarrow> bool) \<Rightarrow> ('r \<Rightarrow> 'r) \<Rightarrow> 'r table \<Rightarrow> 'r table option" where
  "exec_update f ok P g t =
    (if f then None
     else (case t of
             None \<Rightarrow> None
           | Some rs \<Rightarrow>
               (let rs' = map (\<lambda>r. if P r then g r else r) rs
                in if ok rs' then Some (Some rs') else None)))"

subsection \<open>Constraints of the tables\<close>

definition ins_user :: "user_row \<Rightarrow> user_row list \<Rightarrow> user_row list option" where
  "ins_user u us =
    (if list_ex (\<lambda>v. usr_id v = usr_id u \<or> usr_username v = usr_username u) us then None
     else Some (us @ [u]))"

definition ins_admin_user :: "admin_user_row \<Rightarrow> admin_user_row list \<Rightarrow> admin_user_row list option" where
  "ins_admin_user u us =
    (if list_ex (\<lambda>v. adm_id v = adm_id u \<or> adm_username v = adm_username u) us then None
     else Some (us @ [u]))"

definition ins_role :: "role_row \<Rightarrow> role_row list \<Rightarrow> role_row list option" where
  "ins_role u us =
    (if list_ex (\<lambda>v. rol_id v = rol_id u \<or> rol_name v = rol_name u) us then None
     else Some (us @ [u]))"

definition ins_department :: "department_row \<Rightarrow> department_row list \<Rightarrow> department_row list option" where
  "ins_department u us =
    (if list_ex (\<lambda>v. dep_id v = dep_id u \<or> dep_name v = dep_name u) us then None
     else Some (us @ [u]))"

text \<open>Under the admin service's declaration \<open>created_at\<close>, \<open>updated_at\<close> and \<open>joined_at\<close> are
  NOT NULL without a default.\<close>

definition ins_channel :: "ddl \<Rightarrow> channel_row \<Rightarrow> channel_row list \<Rightarrow> channel_row list option" where
  "ins_channel d c cs =
    (if d = DDL_Admin \<and> (ch_created_at c = None \<or> ch_updated_at c = None) then None
     else if list_ex (\<lambda>v. ch_id v = ch_id c) cs then None
     else Some (cs @ [c]))"

definition mem_key :: "member_row \<Rightarrow> string \<times> string" where
  "mem_key m = (mem_channel_id m, mem_user_id m)"

definition ins_member :: "ddl \<Rightarrow> member_row \<Rightarrow> member_row list \<Rightarrow> member_row list option" where
  "ins_member d m ms =
    (if d = DDL_Admin \<and> mem_joined_at m = None then None
     else if list_ex (\<lambda>v. mem_key v = mem_key m) ms then None
     else Some (ms @ [m]))"

definition ins_message :: "message \<Rightarrow> message list \<Rightarrow> message list option" where
  "ins_message m ms =
    (if list_ex (\<lambda>v. msg_id v = msg_id m) ms then None else Some (ms @ [m]))"

subsection \<open>The interface: a table with a unique key\<close>

locale keyed_table =
  fixes key :: "'r \<Rightarrow> 'k"
    and ins :: "'r \<Rightarrow> 'r list \<Rightarrow> 'r list option"
  assumes ins_appends: "ins r rs = Some rs' \<Longrightarrow> rs' = rs @ [r]"
    and ins_fresh: "ins r rs = Some rs' \<Longrightarrow> key r \<notin> key ` set rs"
begin

lemma insertD:
  assumes "exec_insert f ins r t = Some t'"
  shows "\<exists>rs. t = Some rs \<and> t' = Some (rs @ [r]) \<and> key r \<notin> key ` set rs"
proof -
  obtain rs where t: "t = Some rs" "\<not> f"
    using assms by (cases t) (auto simp: exec_insert_def split: if_splits)
  then obtain rs' where "ins r rs = Some rs'" "t' = Some rs'"
    using assms by (cases "ins r rs") (auto simp: exec_insert_def)
  with t ins_appends [of r rs rs'] ins_fresh [of r rs rs'] show ?thesis by auto
qed

lemma insert_unique:
  assumes "distinct (map key rs)" and "exec_insert f ins r (Some rs) = Some t"
  shows "\<exists>rs'. t = Some rs' \<and> distinct (map key rs')"
  using insertD [OF assms(2)] assms(1) by auto

lemma insert_rows: "exec_insert f ins r t = Some t' \<Longrightarrow> \<exists>rs. t = Some rs \<and> t' = Some (rs @ [r])"
  by (auto dest: insertD)

lemma find_snoc_fresh:
  "key r \<notin> key ` set rs \<Longrightarrow>
    find (\<lambda>v. key v = k) (rs @ [r]) =
      (if key r = k then Some r else find (\<lambda>v. key v = k) rs)"
  by (induction rs) auto

lemma insert_lookup:
  assumes "exec_insert f ins r (Some rs) = Some (Some rs')"
  shows "find (\<lambda>v. key v = k) rs' =
    (if key r = k then Some r else find (\<lambda>v. key v = k) rs)"
  using insertD [OF assms] by (auto simp: find_snoc_fresh)

lemma delete_unique:
  "distinct (map key rs) \<Longrightarrow> exec_delete f P (Some rs) = Some (t, n) \<Longrightarrow>
    \<exists>rs'. t = Some rs' \<and> distinct (map key rs')"
  by (auto simp: exec_delete_def distinct_map_filter split: if_splits)

text \<open>Deleting by key affects at most one row, and one exactly when the key is there.\<close>

lemma delete_by_key:
  assumes "distinct (map key rs)"
  shows "length (filter (\<lambda>r. key r = k) rs) = (if k \<in> key ` set rs then 1 else 0)"
  using assms
proof (induction rs)
  case (Cons r rs)
  have "filter (\<lambda>x. key x = key r) rs = []"
    using Cons.prems by (auto simp: filter_empty_conv image_iff)
  with Cons show ?case by auto
qed simp

end

interpretation users_by_id: keyed_table usr_id ins_user
  by unfold_locales (auto simp: ins_user_def list_ex_iff split: if_splits)

interpretation users_by_name: keyed_table usr_username ins_user
  by unfold_locales (auto simp: ins_user_def list_ex_iff split: if_splits)

interpretation admins_by_name: keyed_table adm_username ins_admin_user
  by unfold_locales (auto simp: ins_admin_user_def list_ex_iff split: if_splits)

interpretation roles_by_id: keyed_table rol_id ins_role
  by unfold_locales (auto simp: ins_role_def list_ex_iff split: if_splits)

interpretation departments_by_id: keyed_table dep_id ins_department
  by unfold_locales (auto simp: ins_department_def list_ex_iff split: if_splits)

interpretation channels_tbl: keyed_table ch_id "ins_channel d" for d
  by unfold_locales (auto simp: ins_channel_def list_ex_iff split: if_splits)

interpretation members_tbl: keyed_table mem_key "ins_member d" for d
  by unfold_locales (auto simp: ins_member_def list_ex_iff split: if_splits)

interpretation messages_tbl: keyed_table msg_id ins_message
  by unfold_locales (auto simp: ins_message_def list_ex_iff split: if_splits)

subsection \<open>Schema creation of the services\<close>

definition create :: "'r table \<Rightarrow> 'r table" where
  "create t = (case t of None \<Rightarrow> Some [] | Some rs \<Rightarrow> Some rs)"

definition create_channels :: "ddl \<Rightarrow> platform_db \<Rightarrow> platform_db" where
  "create_channels d db =
    (case t_channels db of
       None \<Rightarrow> db\<lparr>t_channels := Some [], t_members := create (t_members db), chan_ddl := d\<rparr>
     | Some _ \<Rightarrow> db\<lparr>t_members := create (t_members db)\<rparr>)"

definition messaging_initDB :: "platform_db \<Rightarrow> platform_db" where
  "messaging_initDB db =
    (let db1 = create_channels DDL_Messaging db
     in db1\<lparr>t_messages := create (t_messages db1)\<rparr>)"

definition auth_initDB :: "platform_db \<Rightarrow> platform_db" where
  "auth_initDB db = db\<lparr>t_roles := create (t_roles db), t_users := create (t_users db)\<rparr>"

definition presence_initDB :: "platform_db \<Rightarrow> platform_db" where
  "presence_initDB db = db\<lparr>t_presence := create (t_presence db)\<rparr>"

definition admin_migrate :: "platform_db \<Rightarrow> platform_db" where
  "admin_migrate db =
    (let db1 = create_channels DDL_Admin
           (db\<lparr>t_admin_users := create (t_admin_users db), t_roles := create (t_roles db),
               t_departments := create (t_departments db)\<rparr>)
     in db1\<lparr>t_users := create (t_users db1), t_devices := create (t_devices db1),
            t_audit_logs := create (t_audit_logs db1)\<rparr>)"

text \<open>The service processes that open the shared file, in the order in which they start.\<close>

datatype service = Messaging | Auth | Presence | Admin

fun start_service :: "service \<Rightarrow> platform_db \<Rightarrow> platform_db" where
  "start_service Messaging db = messaging_initDB db"
| "start_service Auth db = auth_initDB db"
| "start_service Presence db = presence_initDB db"
| "start_service Admin db = admin_migrate db"

definition start_all :: "service list \<Rightarrow> platform_db \<Rightarrow> platform_db" where
  "start_all ss db = foldl (\<lambda>d s. start_service s d) db ss"

lemma create_idem [simp]: "create (create t) = create t"
  by (simp add: create_def split: option.splits)

lemma create_Some [simp]: "create (Some rs) = Some rs"
  by (simp add: create_def)

lemma create_not_None [simp]: "create t \<noteq> None"
  by (simp add: create_def split: option.splits)

lemmas init_defs = messaging_initDB_def auth_initDB_def presence_initDB_def admin_migrate_def
  create_channels_def Let_def

lemma start_keeps_ddl:
  "t_channels db \<noteq> None \<Longrightarrow>
    t_channels (start_service s db) = t_channels db \<and> chan_ddl (start_service s db) = chan_ddl db"
  by (cases s) (auto simp: init_defs split: option.splits)

lemma start_all_keeps_ddl:
  "t_channels db \<noteq> None \<Longrightarrow>
    t_channels (start_all ss db) = t_channels db \<and> chan_ddl (start_all ss db) = chan_ddl db"
  unfolding start_all_def
proof (induction ss arbitrary: db)
  case (Cons s ss)
  with start_keeps_ddl [OF Cons.prems, of s] show ?case by simp
qed simp

end
