(* ===== verification/Messaging.thy ===== *)
theory Messaging
  imports PlatformDB Trace "HOL-Library.AList"
begin

section \<open>The messaging router: authentication, channels, storage\<close>

text \<open>
  \<open>services/messaging/main.go\<close>.  The JSON decoder, the JWT library and the clock, the UUID
  generator and the environment variable are arguments (\<open>msg_env\<close>); the database is the shared
  one.  A function that can fail returns \<open>Inl\<close> of one of the router's errors; any other error of
  the driver is \<open>ErrDB\<close>.  Functions that write return the new database as well.
\<close>

datatype router_err = ErrUnauthorized | ErrChannelMissing | ErrForbidden | ErrDB

record claims =
  cl_username :: string
  cl_role :: string

record send_request =
  sr_channel_id :: string
  sr_content :: string
  sr_nonce :: string
  sr_signature :: string
  sr_type :: int

text \<open>\<open>me_jwt secret token\<close> is \<open>jwt.ParseWithClaims\<close>: \<open>None\<close> for an error, otherwise the claims and
  \<open>token.Valid\<close>.  The decoders read the body of \<open>/send\<close>, a frame of a WebSocket, the body of \<open>/dm\<close>.\<close>

record msg_env =
  me_jwt :: "string \<Rightarrow> string \<Rightarrow> (claims \<times> bool) option"
  me_secret_var :: string
  me_fault :: fault
  me_now :: instant
  me_uuid :: string
  me_decode_send :: "string \<Rightarrow> send_request option"
  me_decode_frame :: "string \<Rightarrow> send_request option"
  me_decode_dm :: "string \<Rightarrow> string option"

subsection \<open>Tokens\<close>

definition jwtSecret :: "string \<Rightarrow> string" where
  "jwtSecret v = (if v = [] then ''my_secret_key'' else v)"

definition validateToken :: "msg_env \<Rightarrow> string \<Rightarrow> claims option" where
  "validateToken e tok =
    (case me_jwt e (jwtSecret (me_secret_var e)) tok of
       None \<Rightarrow> None
     | Some (c, valid) \<Rightarrow> (if \<not> valid then None else Some c))"

definition bearerToken :: "request \<Rightarrow> string" where
  "bearerToken r =
    (let raw = rq_header r ''Authorization'';
         parts = split_n2 CHR '' '' raw
     in if raw \<noteq> [] \<and> length parts = 2 \<and> equal_fold (parts ! 0) ''Bearer'' then parts ! 1
        else rq_query r ''token'')"

subsection \<open>Lookups\<close>

definition lift_db :: "db_err + 'a \<Rightarrow> router_err + 'a" where
  "lift_db x = (case x of Inl _ \<Rightarrow> Inl ErrDB | Inr v \<Rightarrow> Inr v)"

definition getChannelType :: "fault \<Rightarrow> platform_db \<Rightarrow> string \<Rightarrow> router_err + string" where
  "getChannelType f db ch =
    (case query_row (f []) (\<lambda>c. ch_id c = ch) (t_channels db) of
       Inl NoRows \<Rightarrow> Inl ErrChannelMissing
     | Inl DriverErr \<Rightarrow> Inl ErrDB
     | Inr c \<Rightarrow> Inr (ch_type c))"

definition getChannelMembers ::
  "fault \<Rightarrow> platform_db \<Rightarrow> string \<Rightarrow> router_err + (string list \<times> string)" where
  "getChannelMembers f db ch =
    (case getChannelType (at f C_ChannelType) db ch of
       Inl e \<Rightarrow> Inl e
     | Inr ty \<Rightarrow>
         (if ty = ''public'' then Inr ([], ''public'')
          else (case query (f [C_Members]) (t_members db) of
                  Inl e \<Rightarrow> Inl ErrDB
                | Inr ms \<Rightarrow>
                    Inr (map mem_user_id (filter (\<lambda>m. mem_channel_id m = ch) ms), ty))))"

definition userExists :: "fault \<Rightarrow> platform_db \<Rightarrow> string \<Rightarrow> router_err + bool" where
  "userExists f db u = lift_db (query_exists (f []) (\<lambda>r. usr_id r = u) (t_users db))"

definition findUserIDByUsername :: "fault \<Rightarrow> platform_db \<Rightarrow> string \<Rightarrow> router_err + string" where
  "findUserIDByUsername f db n =
    (case lift_db (query_row (f []) (\<lambda>r. usr_username r = n) (t_users db)) of
       Inl e \<Rightarrow> Inl e
     | Inr u \<Rightarrow> Inr (usr_id u))"

definition isChannelMember ::
  "fault \<Rightarrow> platform_db \<Rightarrow> string \<Rightarrow> string \<Rightarrow> router_err + bool" where
  "isChannelMember f db ch u =
    lift_db (query_exists (f []) (\<lambda>m. mem_channel_id m = ch \<and> mem_user_id m = u) (t_members db))"

definition authorizeChannelAccess ::
  "fault \<Rightarrow> platform_db \<Rightarrow> string \<Rightarrow> string \<Rightarrow> router_err option" where
  "authorizeChannelAccess f db u ch =
    (case getChannelType (at f C_ChannelType) db ch of
       Inl e \<Rightarrow> Some e
     | Inr ty \<Rightarrow>
         (if ty = ''public'' then None
          else (case isChannelMember (at f C_IsMember) db ch u of
                  Inl e \<Rightarrow> Some e
                | Inr member \<Rightarrow> (if \<not> member then Some ErrForbidden else None))))"

text \<open>The rows of the LEFT JOIN are a channel with each of its members, or with none.\<close>

definition left_join_members :: "channel_row list \<Rightarrow> member_row list \<Rightarrow>
    (channel_row \<times> member_row option) list" where
  "left_join_members cs ms =
    concat (map (\<lambda>c. case filter (\<lambda>m. ch_id c = mem_channel_id m) ms of
                       [] \<Rightarrow> [(c, None)]
                     | js \<Rightarrow> map (\<lambda>m. (c, Some m)) js) cs)"

type_synonym channel_view = "string \<times> string \<times> string"

definition view_of :: "channel_row \<Rightarrow> channel_view" where
  "view_of c = (ch_id c, ch_name c, ch_type c)"

definition listAccessibleChannels ::
  "fault \<Rightarrow> platform_db \<Rightarrow> string \<Rightarrow> router_err + channel_view list" where
  "listAccessibleChannels f db u =
    (case query (f []) (t_channels db) of
       Inl e \<Rightarrow> Inl ErrDB
     | Inr cs \<Rightarrow>
         (case query False (t_members db) of
            Inl e \<Rightarrow> Inl ErrDB
          | Inr ms \<Rightarrow>
              Inr (sort_key (\<lambda>(i, n, t). n)
                (remdups
                  (map (\<lambda>(c, m). view_of c)
                    (filter (\<lambda>(c, m). ch_type c = ''public'' \<or> map_option mem_user_id m = Some u)
                      (left_join_members cs ms)))))))"

type_synonym member_view = "string \<times> string \<times> string"

definition listChannelMembers ::
  "fault \<Rightarrow> platform_db \<Rightarrow> string \<Rightarrow> router_err + member_view list" where
  "listChannelMembers f db ch =
    (case query (f []) (t_members db) of
       Inl e \<Rightarrow> Inl ErrDB
     | Inr ms \<Rightarrow>
         (case query False (t_users db) of
            Inl e \<Rightarrow> Inl ErrDB
          | Inr us \<Rightarrow>
              Inr (sort_key (\<lambda>(i, n, fn). n)
                (concat (map (\<lambda>m. map (\<lambda>u. (usr_id u, usr_username u,
                                            case usr_full_name u of None \<Rightarrow> [] | Some n \<Rightarrow> n))
                                  (filter (\<lambda>u. usr_id u = mem_user_id m) us))
                             (filter (\<lambda>m. mem_channel_id m = ch) ms))))))"

definition authenticate :: "msg_env \<Rightarrow> platform_db \<Rightarrow> request \<Rightarrow> router_err + string" where
  "authenticate e db r =
    (let tok = bearerToken r
     in if tok = [] then Inl ErrUnauthorized
        else (case validateToken e tok of
                None \<Rightarrow> Inl ErrUnauthorized
              | Some c \<Rightarrow>
                  (case findUserIDByUsername (at (me_fault e) C_Authenticate) db (cl_username c) of
                     Inl _ \<Rightarrow> Inl ErrUnauthorized
                   | Inr u \<Rightarrow> Inr u)))"

subsection \<open>Direct-message channels\<close>

definition dm_id :: "string \<Rightarrow> string \<Rightarrow> string" where
  "dm_id u1 u2 =
    (let (p1, p2) = (if u1 > u2 then (u2, u1) else (u1, u2))
     in ''dm:'' @ p1 @ '':'' @ p2)"

definition dm_channel :: "string \<Rightarrow> channel_row" where
  "dm_channel i =
    \<lparr>ch_id = i, ch_name = ''Direct Message'', ch_type = ''dm'', ch_department_id = None,
     ch_created_at = None, ch_updated_at = None, ch_created_by = None\<rparr>"

text \<open>Under the messaging service's own declaration the table has no role column.\<close>

definition dm_member :: "ddl \<Rightarrow> string \<Rightarrow> string \<Rightarrow> member_row" where
  "dm_member d i u =
    \<lparr>mem_channel_id = i, mem_user_id = u,
     mem_role = (case d of DDL_Messaging \<Rightarrow> None | DDL_Admin \<Rightarrow> Some ''member''),
     mem_joined_at = None\<rparr>"

text \<open>The transaction: any error leaves the database as it was (\<open>defer tx.Rollback()\<close>).\<close>

definition dm_transaction ::
  "fault \<Rightarrow> platform_db \<Rightarrow> string \<Rightarrow> string \<Rightarrow> string \<Rightarrow> platform_db option" where
  "dm_transaction f db i u1 u2 =
    (let d = chan_ddl db in
     if f [Stmt 1] then None
     else (case exec_insert (f [Stmt 2]) (ins_channel d) (dm_channel i) (t_channels db) of
             None \<Rightarrow> None
           | Some cs \<Rightarrow>
               (case exec_insert (f [Stmt 3]) (ins_member d) (dm_member d i u1) (t_members db) of
                  None \<Rightarrow> None
                | Some ms \<Rightarrow>
                    (case exec_insert (f [Stmt 4]) (ins_member d) (dm_member d i u2) ms of
                       None \<Rightarrow> None
                     | Some ms' \<Rightarrow>
                         (if f [Stmt 5] then None
                          else Some (db\<lparr>t_channels := cs, t_members := ms'\<rparr>))))))"

definition findOrCreateDMChannel ::
  "fault \<Rightarrow> platform_db \<Rightarrow> string \<Rightarrow> string \<Rightarrow> (router_err + string) \<times> platform_db" where
  "findOrCreateDMChannel f db u1 u2 =
    (let i = dm_id u1 u2
     in case query_exists (f [Stmt 0]) (\<lambda>c. ch_id c = i) (t_channels db) of
          Inl e \<Rightarrow> (Inl ErrDB, db)
        | Inr exists \<Rightarrow>
            (if \<not> exists
             then (case dm_transaction f db i u1 u2 of
                     None \<Rightarrow> (Inl ErrDB, db)
                   | Some db' \<Rightarrow> (Inr i, db'))
             else (Inr i, db)))"

definition resolveRequestedChannel ::
  "fault \<Rightarrow> platform_db \<Rightarrow> string \<Rightarrow> string \<Rightarrow> (router_err + string) \<times> platform_db" where
  "resolveRequestedChannel f db sender req =
    (if req = [] then (Inl ErrChannelMissing, db)
     else (case getChannelType (at f C_ChannelType) db req of
             Inr _ \<Rightarrow> (Inr req, db)
           | Inl e \<Rightarrow>
               (if e \<noteq> ErrChannelMissing then (Inl e, db)
                else (case userExists (at f C_UserExists) db req of
                        Inl e' \<Rightarrow> (Inl e', db)
                      | Inr exists \<Rightarrow>
                          (if \<not> exists then (Inl ErrChannelMissing, db)
                           else if req = sender then (Inl ErrForbidden, db)
                           else findOrCreateDMChannel (at f C_FindOrCreateDM) db sender req)))))"

subsection \<open>Storage\<close>

definition SaveMessage ::
  "fault \<Rightarrow> instant \<Rightarrow> string \<Rightarrow> platform_db \<Rightarrow> send_request \<Rightarrow> string \<Rightarrow> string \<Rightarrow>
    (router_err + message) \<times> platform_db" where
  "SaveMessage f now uid db req sender ch =
    (let m = \<lparr>msg_id = uid, msg_channel_id = ch, msg_sender_id = sender,
              msg_timestamp = unix_milli now, msg_type = sr_type req,
              msg_content = sr_content req, msg_nonce = sr_nonce req,
              msg_signature = sr_signature req\<rparr>
     in case exec_insert (f []) ins_message m (t_messages db) of
          None \<Rightarrow> (Inl ErrDB, db)
        | Some ms \<Rightarrow> (Inr m, db\<lparr>t_messages := ms\<rparr>))"

definition history_rows :: "string \<Rightarrow> message list \<Rightarrow> message list" where
  "history_rows ch ms =
    take 100 (sort_key msg_timestamp (filter (\<lambda>m. msg_channel_id m = ch) ms))"

subsection \<open>Facts about lookups\<close>

lemma getChannelType_cases:
  "getChannelType f db ch = Inr ty \<longleftrightarrow>
    \<not> f [] \<and> (\<exists>cs c. t_channels db = Some cs \<and> find (\<lambda>c. ch_id c = ch) cs = Some c \<and> ch_type c = ty)"
  by (auto simp: getChannelType_def query_row_def query_def split: option.splits sum.splits db_err.splits)

lemma getChannelType_missing:
  "getChannelType f db ch = Inl ErrChannelMissing \<longleftrightarrow>
    \<not> f [] \<and> (\<exists>cs. t_channels db = Some cs \<and> (\<forall>c\<in>set cs. ch_id c \<noteq> ch))"
  by (auto simp: getChannelType_def query_row_def query_def find_None_iff
      split: option.splits sum.splits db_err.splits dest: find_Some_in)

lemma getChannelType_err:
  "getChannelType f db ch = Inl e \<Longrightarrow> e = ErrChannelMissing \<or> e = ErrDB"
  by (auto simp: getChannelType_def split: option.splits sum.splits db_err.splits)

definition member_of :: "platform_db \<Rightarrow> string \<Rightarrow> string \<Rightarrow> bool" where
  "member_of db ch u \<longleftrightarrow>
    (case t_members db of
       None \<Rightarrow> False
     | Some ms \<Rightarrow> list_ex (\<lambda>m. mem_channel_id m = ch \<and> mem_user_id m = u) ms)"

definition channel_type :: "platform_db \<Rightarrow> string \<Rightarrow> string option" where
  "channel_type db ch =
    (case t_channels db of
       None \<Rightarrow> None
     | Some cs \<Rightarrow> map_option ch_type (find (\<lambda>c. ch_id c = ch) cs))"

text \<open>The access rule: the channel exists and is public or has the user as a member.\<close>

definition may_access :: "platform_db \<Rightarrow> string \<Rightarrow> string \<Rightarrow> bool" where
  "may_access db u ch \<longleftrightarrow>
    (case channel_type db ch of
       None \<Rightarrow> False
     | Some ty \<Rightarrow> ty = ''public'' \<or> member_of db ch u)"

lemma getChannelType_Inr [branch_simps]:
  "getChannelType f db ch = Inr ty \<longleftrightarrow> \<not> f [] \<and> channel_type db ch = Some ty"
  by (auto simp: getChannelType_cases channel_type_def split: option.splits)

lemma isChannelMember_Inr:
  "isChannelMember f db ch u = Inr b \<longleftrightarrow>
    \<not> f [] \<and> t_members db \<noteq> None \<and> b = member_of db ch u"
  by (auto simp: isChannelMember_def lift_db_def query_exists_def query_def member_of_def
      split: option.splits sum.splits)

lemma authorize_grants_iff:
  "authorizeChannelAccess f db u ch = None \<longleftrightarrow>
    \<not> f [C_ChannelType] \<and> may_access db u ch \<and>
    (channel_type db ch = Some ''public'' \<or> \<not> f [C_IsMember])"
proof (cases "getChannelType (at f C_ChannelType) db ch")
  case (Inl e)
  then have "\<not> (\<not> f [C_ChannelType] \<and> channel_type db ch = Some ty)" for ty
    using getChannelType_Inr [of "at f C_ChannelType" db ch ty] by (simp add: at_def)
  with Inl show ?thesis
    by (auto simp: authorizeChannelAccess_def may_access_def split: option.splits)
next
  case (Inr ty)
  then have ty: "\<not> f [C_ChannelType]" "channel_type db ch = Some ty"
    by (auto simp: getChannelType_Inr at_def)
  show ?thesis
  proof (cases "isChannelMember (at f C_IsMember) db ch u")
    case (Inl e)
    then have "f [C_IsMember] \<or> t_members db = None"
      using isChannelMember_Inr [of "at f C_IsMember" db ch u "member_of db ch u"]
      by (auto simp: at_def)
    with Inl Inr ty show ?thesis
      by (auto simp: authorizeChannelAccess_def may_access_def member_of_def)
  next
    case (Inr b)
    with ty \<open>getChannelType _ db ch = Inr ty\<close> show ?thesis
      using isChannelMember_Inr [of "at f C_IsMember" db ch u b]
      by (auto simp: authorizeChannelAccess_def may_access_def at_def)
  qed
qed

end
