(* ===== verification/DirectMessages.thy ===== *)
theory DirectMessages
  imports Messaging
begin

section \<open>Facts about direct-message channels and histories\<close>

text \<open>
  The identifier of a direct-message channel is independent of who asks and, for user identifiers
  without a colon (UUIDs), belongs to one pair of users.  The invariant \<open>dm_private\<close> says that a
  channel of type dm has exactly its pair as members; every database operation of the router
  keeps it.
\<close>

lemma dm_id_sym: "dm_id a b = dm_id b a"
  by (auto simp: dm_id_def)

lemma dm_id_split:
  "dm_id a b = ''dm:'' @ (if a > b then b @ '':'' @ a else a @ '':'' @ b)"
  by (simp add: dm_id_def)

lemma append_sep_inj:
  "c \<notin> set a \<Longrightarrow> c \<notin> set b \<Longrightarrow> a @ [c] @ x = b @ [c] @ y \<Longrightarrow> a = b \<and> x = y"
proof (induction a arbitrary: b)
  case Nil
  then show ?case by (cases b) auto
next
  case (Cons z a)
  then show ?case by (cases b) auto
qed

definition colon_free :: "string \<Rightarrow> bool" where
  "colon_free s \<longleftrightarrow> CHR '':'' \<notin> set s"

lemma dm_id_inj:
  assumes "colon_free a" "colon_free b" "colon_free c" "colon_free d"
    and "dm_id a b = dm_id c d"
  shows "{a, b} = {c, d}"
proof -
  have key: "p = r \<and> q = s"
    if "p @ '':'' @ q = r @ '':'' @ s" "colon_free p" "colon_free r" for p q r s
    using append_sep_inj [of "CHR '':''" p r q s] that unfolding colon_free_def by blast
  have eq: "(if a > b then b @ '':'' @ a else a @ '':'' @ b)
      = (if c > d then d @ '':'' @ c else c @ '':'' @ d)"
    using assms(5) unfolding dm_id_split by (rule same_append_eq [THEN iffD1])
  show ?thesis
  proof (cases "a > b"; cases "c > d")
    assume "a > b" "c > d"
    with eq have "b @ '':'' @ a = d @ '':'' @ c" by (simp only: if_True)
    from key [OF this] assms show ?thesis by blast
  next
    assume "a > b" "\<not> c > d"
    with eq have "b @ '':'' @ a = c @ '':'' @ d" by (simp only: if_True if_False)
    from key [OF this] assms show ?thesis by blast
  next
    assume "\<not> a > b" "c > d"
    with eq have "a @ '':'' @ b = d @ '':'' @ c" by (simp only: if_True if_False)
    from key [OF this] assms show ?thesis by blast
  next
    assume "\<not> a > b" "\<not> c > d"
    with eq have "a @ '':'' @ b = c @ '':'' @ d" by (simp only: if_False)
    from key [OF this] assms show ?thesis by blast
  qed
qed

subsection \<open>Finding or creating\<close>

lemma query_exists_Inr:
  "query_exists f P t = Inr b \<longleftrightarrow> \<not> f \<and> (\<exists>rs. t = Some rs \<and> b = list_ex P rs)"
  by (auto simp: query_exists_def query_def split: option.splits)

lemma dm_transaction_rows:
  assumes "dm_transaction f db i u1 u2 = Some db'"
  shows "\<exists>cs ms. t_channels db = Some cs \<and> t_members db = Some ms \<and>
    i \<notin> ch_id ` set cs \<and> u1 \<noteq> u2 \<and> (i, u1) \<notin> mem_key ` set ms \<and> (i, u2) \<notin> mem_key ` set ms \<and>
    chan_ddl db = DDL_Messaging \<and>
    db' = db\<lparr>t_channels := Some (cs @ [dm_channel i]),
             t_members := Some (ms @ [dm_member DDL_Messaging i u1, dm_member DDL_Messaging i u2])\<rparr>"
proof -
  let ?d = "chan_ddl db"
  obtain cs' ms1 ms2 where
      c: "exec_insert (f [Stmt 2]) (ins_channel ?d) (dm_channel i) (t_channels db) = Some cs'"
    and m1: "exec_insert (f [Stmt 3]) (ins_member ?d) (dm_member ?d i u1) (t_members db) = Some ms1"
    and m2: "exec_insert (f [Stmt 4]) (ins_member ?d) (dm_member ?d i u2) ms1 = Some ms2"
    and db': "db' = db\<lparr>t_channels := cs', t_members := ms2\<rparr>"
    using assms by (auto simp: dm_transaction_def Let_def split: if_splits option.splits)
  have d: "?d = DDL_Messaging"
    using c by (cases ?d)
      (auto simp: exec_insert_def ins_channel_def dm_channel_def split: if_splits option.splits)
  from channels_tbl.insertD [OF c] members_tbl.insertD [OF m1] members_tbl.insertD [OF m2] db' d
  show ?thesis by (auto simp: dm_channel_def dm_member_def mem_key_def)
qed

lemma dm_transaction_runs:
  assumes "chan_ddl db = DDL_Messaging" "t_channels db = Some cs" "t_members db = Some ms"
    and "i \<notin> ch_id ` set cs" "(i, u1) \<notin> mem_key ` set ms" "(i, u2) \<notin> mem_key ` set ms" "u1 \<noteq> u2"
  shows "dm_transaction no_faults db i u1 u2 =
    Some (db\<lparr>t_channels := Some (cs @ [dm_channel i]),
             t_members := Some (ms @ [dm_member DDL_Messaging i u1, dm_member DDL_Messaging i u2])\<rparr>)"
  using assms
  by (force simp: dm_transaction_def exec_insert_def ins_channel_def ins_member_def list_ex_iff
      dm_channel_def dm_member_def mem_key_def Let_def)

lemma dm_transaction_admin_ddl:
  "chan_ddl db = DDL_Admin \<Longrightarrow> dm_transaction f db i u1 u2 = None"
  using dm_transaction_rows by (cases "dm_transaction f db i u1 u2") fastforce+

lemma channel_type_None:
  "channel_type db i = None \<longleftrightarrow>
    (\<forall>cs. t_channels db = Some cs \<longrightarrow> (\<forall>c\<in>set cs. ch_id c \<noteq> i))"
  by (auto simp: channel_type_def find_None_conv split: option.splits)

lemma findOrCreate_success:
  assumes "findOrCreateDMChannel f db u1 u2 = (Inr i, db')"
  shows "i = dm_id u1 u2 \<and>
    (db' = db \<and> channel_type db i \<noteq> None \<or> dm_transaction f db i u1 u2 = Some db')"
  using assms
  by (auto simp: findOrCreateDMChannel_def query_exists_Inr channel_type_None list_ex_iff
      Let_def split: sum.splits if_splits option.splits)

lemma findOrCreate_error: "findOrCreateDMChannel f db u1 u2 = (Inl e, db') \<Longrightarrow> db' = db"
  by (auto simp: findOrCreateDMChannel_def Let_def split: sum.splits if_splits option.splits)

lemma resolve_db:
  "resolveRequestedChannel f db s q = (x, db') \<Longrightarrow>
    db' = db \<or> dm_transaction (at f C_FindOrCreateDM) db (dm_id s q) s q = Some db'"
  by (auto simp: resolveRequestedChannel_def split: if_splits sum.splits
      dest: findOrCreate_error findOrCreate_success)
     (metis findOrCreate_error findOrCreate_success old.sum.exhaust)+

subsection \<open>Channel invariants\<close>

definition channels_of :: "platform_db \<Rightarrow> channel_row list" where
  "channels_of db = (case t_channels db of None \<Rightarrow> [] | Some cs \<Rightarrow> cs)"

definition members_of :: "platform_db \<Rightarrow> member_row list" where
  "members_of db = (case t_members db of None \<Rightarrow> [] | Some ms \<Rightarrow> ms)"

definition chan_inv :: "platform_db \<Rightarrow> bool" where
  [inv_simps]: "chan_inv db \<longleftrightarrow>
    distinct (map ch_id (channels_of db)) \<and> distinct (map mem_key (members_of db)) \<and>
    mem_channel_id ` set (members_of db) \<subseteq> ch_id ` set (channels_of db)"

definition dm_private :: "platform_db \<Rightarrow> bool" where
  [inv_simps]: "dm_private db \<longleftrightarrow>
    (\<forall>c\<in>set (channels_of db). ch_type c = ''dm'' \<longrightarrow>
      (\<exists>a b. a \<noteq> b \<and> ch_id c = dm_id a b \<and> {u. member_of db (ch_id c) u} = {a, b}))"

lemma member_of_members: "member_of db ch u \<longleftrightarrow> (ch, u) \<in> mem_key ` set (members_of db)"
  by (force simp: member_of_def members_of_def list_ex_iff mem_key_def split: option.splits)

lemma channel_type_channels:
  "channel_type db ch = map_option ch_type (find (\<lambda>c. ch_id c = ch) (channels_of db))"
  by (auto simp: channel_type_def channels_of_def split: option.splits)

lemma chan_inv_dm [inv_intros]:
  assumes "dm_transaction f db i u1 u2 = Some db'" and "chan_inv db"
  shows "chan_inv db'"
proof -
  obtain cs ms where r: "t_channels db = Some cs" "t_members db = Some ms"
      "i \<notin> ch_id ` set cs" "u1 \<noteq> u2" "(i, u1) \<notin> mem_key ` set ms" "(i, u2) \<notin> mem_key ` set ms"
    and db': "db' = db\<lparr>t_channels := Some (cs @ [dm_channel i]), t_members :=
      Some (ms @ [dm_member DDL_Messaging i u1, dm_member DDL_Messaging i u2])\<rparr>"
    using dm_transaction_rows [OF assms(1)] by auto
  have keys: "ch_id (dm_channel i) = i" "mem_key (dm_member d i u) = (i, u)"
    "mem_channel_id (dm_member d i u) = i" for d u
    by (simp_all add: dm_channel_def dm_member_def mem_key_def)
  have "mem_channel_id ` set ms \<subseteq> ch_id ` set cs"
    using assms(2) r by (simp add: chan_inv_def channels_of_def members_of_def)
  then show ?thesis
    using assms(2) r by (simp add: chan_inv_def channels_of_def members_of_def db' keys subset_insertI2)
qed

lemma dm_private_dm [inv_intros]:
  assumes tx: "dm_transaction f db (dm_id u1 u2) u1 u2 = Some db'"
    and inv: "chan_inv db" and priv: "dm_private db"
  shows "dm_private db'"
proof -
  let ?i = "dm_id u1 u2"
  obtain cs ms where r: "t_channels db = Some cs" "t_members db = Some ms"
      "?i \<notin> ch_id ` set cs" "u1 \<noteq> u2"
    and db': "db' = db\<lparr>t_channels := Some (cs @ [dm_channel ?i]), t_members :=
      Some (ms @ [dm_member DDL_Messaging ?i u1, dm_member DDL_Messaging ?i u2])\<rparr>"
    using dm_transaction_rows [OF tx] by auto
  have none: "\<not> member_of db ?i u" for u
    using inv r by (force simp: chan_inv_def member_of_members members_of_def channels_of_def mem_key_def)
  have mem: "member_of db' ch u \<longleftrightarrow> member_of db ch u \<or> (ch = ?i \<and> u \<in> {u1, u2})" for ch u
    using r(2) by (auto simp: db' member_of_def dm_member_def)
  have "{u. member_of db' ?i u} = {u1, u2}" using none mem by auto
  moreover have "{u. member_of db' (ch_id c) u} = {u. member_of db (ch_id c) u}"
    if "c \<in> set cs" for c
    using that r(3) mem by force
  ultimately show ?thesis
    using priv r by (auto simp: dm_private_def db' channels_of_def dm_channel_def)
qed

lemma resolve_inv:
  assumes "resolveRequestedChannel f db s q = (x, db')" and "chan_inv db" and "dm_private db"
  shows "chan_inv db' \<and> dm_private db'"
  using resolve_db [OF assms(1)] assms(2,3) by (auto intro: inv_intros)

lemma findOrCreate_inv:
  assumes "findOrCreateDMChannel f db s q = (x, db')" and "chan_inv db" and "dm_private db"
  shows "chan_inv db' \<and> dm_private db'"
proof (cases x)
  case (Inl e)
  with findOrCreate_error assms show ?thesis by blast
next
  case (Inr i)
  with findOrCreate_success [of f db s q i db'] assms show ?thesis by (auto intro: inv_intros)
qed

text \<open>Who may use the direct-message channel of two users: exactly these two.\<close>

lemma dm_access:
  assumes "dm_private db" and "channel_type db (dm_id a b) = Some ''dm''"
    and "colon_free a" "colon_free b"
    and "\<And>m. m \<in> set (members_of db) \<Longrightarrow> colon_free (mem_user_id m)"
  shows "may_access db u (dm_id a b) \<longleftrightarrow> u \<in> {a, b}"
proof -
  obtain c where c: "c \<in> set (channels_of db)" "ch_id c = dm_id a b" "ch_type c = ''dm''"
    using assms(2) by (auto simp: channel_type_channels dest: find_Some_in)
  have "\<exists>x y. x \<noteq> y \<and> ch_id c = dm_id x y \<and> {u. member_of db (ch_id c) u} = {x, y}"
    using assms(1) c(1,3) unfolding dm_private_def by blast
  then obtain x y where xy: "dm_id a b = dm_id x y" "{u. member_of db (dm_id a b) u} = {x, y}"
    unfolding c(2) by blast
  then have "member_of db (dm_id a b) x" "member_of db (dm_id a b) y" by auto
  then have "colon_free x" "colon_free y"
    using assms(5) by (auto simp: member_of_members mem_key_def)
  with dm_id_inj [of a b x y] assms(3,4) xy(1) have "{a, b} = {x, y}" by simp
  with xy(2) have "member_of db (dm_id a b) u \<longleftrightarrow> u \<in> {a, b}" by auto
  with assms(2) show ?thesis by (simp add: may_access_def)
qed

subsection \<open>Histories\<close>

lemma history_rows_set: "set (history_rows ch ms) \<subseteq> {m \<in> set ms. msg_channel_id m = ch}"
  unfolding history_rows_def by (auto dest: in_set_takeD)

lemma history_rows_sorted: "sorted (map msg_timestamp (history_rows ch ms))"
  unfolding history_rows_def by (simp add: take_map [symmetric] sorted_wrt_take)

lemma history_rows_length: "length (history_rows ch ms) = min 100 (length (filter (\<lambda>m. msg_channel_id m = ch) ms))"
  by (simp add: history_rows_def)

lemma history_rows_complete:
  assumes "length (filter (\<lambda>m. msg_channel_id m = ch) ms) \<le> 100"
  shows "set (history_rows ch ms) = {m \<in> set ms. msg_channel_id m = ch}"
  using assms by (simp add: history_rows_def)

lemma sorted_key_take_smallest:
  assumes "sorted (map k xs)" and "n \<le> length (filter (\<lambda>x. k x < b) xs)"
  shows "\<forall>x\<in>set (take n xs). k x < (b :: 'b :: linorder)"
proof -
  have "filter (\<lambda>x. k x < b) xs = takeWhile (\<lambda>x. k x < b) xs"
    using assms(1)
  proof (induction xs)
    case (Cons x xs)
    show ?case
    proof (cases "k x < b")
      case True
      with Cons show ?thesis by simp
    next
      case False
      with Cons.prems have "filter (\<lambda>x. k x < b) xs = []" by (force simp: filter_empty_conv)
      with False show ?thesis by simp
    qed
  qed simp
  with assms(2) have "take n xs = take n (takeWhile (\<lambda>x. k x < b) xs)"
    by (metis takeWhile_eq_take min.absorb1 take_take length_takeWhile_le)
  then show ?thesis by (auto dest!: in_set_takeD set_takeWhileD)
qed

lemma filter_sort_key_length:
  "length (filter P (sort_key k xs)) = length (filter P xs)"
  by (metis filter_sort length_sort)

lemma history_drops_recent:
  assumes "100 \<le> length (filter (\<lambda>x. msg_channel_id x = ch \<and> msg_timestamp x < msg_timestamp m) ms)"
  shows "m \<notin> set (history_rows ch ms)"
proof
  assume "m \<in> set (history_rows ch ms)"
  moreover have "\<forall>x\<in>set (history_rows ch ms). msg_timestamp x < msg_timestamp m"
    unfolding history_rows_def
    using assms by (intro sorted_key_take_smallest)
      (simp_all add: filter_sort_key_length conj_commute)
  ultimately show False by auto
qed

end
