(* ===== verification/Delivery.thy ===== *)
theory Delivery
  imports DirectMessages
begin

section \<open>Connected clients and broadcasting\<close>

text \<open>
  The in-memory half of \<open>MessageRouter\<close>: \<open>rt_clients\<close> is the Go map from user to connections (an
  association list; its order is the unspecified iteration order), \<open>rt_heap\<close> the \<open>*Client\<close>
  objects by identity, with the buffered channel \<open>Send\<close> of capacity 256 as a queue and a closed
  flag.  The mutex makes each operation one step.  Sending on a closed channel, or closing one
  twice, panics: \<open>rt_panicked\<close> records it.
\<close>

record client =
  cl_user :: string
  cl_queue :: "message list"
  cl_closed :: bool

record router =
  rt_db :: platform_db
  rt_clients :: "(string \<times> nat list) list"
  rt_heap :: "nat \<Rightarrow> client option"
  rt_next :: nat
  rt_panicked :: bool

definition NewMessageRouter :: "platform_db \<Rightarrow> router" where
  "NewMessageRouter db =
    \<lparr>rt_db = messaging_initDB db, rt_clients = [], rt_heap = Map.empty, rt_next = 0,
     rt_panicked = False\<rparr>"

definition conns_of :: "router \<Rightarrow> string \<Rightarrow> nat list" where
  "conns_of s u = (case map_of (rt_clients s) u of None \<Rightarrow> [] | Some ns \<Rightarrow> ns)"

definition Register :: "string \<Rightarrow> router \<Rightarrow> nat \<times> router" where
  "Register u s =
    (let n = rt_next s
     in (n, s\<lparr>rt_clients := AList.update u (conns_of s u @ [n]) (rt_clients s),
              rt_heap := (rt_heap s)(n \<mapsto> \<lparr>cl_user = u, cl_queue = [], cl_closed = False\<rparr>),
              rt_next := Suc n\<rparr>))"

definition close_chan :: "nat \<Rightarrow> router \<Rightarrow> router" where
  "close_chan n s =
    (case rt_heap s n of
       None \<Rightarrow> s\<lparr>rt_panicked := True\<rparr>
     | Some c \<Rightarrow>
         (if cl_closed c then s\<lparr>rt_panicked := True\<rparr>
          else s\<lparr>rt_heap := (rt_heap s)(n \<mapsto> c\<lparr>cl_closed := True\<rparr>)\<rparr>))"

definition Unregister :: "nat \<Rightarrow> router \<Rightarrow> router" where
  "Unregister n s =
    (case rt_heap s n of
       None \<Rightarrow> s\<lparr>rt_panicked := True\<rparr>
     | Some c \<Rightarrow>
         (let u = cl_user c;
              conns = conns_of s u;
              s1 = (if n \<in> set conns
                    then close_chan n
                      (s\<lparr>rt_clients := AList.update u (remove1 n conns) (rt_clients s)\<rparr>)
                    else s)
          in if conns_of s1 u = [] then s1\<lparr>rt_clients := AList.delete u (rt_clients s1)\<rparr>
             else s1))"

text \<open>\<open>select { case client.Send <- data: default: }\<close>.\<close>

definition sendBufferSize :: nat where
  "sendBufferSize = 256"

definition trySend :: "message \<Rightarrow> nat \<Rightarrow> router \<Rightarrow> router" where
  "trySend m n s =
    (case rt_heap s n of
       None \<Rightarrow> s\<lparr>rt_panicked := True\<rparr>
     | Some c \<Rightarrow>
         (if cl_closed c then s\<lparr>rt_panicked := True\<rparr>
          else if length (cl_queue c) < sendBufferSize
          then s\<lparr>rt_heap := (rt_heap s)(n \<mapsto> c\<lparr>cl_queue := cl_queue c @ [m]\<rparr>)\<rparr>
          else s))"

definition broadcast_targets :: "router \<Rightarrow> string list \<times> string \<Rightarrow> nat list" where
  "broadcast_targets s mt =
    (if snd mt = ''public'' then concat (map snd (rt_clients s))
     else concat (map (\<lambda>u. case map_of (rt_clients s) u of None \<Rightarrow> [] | Some ns \<Rightarrow> ns) (fst mt)))"

text \<open>The part of \<open>Broadcast\<close> that runs under the read lock.\<close>

definition deliver :: "message \<Rightarrow> string list \<times> string \<Rightarrow> router \<Rightarrow> router" where
  "deliver m mt s = foldl (\<lambda>t n. trySend m n t) s (broadcast_targets s mt)"

definition Broadcast :: "fault \<Rightarrow> message \<Rightarrow> router \<Rightarrow> router_err option \<times> router" where
  "Broadcast f m s =
    (case getChannelMembers f (rt_db s) (msg_channel_id m) of
       Inl e \<Rightarrow> (Some e, s)
     | Inr mt \<Rightarrow> (None, deliver m mt s))"

text \<open>One receive of the write loop \<open>for data := range client.Send\<close>.\<close>

definition write_loop_recv :: "nat \<Rightarrow> router \<Rightarrow> message option \<times> router" where
  "write_loop_recv n s =
    (case rt_heap s n of
       None \<Rightarrow> (None, s)
     | Some c \<Rightarrow>
         (case cl_queue c of
            [] \<Rightarrow> (None, s)
          | m # q \<Rightarrow> (Some m, s\<lparr>rt_heap := (rt_heap s)(n \<mapsto> c\<lparr>cl_queue := q\<rparr>)\<rparr>)))"

subsection \<open>The invariant of the client registry\<close>

text \<open>
  A client's channel is open exactly while the client is registered under its user, a registered
  client has no more than 256 waiting messages, no user has an empty list of connections, and no
  goroutine has panicked.
\<close>

definition clients_inv :: "router \<Rightarrow> bool" where
  [inv_simps]: "clients_inv s \<longleftrightarrow>
    distinct (map fst (rt_clients s)) \<and>
    (\<forall>u. map_of (rt_clients s) u \<noteq> Some [] \<and> distinct (conns_of s u)) \<and>
    (\<forall>u n. n \<in> set (conns_of s u) \<longrightarrow> (\<exists>c. rt_heap s n = Some c \<and> cl_user c = u)) \<and>
    (\<forall>n c. rt_heap s n = Some c \<longrightarrow>
      n < rt_next s \<and> length (cl_queue c) \<le> sendBufferSize \<and>
      (cl_closed c \<longleftrightarrow> n \<notin> set (conns_of s (cl_user c)))) \<and>
    \<not> rt_panicked s"

lemma clients_invD:
  assumes "clients_inv s"
  shows "distinct (map fst (rt_clients s))"
    and "map_of (rt_clients s) u \<noteq> Some []"
    and "distinct (conns_of s u)"
    and "n \<in> set (conns_of s u) \<Longrightarrow> \<exists>c. rt_heap s n = Some c \<and> cl_user c = u \<and> \<not> cl_closed c"
    and "rt_heap s n = Some c \<Longrightarrow> n < rt_next s"
    and "rt_heap s n = Some c \<Longrightarrow> length (cl_queue c) \<le> sendBufferSize"
    and "rt_heap s n = Some c \<Longrightarrow> cl_closed c \<longleftrightarrow> n \<notin> set (conns_of s (cl_user c))"
    and "\<not> rt_panicked s"
  using assms unfolding clients_inv_def by blast+

lemma clients_inv_db [simp]: "clients_inv (s\<lparr>rt_db := db\<rparr>) = clients_inv s"
  by (simp add: clients_inv_def conns_of_def)

lemma clients_inv_new: "clients_inv (NewMessageRouter db)"
  by (simp add: clients_inv_def NewMessageRouter_def conns_of_def)

lemma conns_of_update:
  "conns_of (s\<lparr>rt_clients := AList.update u ns (rt_clients s), rt_heap := h, rt_next := k\<rparr>) v
    = (if v = u then ns else conns_of s v)"
  "conns_of (s\<lparr>rt_clients := AList.update u ns (rt_clients s)\<rparr>) v
    = (if v = u then ns else conns_of s v)"
  by (simp_all add: conns_of_def update_conv')

lemma conns_of_heap [simp]:
  "conns_of (s\<lparr>rt_heap := h\<rparr>) v = conns_of s v"
  "conns_of (s\<lparr>rt_panicked := b\<rparr>) v = conns_of s v"
  by (simp_all add: conns_of_def)

lemma clients_inv_Register [inv_intros]:
  assumes inv: "clients_inv s" shows "clients_inv (snd (Register u s))"
proof -
  have fresh: "rt_next s \<notin> set (conns_of s v)" for v
    using clients_invD(4,5) [OF inv] by fastforce
  show ?thesis
    using inv fresh
    unfolding clients_inv_def Register_def Let_def
    by (auto simp: conns_of_update update_conv' distinct_update sendBufferSize_def
        intro: less_SucI split: if_splits)
qed

lemma Unregister_absent:
  assumes inv: "clients_inv s" and c: "rt_heap s n = Some c" and absent: "n \<notin> set (conns_of s (cl_user c))"
  shows "Unregister n s = s"
proof -
  let ?u = "cl_user c"
  have "AList.delete ?u (rt_clients s) = rt_clients s" if "conns_of s ?u = []"
  proof -
    have "map_of (rt_clients s) ?u = None"
      using that clients_invD(2) [OF inv, of ?u] by (auto simp: conns_of_def split: option.splits)
    then have "?u \<notin> fst ` set (rt_clients s)" by (simp add: map_of_eq_None_iff)
    then show ?thesis by (rule delete_id)
  qed
  then show ?thesis using c absent by (simp add: Unregister_def Let_def)
qed

text \<open>The effect on a registered client.\<close>

lemma Unregister_present:
  assumes inv: "clients_inv s" and c: "rt_heap s n = Some c" and present: "n \<in> set (conns_of s (cl_user c))"
  defines "s' \<equiv> Unregister n s"
  shows "conns_of s' v = (if v = cl_user c then remove1 n (conns_of s v) else conns_of s v)"
    and "rt_heap s' = (rt_heap s)(n \<mapsto> c\<lparr>cl_closed := True\<rparr>)"
    and "rt_next s' = rt_next s" and "rt_panicked s' = rt_panicked s"
    and "map_of (rt_clients s') v \<noteq> Some []" and "distinct (map fst (rt_clients s'))"
proof -
  let ?u = "cl_user c"
  let ?ns = "remove1 n (conns_of s ?u)"
  let ?cl = "AList.update ?u ?ns (rt_clients s)"
  let ?t = "s\<lparr>rt_clients := ?cl, rt_heap := (rt_heap s)(n \<mapsto> c\<lparr>cl_closed := True\<rparr>)\<rparr>"
  have "\<not> cl_closed c" using clients_invD(7) [OF inv c] present by simp
  then have eq: "s' = (if ?ns = [] then ?t\<lparr>rt_clients := AList.delete ?u ?cl\<rparr> else ?t)"
    using present c by (simp add: s'_def Unregister_def close_chan_def Let_def conns_of_update)
  show "conns_of s' v = (if v = ?u then remove1 n (conns_of s v) else conns_of s v)"
    unfolding eq by (auto simp: conns_of_def delete_conv' update_conv')
  show "rt_heap s' = (rt_heap s)(n \<mapsto> c\<lparr>cl_closed := True\<rparr>)" "rt_next s' = rt_next s"
    "rt_panicked s' = rt_panicked s"
    unfolding eq by simp_all
  show "map_of (rt_clients s') v \<noteq> Some []"
    unfolding eq using clients_invD(2) [OF inv] by (auto simp: delete_conv' update_conv')
  show "distinct (map fst (rt_clients s'))"
    unfolding eq using clients_invD(1) [OF inv] by (simp add: distinct_update distinct_delete)
qed

lemma clients_inv_Unregister [inv_intros]:
  assumes inv: "clients_inv s" and known: "rt_heap s n \<noteq> None"
  shows "clients_inv (Unregister n s)"
proof -
  obtain c where c: "rt_heap s n = Some c" using known by auto
  show ?thesis
  proof (cases "n \<in> set (conns_of s (cl_user c))")
    case False
    with Unregister_absent [OF inv c] inv show ?thesis by simp
  next
    case True
    let ?ns = "\<lambda>v. if v = cl_user c then remove1 n (conns_of s v) else conns_of s v"
    let ?h = "(rt_heap s)(n \<mapsto> c\<lparr>cl_closed := True\<rparr>)"
    note effect = Unregister_present [OF inv c True]
    have gone: "n \<notin> set (?ns v)" for v
    proof (cases "v = cl_user c")
      case False
      then show ?thesis using clients_invD(4) [OF inv, of n v] c by auto
    qed (simp add: clients_invD(3) [OF inv])
    have "\<exists>d. ?h k = Some d \<and> cl_user d = v" if "k \<in> set (?ns v)" for k v
    proof -
      have "k \<in> set (conns_of s v)" using that notin_set_remove1 by (cases "v = cl_user c") fastforce+
      then show ?thesis using clients_invD(4) [OF inv, of k v] c by auto
    qed
    moreover have "length (cl_queue d) \<le> sendBufferSize \<and> k < rt_next s \<and>
        (cl_closed d \<longleftrightarrow> k \<notin> set (?ns (cl_user d)))" if "?h k = Some d" for k d
      using that clients_invD(5-7) [OF inv] c gone [of "cl_user c"] by (auto split: if_splits)
    moreover have "distinct (?ns v)" for v using clients_invD(3) [OF inv] by (simp add: distinct_remove1)
    ultimately show ?thesis
      using clients_invD(8) [OF inv] effect unfolding clients_inv_def by simp
  qed
qed

text \<open>Changing only the queue of a client, within the bound, keeps the invariant.\<close>

lemma clients_inv_queue:
  assumes inv: "clients_inv s" and c: "rt_heap s n = Some c"
    and q: "length q \<le> sendBufferSize"
  shows "clients_inv (s\<lparr>rt_heap := (rt_heap s)(n \<mapsto> c\<lparr>cl_queue := q\<rparr>)\<rparr>)"
proof -
  have "\<exists>c'. ((rt_heap s)(n \<mapsto> c\<lparr>cl_queue := q\<rparr>)) k = Some c' \<and> cl_user c' = u"
    if "k \<in> set (conns_of s u)" for k u
    using clients_invD(4) [OF inv that] c by auto
  with inv c q show ?thesis unfolding clients_inv_def conns_of_heap by auto
qed

lemma trySend_open:
  assumes inv: "clients_inv s" and n: "n \<in> set (conns_of s u)"
  shows "clients_inv (trySend m n s)" and "rt_clients (trySend m n s) = rt_clients s"
proof -
  obtain c where c: "rt_heap s n = Some c" "\<not> cl_closed c"
    using clients_invD(4) [OF inv n] by auto
  then show "rt_clients (trySend m n s) = rt_clients s" by (simp add: trySend_def)
  show "clients_inv (trySend m n s)"
    using clients_inv_queue [OF inv c(1), of "cl_queue c @ [m]"] inv c by (simp add: trySend_def)
qed

lemma trySend_heap:
  assumes "rt_heap s n = Some c" and "\<not> cl_closed c"
  shows "rt_heap (trySend m n s) k =
    (if k = n then Some (if length (cl_queue c) < sendBufferSize
                         then c\<lparr>cl_queue := cl_queue c @ [m]\<rparr> else c)
     else rt_heap s k)"
  using assms by (simp add: trySend_def)

lemma conns_of_clients: "rt_clients s = rt_clients t \<Longrightarrow> conns_of s = conns_of t"
  by (simp add: conns_of_def fun_eq_iff)

lemma push_all_inv:
  assumes "clients_inv s" and "\<forall>n\<in>set ns. \<exists>u. n \<in> set (conns_of s u)"
  shows "clients_inv (foldl (\<lambda>t n. trySend m n t) s ns) \<and>
    rt_clients (foldl (\<lambda>t n. trySend m n t) s ns) = rt_clients s"
  using assms
proof (induction ns arbitrary: s)
  case (Cons n ns)
  then obtain u where u: "n \<in> set (conns_of s u)" by auto
  from trySend_open [OF Cons.prems(1) u, of m] conns_of_clients
  have "clients_inv (trySend m n s)" "rt_clients (trySend m n s) = rt_clients s"
    "conns_of (trySend m n s) = conns_of s" by blast+
  with Cons show ?case by simp
qed simp

lemma push_all_heap:
  assumes "clients_inv s" and "\<forall>n\<in>set ns. \<exists>u. n \<in> set (conns_of s u)" and "distinct ns"
  shows "rt_heap (foldl (\<lambda>t n. trySend m n t) s ns) k =
    (if k \<in> set ns
     then map_option (\<lambda>c. if length (cl_queue c) < sendBufferSize
                          then c\<lparr>cl_queue := cl_queue c @ [m]\<rparr> else c) (rt_heap s k)
     else rt_heap s k)"
  using assms
proof (induction ns arbitrary: s)
  case (Cons n ns)
  then obtain u where u: "n \<in> set (conns_of s u)" by auto
  from trySend_open [OF Cons.prems(1) u, of m] conns_of_clients
  have t: "clients_inv (trySend m n s)" "conns_of (trySend m n s) = conns_of s" by blast+
  obtain c where c: "rt_heap s n = Some c" "\<not> cl_closed c"
    using clients_invD(4) [OF Cons.prems(1) u] by auto
  show ?case
    using Cons.IH [OF t(1)] Cons.prems(2,3) t(2) trySend_heap [OF c, of m] c by auto
qed simp

lemma broadcast_targets_conns:
  "broadcast_targets s mt =
    (if snd mt = ''public'' then concat (map snd (rt_clients s))
     else concat (map (conns_of s) (fst mt)))"
  by (simp add: broadcast_targets_def conns_of_def [abs_def])

lemma registered_pair:
  assumes "clients_inv s" and "(u, ns) \<in> set (rt_clients s)"
  shows "conns_of s u = ns"
  using assms by (simp add: conns_of_def clients_inv_def)

lemma broadcast_targets_registered:
  assumes "clients_inv s" and "n \<in> set (broadcast_targets s mt)"
  shows "\<exists>u. n \<in> set (conns_of s u) \<and> (snd mt = ''public'' \<or> u \<in> set (fst mt))"
proof (cases "snd mt = ''public''")
  case True
  then obtain u ns where "(u, ns) \<in> set (rt_clients s)" "n \<in> set ns"
    using assms(2) by (auto simp: broadcast_targets_def)
  with registered_pair [OF assms(1)] True show ?thesis by blast
next
  case False
  with assms(2) show ?thesis by (auto simp: broadcast_targets_conns)
qed

lemma broadcast_targets_complete:
  assumes "n \<in> set (conns_of s u)" and "snd mt = ''public'' \<or> u \<in> set (fst mt)"
  shows "n \<in> set (broadcast_targets s mt)"
proof -
  obtain ns where ns: "map_of (rt_clients s) u = Some ns" "n \<in> set ns"
    using assms(1) by (cases "map_of (rt_clients s) u") (auto simp: conns_of_def)
  then have "(u, ns) \<in> set (rt_clients s)" by (simp add: map_of_SomeD)
  with ns assms(2) show ?thesis by (force simp: broadcast_targets_def)
qed

lemma distinct_concat_conns:
  assumes inv: "clients_inv s" and "distinct us"
  shows "distinct (concat (map (conns_of s) us))"
  using assms(2)
proof (induction us)
  case (Cons u us)
  have "False" if "n \<in> set (conns_of s u)" "n \<in> set (conns_of s v)" "v \<in> set us" for n v
    using clients_invD(4) [OF inv that(1)] clients_invD(4) [OF inv that(2)] that(3) Cons.prems
    by auto
  then have "set (conns_of s u) \<inter> (\<Union>v\<in>set us. set (conns_of s v)) = {}" by blast
  with Cons clients_invD(3) [OF inv] show ?case by auto
qed simp

lemma distinct_broadcast_targets:
  assumes inv: "clients_inv s" and "distinct (fst mt)"
  shows "distinct (broadcast_targets s mt)"
proof (cases "snd mt = ''public''")
  case True
  have "map (conns_of s) (map fst (rt_clients s)) = map snd (rt_clients s)"
    using registered_pair [OF inv] by auto
  then have "broadcast_targets s mt = concat (map (conns_of s) (map fst (rt_clients s)))"
    using True by (simp only: broadcast_targets_def if_True simp_thms)
  then show ?thesis using distinct_concat_conns [OF inv clients_invD(1) [OF inv]] by (simp only:)
next
  case False
  then show ?thesis
    using distinct_concat_conns [OF inv assms(2)] by (simp add: broadcast_targets_conns)
qed

lemma clients_inv_deliver [inv_intros]:
  assumes "clients_inv s" shows "clients_inv (deliver m mt s)"
proof -
  have "\<forall>n\<in>set (broadcast_targets s mt). \<exists>u. n \<in> set (conns_of s u)"
    using broadcast_targets_registered [OF assms] by blast
  from push_all_inv [OF assms this] show ?thesis by (simp add: deliver_def)
qed

lemma clients_inv_Broadcast [inv_intros]:
  "clients_inv s \<Longrightarrow> clients_inv (snd (Broadcast f m s))"
  by (auto simp: Broadcast_def intro: clients_inv_deliver split: sum.splits)

lemma deliver_unknown: "rt_heap s k = None \<Longrightarrow> rt_heap (deliver m mt s) k = None"
proof -
  have step: "rt_heap t k = None \<Longrightarrow> rt_heap (trySend m n t) k = None" for n t
    by (auto simp: trySend_def split: option.splits)
  have "rt_heap t k = None \<Longrightarrow> rt_heap (foldl (\<lambda>t n. trySend m n t) t ns) k = None" for ns t
    using step by (induction ns arbitrary: t) auto
  then show "rt_heap s k = None \<Longrightarrow> rt_heap (deliver m mt s) k = None" by (simp add: deliver_def)
qed

lemma trySend_db [simp]: "rt_db (trySend m n s) = rt_db s"
  by (simp add: trySend_def split: option.splits)

lemma deliver_db [simp]: "rt_db (deliver m mt s) = rt_db s"
proof -
  have "rt_db (foldl (\<lambda>t n. trySend m n t) s ns) = rt_db s" for ns
    by (induction ns arbitrary: s) simp_all
  then show ?thesis by (simp add: deliver_def)
qed

lemma Broadcast_db [simp]: "rt_db (snd (Broadcast f m s)) = rt_db s"
  by (simp add: Broadcast_def split: sum.splits)

lemma clients_inv_recv [inv_intros]:
  assumes "clients_inv s" shows "clients_inv (snd (write_loop_recv n s))"
proof (cases "rt_heap s n")
  case None
  with assms show ?thesis by (simp add: write_loop_recv_def)
next
  case (Some c)
  have "length (cl_queue c) \<le> sendBufferSize" using clients_invD(6) [OF assms Some] .
  with Some assms clients_inv_queue [OF assms Some] show ?thesis
    by (cases "cl_queue c") (auto simp: write_loop_recv_def)
qed

subsection \<open>Who receives a message\<close>

lemma getChannelMembers_Inr:
  assumes "getChannelMembers f db ch = Inr (us, ty)"
  shows "channel_type db ch = Some ty" and "ty \<noteq> ''public'' \<Longrightarrow> set us = {u. member_of db ch u}"
    and "chan_inv db \<Longrightarrow> distinct us"
proof -
  from assms show "channel_type db ch = Some ty"
    by (auto simp: getChannelMembers_def getChannelType_Inr at_def split: sum.splits if_splits)
next
  assume "ty \<noteq> ''public''"
  with assms show "set us = {u. member_of db ch u}"
    by (auto simp: getChannelMembers_def member_of_def list_ex_iff query_def
        split: sum.splits if_splits option.splits)
next
  assume inv: "chan_inv db"
  have "distinct (map mem_user_id (filter (\<lambda>m. mem_channel_id m = ch) ms))"
    if "distinct (map mem_key ms)" for ms
    using that by (auto simp: distinct_map inj_on_def mem_key_def)
  with assms inv show "distinct us"
    by (auto simp: getChannelMembers_def chan_inv_def members_of_def query_def
        split: sum.splits if_splits option.splits)
qed

lemma Broadcast_queue:
  assumes inv: "clients_inv s" and "chan_inv (rt_db s)"
    and b: "Broadcast f m s = (None, s')" and c: "rt_heap s n = Some c"
  shows "rt_heap s' n = Some
    (if \<not> cl_closed c \<and> may_access (rt_db s) (cl_user c) (msg_channel_id m) \<and>
        length (cl_queue c) < sendBufferSize
     then c\<lparr>cl_queue := cl_queue c @ [m]\<rparr> else c)"
proof -
  obtain us ty where mt: "getChannelMembers f (rt_db s) (msg_channel_id m) = Inr (us, ty)"
    and s': "s' = foldl (\<lambda>t n. trySend m n t) s (broadcast_targets s (us, ty))"
    using b by (auto simp: Broadcast_def deliver_def split: sum.splits)
  note ty = getChannelMembers_Inr [OF mt]
  have acc: "may_access (rt_db s) u (msg_channel_id m) \<longleftrightarrow> ty = ''public'' \<or> u \<in> set us" for u
    using ty(1,2) by (auto simp: may_access_def)
  have target: "n \<in> set (broadcast_targets s (us, ty)) \<longleftrightarrow>
      \<not> cl_closed c \<and> may_access (rt_db s) (cl_user c) (msg_channel_id m)"
  proof
    assume "n \<in> set (broadcast_targets s (us, ty))"
    from broadcast_targets_registered [OF inv this] obtain u where
      u: "n \<in> set (conns_of s u)" "ty = ''public'' \<or> u \<in> set us" by auto
    with clients_invD(4) [OF inv u(1)] c acc
    show "\<not> cl_closed c \<and> may_access (rt_db s) (cl_user c) (msg_channel_id m)" by auto
  next
    assume "\<not> cl_closed c \<and> may_access (rt_db s) (cl_user c) (msg_channel_id m)"
    with clients_invD(7) [OF inv c] acc show "n \<in> set (broadcast_targets s (us, ty))"
      by (intro broadcast_targets_complete) auto
  qed
  have dist: "distinct (broadcast_targets s (us, ty))"
    using distinct_broadcast_targets [OF inv, of "(us, ty)"] ty(3) assms(2) by simp
  have "\<forall>n\<in>set (broadcast_targets s (us, ty)). \<exists>u. n \<in> set (conns_of s u)"
    using broadcast_targets_registered [OF inv] by blast
  from push_all_heap [OF inv this dist, of m n] target c s' show ?thesis by auto
qed

end
