(* ===== verification/MessagingHandlers.thy ===== *)
theory MessagingHandlers
  imports Delivery
begin

section \<open>The HTTP and WebSocket handlers of the messaging service\<close>

text \<open>
  The handlers registered in \<open>main\<close> of \<open>services/messaging/main.go\<close>, with the state \<open>router\<close>.
  \<open>upgrade\<close> stands for \<open>websocket.Upgrader.Upgrade\<close>: \<open>None\<close> when the connection was upgraded,
  otherwise the code of the error reply it sent.  The texts of \<open>err.Error()\<close> are not modelled.
\<close>

datatype msg_payload =
    P_Send string bool
  | P_History "message list option"   \<comment> \<open>a nil slice is encoded as null\<close>
  | P_Channels "channel_view list"
  | P_Members "member_view list"
  | P_DM string
  | P_Text string

definition unauthorized :: "'b reply" where
  "unauthorized = Http_Error 401 ''unauthorized''"

definition nil_if_empty :: "'a list \<Rightarrow> 'a list option" where
  "nil_if_empty xs = (if xs = [] then None else Some xs)"

definition set_db :: "platform_db \<Rightarrow> router \<Rightarrow> router" where
  "set_db db s = s\<lparr>rt_db := db\<rparr>"

text \<open>The closure registered for \<open>/send\<close>.\<close>

definition sendHandler :: "msg_env \<Rightarrow> (router, msg_payload) handler" where
  "sendHandler e w r s =
    (let f = me_fault e in
     if rq_method r \<noteq> ''POST'' then (Http_Error 405 ''Method not allowed'', s)
     else (case me_decode_send e (rq_body r) of
       None \<Rightarrow> (Http_Err 400, s)
     | Some q \<Rightarrow>
         (case authenticate e (rt_db s) r of
            Inl _ \<Rightarrow> (unauthorized, s)
          | Inr sender \<Rightarrow>
              (let (x, db1) = resolveRequestedChannel (at f C_Resolve) (rt_db s) sender (sr_channel_id q);
                   s1 = set_db db1 s
               in case x of
                    Inl _ \<Rightarrow> (Http_Error 404 ''channel not found'', s1)
                  | Inr ch \<Rightarrow>
                      (case authorizeChannelAccess (at f C_Authorize) (rt_db s1) sender ch of
                         Some _ \<Rightarrow> (Http_Error 403 ''forbidden'', s1)
                       | None \<Rightarrow>
                           (let (y, db2) = SaveMessage (at f C_Save) (me_now e) (me_uuid e)
                                             (rt_db s1) q sender ch;
                                s2 = set_db db2 s1
                            in case y of
                                 Inl _ \<Rightarrow> (Http_Err 500, s2)
                               | Inr m \<Rightarrow>
                                   (let (b, s3) = Broadcast (at f C_Broadcast) m s2
                                    in case b of
                                         Some _ \<Rightarrow> (Http_Err 500, s3)
                                       | None \<Rightarrow> (Json (P_Send (msg_id m) True), s3))))))))"

definition HistoryHandler :: "msg_env \<Rightarrow> (router, msg_payload) handler" where
  "HistoryHandler e w r s =
    (let f = me_fault e in
     case authenticate e (rt_db s) r of
       Inl _ \<Rightarrow> (unauthorized, s)
     | Inr u \<Rightarrow>
         (let q = rq_query r ''channel_id'' in
          if q = [] then (Http_Error 400 ''missing channel_id'', s)
          else
            (let (x, db1) = resolveRequestedChannel (at f C_Resolve) (rt_db s) u q;
                 s1 = set_db db1 s
             in case x of
                  Inl _ \<Rightarrow> (Http_Error 404 ''channel not found'', s1)
                | Inr ch \<Rightarrow>
                    (case authorizeChannelAccess (at f C_Authorize) (rt_db s1) u ch of
                       Some _ \<Rightarrow> (Http_Error 403 ''forbidden'', s1)
                     | None \<Rightarrow>
                         (case query (f [C_List]) (t_messages (rt_db s1)) of
                            Inl _ \<Rightarrow> (Http_Err 500, s1)
                          | Inr ms \<Rightarrow>
                              (Json (P_History (nil_if_empty (history_rows ch ms))), s1))))))"

definition ChannelsHandler :: "msg_env \<Rightarrow> (router, msg_payload) handler" where
  "ChannelsHandler e w r s =
    (if rq_method r \<noteq> ''GET'' then (Http_Error 405 ''Method not allowed'', s)
     else (case authenticate e (rt_db s) r of
             Inl _ \<Rightarrow> (unauthorized, s)
           | Inr u \<Rightarrow>
               (case listAccessibleChannels (at (me_fault e) C_List) (rt_db s) u of
                  Inl _ \<Rightarrow> (Http_Err 500, s)
                | Inr cs \<Rightarrow> (Json (P_Channels cs), s))))"

definition ChannelMembersHandler :: "msg_env \<Rightarrow> (router, msg_payload) handler" where
  "ChannelMembersHandler e w r s =
    (if rq_method r \<noteq> ''GET'' then (Http_Error 405 ''Method not allowed'', s)
     else (case authenticate e (rt_db s) r of
             Inl _ \<Rightarrow> (unauthorized, s)
           | Inr u \<Rightarrow>
               (let ch = rq_query r ''channel_id'' in
                if ch = [] then (Http_Error 400 ''missing channel_id'', s)
                else (case authorizeChannelAccess (at (me_fault e) C_Authorize) (rt_db s) u ch of
                        Some _ \<Rightarrow> (Http_Error 403 ''forbidden'', s)
                      | None \<Rightarrow>
                          (case listChannelMembers (at (me_fault e) C_List) (rt_db s) ch of
                             Inl _ \<Rightarrow> (Http_Err 500, s)
                           | Inr ms \<Rightarrow> (Json (P_Members ms), s))))))"

definition CreateDMHandler :: "msg_env \<Rightarrow> (router, msg_payload) handler" where
  "CreateDMHandler e w r s =
    (if rq_method r \<noteq> ''POST'' then (Http_Error 405 ''Method not allowed'', s)
     else (case authenticate e (rt_db s) r of
       Inl _ \<Rightarrow> (unauthorized, s)
     | Inr u \<Rightarrow>
         (case me_decode_dm e (rq_body r) of
            None \<Rightarrow> (Http_Error 400 ''invalid request'', s)
          | Some target \<Rightarrow>
              (if target = [] then (Http_Error 400 ''missing target_user_id'', s)
               else if target = u then (Http_Error 400 ''invalid target'', s)
               else (case userExists (at (me_fault e) C_UserExists) (rt_db s) target of
                       Inl _ \<Rightarrow> (Http_Err 500, s)
                     | Inr exists \<Rightarrow>
                         (if \<not> exists then (Http_Error 404 ''target user not found'', s)
                          else
                            (let (x, db1) = findOrCreateDMChannel (at (me_fault e) C_FindOrCreateDM)
                                              (rt_db s) u target;
                                 s1 = set_db db1 s
                             in case x of
                                  Inl _ \<Rightarrow> (Http_Err 500, s1)
                                | Inr i \<Rightarrow> (Json (P_DM i), s1))))))))"

definition msg_healthHandler :: "(router, msg_payload) handler" where
  "msg_healthHandler w r s = (Status_Json 200 (P_Text ''Messaging Service is running''), s)"

text \<open>\<open>HandleWS\<close> up to the start of the client's two loops; \<open>rt_next\<close> is the client's identity.\<close>

definition HandleWS ::
  "msg_env \<Rightarrow> (writer \<Rightarrow> request \<Rightarrow> nat option) \<Rightarrow> (router, msg_payload) handler" where
  "HandleWS e upgrade w r s =
    (case authenticate e (rt_db s) r of
       Inl _ \<Rightarrow> (unauthorized, s)
     | Inr u \<Rightarrow>
         (case upgrade w r of
            Some code \<Rightarrow> (Http_Err code, s)
          | None \<Rightarrow> (No_Write, snd (Register u s))))"

text \<open>One iteration of the read loop: the frame \<open>frame\<close> arrived on the client's connection.\<close>

definition ws_read :: "msg_env \<Rightarrow> string \<Rightarrow> string \<Rightarrow> router \<Rightarrow> router" where
  "ws_read e u frame s =
    (let f = me_fault e in
     case me_decode_frame e frame of
       None \<Rightarrow> s
     | Some q \<Rightarrow>
         (let (x, db1) = resolveRequestedChannel (at f C_Resolve) (rt_db s) u (sr_channel_id q);
              s1 = set_db db1 s
          in case x of
               Inl _ \<Rightarrow> s1
             | Inr ch \<Rightarrow>
                 (case authorizeChannelAccess (at f C_Authorize) (rt_db s1) u ch of
                    Some _ \<Rightarrow> s1
                  | None \<Rightarrow>
                      (let (y, db2) = SaveMessage (at f C_Save) (me_now e) (me_uuid e)
                                        (rt_db s1) q u ch;
                           s2 = set_db db2 s1
                       in case y of
                            Inl _ \<Rightarrow> s2
                          | Inr m \<Rightarrow> snd (Broadcast (at f C_Broadcast) m s2)))))"

end
