(* ===== verification/MessagingSystem.thy ===== *)
theory MessagingSystem
  imports MessagingHandlers
begin

section \<open>The messaging service under every interleaving\<close>

text \<open>
  The handlers, read loops and write loops of the service run concurrently.  \<open>router_step\<close> is one
  of the parts that run under the router's mutex, one channel receive, or one change of the shared
  database by any service.  Every handler is a sequence of such steps, so an invariant of the
  steps holds at every moment of every interleaving.  \<open>dm_step\<close> is one committed change of the
  shared database by the messaging, auth or presence service.
\<close>

inductive router_step :: "router \<Rightarrow> router \<Rightarrow> bool" where
  rs_register: "router_step s (snd (Register u s))"
| rs_unregister: "rt_heap s n \<noteq> None \<Longrightarrow> router_step s (Unregister n s)"
| rs_deliver: "router_step s (deliver m mt s)"
| rs_recv: "router_step s (snd (write_loop_recv n s))"
| rs_db: "router_step s (set_db db s)"

inductive router_reach :: "router \<Rightarrow> bool" where
  rr_init: "router_reach (NewMessageRouter db)"
| rr_step: "router_reach s \<Longrightarrow> router_step s t \<Longrightarrow> router_reach t"

lemma router_step_inv [inv_intros]: "router_step s t \<Longrightarrow> clients_inv s \<Longrightarrow> clients_inv t"
  by (induction rule: router_step.induct)
     (auto simp: set_db_def intro: clients_inv_Register clients_inv_Unregister
       clients_inv_deliver clients_inv_recv)

lemma router_reach_inv: "router_reach s \<Longrightarrow> clients_inv s"
  by (induction rule: router_reach.induct) (auto intro: clients_inv_new router_step_inv)

subsection \<open>Handlers are sequences of steps\<close>

abbreviation router_steps :: "router \<Rightarrow> router \<Rightarrow> bool" where
  "router_steps \<equiv> router_step\<^sup>*\<^sup>*"

lemma steps_db [intro, simp]: "router_steps s (set_db db s)"
  by (rule r_into_rtranclp) (rule rs_db)

lemma steps_Register [intro, simp]: "router_steps s (snd (Register u s))"
  by (rule r_into_rtranclp) (rule rs_register)

lemma steps_Broadcast [intro, simp]: "router_steps s (snd (Broadcast f m s))"
  by (auto simp: Broadcast_def split: sum.splits intro: r_into_rtranclp rs_deliver)

lemma steps_db_db [intro, simp]: "router_steps s (set_db db2 (set_db db1 s))"
  using steps_db [of s db1] steps_db [of "set_db db1 s" db2] by (rule rtranclp_trans)

lemma steps_db_db_Broadcast [intro, simp]:
  "router_steps s (snd (Broadcast f m (set_db db2 (set_db db1 s))))"
  using steps_db_db steps_Broadcast by (rule rtranclp_trans)

lemmas handler_defs = sendHandler_def HistoryHandler_def ChannelsHandler_def
  ChannelMembersHandler_def CreateDMHandler_def msg_healthHandler_def HandleWS_def ws_read_def

lemma snd_case_err:
  "snd (case x of None \<Rightarrow> (a, s) | Some y \<Rightarrow> (b, s)) = s"
  by (cases x) auto

lemma send_steps: "router_steps s (snd (sendHandler e w r s))"
proof -
  have B: "router_steps s s3" if "Broadcast f m (set_db db2 (set_db db1 s)) = (b, s3)" for f m db1 db2 b s3
    using steps_db_db_Broadcast [of s f m db2 db1] that by simp
  show ?thesis
    by (auto simp: sendHandler_def Let_def split: option.splits sum.splits prod.splits intro: B)
qed

lemma ws_read_steps: "router_steps s (ws_read e u fr s)"
  by (auto simp: ws_read_def Let_def split: option.splits sum.splits prod.splits)

lemma other_steps:
  "router_steps s (snd (HistoryHandler e w r s))"
  "router_steps s (snd (ChannelsHandler e w r s))"
  "router_steps s (snd (ChannelMembersHandler e w r s))"
  "router_steps s (snd (CreateDMHandler e w r s))"
  "router_steps s (snd (HandleWS e up w r s))"
  by (auto simp: handler_defs Let_def split: option.splits sum.splits prod.splits)

interpretation router_runs: step_invariant router_step router_reach
  by unfold_locales (rule rr_step)

lemma reach_steps: "router_steps s t \<Longrightarrow> router_reach s \<Longrightarrow> router_reach t"
  by (rule router_runs.steps)

subsection \<open>The database of direct messages\<close>

inductive dm_step :: "platform_db \<Rightarrow> platform_db \<Rightarrow> bool" where
  dm_create: "dm_transaction f db (dm_id a b) a b = Some db' \<Longrightarrow> colon_free a \<Longrightarrow> colon_free b \<Longrightarrow>
    dm_step db db'"
| dm_save: "SaveMessage f now uid db q u ch = (x, db') \<Longrightarrow> dm_step db db'"
| dm_start: "dm_step db (start_service sv db)"
| dm_other: "t_channels db' = t_channels db \<Longrightarrow> t_members db' = t_members db \<Longrightarrow> dm_step db db'"

inductive dm_reach :: "platform_db \<Rightarrow> bool" where
  dr_empty: "dm_reach empty_db"
| dr_step: "dm_reach db \<Longrightarrow> dm_step db db' \<Longrightarrow> dm_reach db'"

definition member_ids_plain :: "platform_db \<Rightarrow> bool" where
  [inv_simps]: "member_ids_plain db \<longleftrightarrow> (\<forall>m\<in>set (members_of db). colon_free (mem_user_id m))"

lemma start_channels:
  "channels_of (start_service sv db) = channels_of db"
  "members_of (start_service sv db) = members_of db"
  by (cases sv; auto simp: init_defs channels_of_def members_of_def create_def split: option.splits)+

lemma SaveMessage_tables:
  assumes "SaveMessage f now uid db q u ch = (x, db')"
  shows "t_channels db' = t_channels db" and "t_members db' = t_members db"
  using assms by (auto simp: SaveMessage_def Let_def split: option.splits)

lemma same_channels_inv:
  assumes "channels_of db' = channels_of db" and "members_of db' = members_of db"
  shows "chan_inv db' = chan_inv db" and "dm_private db' = dm_private db"
    and "member_ids_plain db' = member_ids_plain db"
  using assms by (simp_all add: inv_simps member_of_members)

lemma dm_step_inv:
  assumes "dm_step db db'" and "chan_inv db" and "dm_private db" and "member_ids_plain db"
  shows "chan_inv db' \<and> dm_private db' \<and> member_ids_plain db'"
  using assms
proof (cases rule: dm_step.cases)
  case (dm_create f a b)
  with dm_transaction_rows [OF dm_create(1)] have "member_ids_plain db'"
    using assms(4) by (auto simp: member_ids_plain_def members_of_def dm_member_def)
  with dm_create assms show ?thesis by (auto intro: inv_intros)
next
  case (dm_save f now uid q u ch x)
  then have "channels_of db' = channels_of db" "members_of db' = members_of db"
    using SaveMessage_tables [OF dm_save] by (simp_all add: channels_of_def members_of_def)
  with assms same_channels_inv show ?thesis by blast
next
  case (dm_start sv)
  with assms start_channels [of sv db] same_channels_inv [of db' db] show ?thesis by simp
next
  case dm_other
  then have "channels_of db' = channels_of db" "members_of db' = members_of db"
    by (simp_all add: channels_of_def members_of_def)
  with assms same_channels_inv show ?thesis by blast
qed

lemma dm_reach_inv: "dm_reach db \<Longrightarrow> chan_inv db \<and> dm_private db \<and> member_ids_plain db"
proof (induction rule: dm_reach.induct)
  case dr_empty
  show ?case by (simp add: inv_simps empty_db_def channels_of_def members_of_def)
next
  case (dr_step db db')
  with dm_step_inv show ?case by blast
qed

end
