(* ===== verification/MessagingExamples.thy ===== *)
theory MessagingExamples
  imports MessagingSystem
begin

section \<open>A concrete state of the messaging service\<close>

text \<open>Three users, one public channel and one connected client, and an environment whose token
  library accepts the user name as the token and whose decoder reads the body as the channel.  The
  theorems of the service are instantiated on them.\<close>

definition ex_user :: "string \<Rightarrow> string \<Rightarrow> user_row" where
  "ex_user i n = \<lparr>usr_id = i, usr_username = n, usr_full_name = None, usr_password_hash = [],
     usr_role_id = None, usr_department_id = None, usr_created_at = 0, usr_updated_at = 0\<rparr>"

definition ex_db :: platform_db where
  "ex_db = (start_all [Auth, Messaging] empty_db)
     \<lparr>t_users := Some [ex_user ''a'' ''alice'', ex_user ''b'' ''bob'', ex_user ''c'' ''carol''],
      t_channels := Some [\<lparr>ch_id = ''g'', ch_name = ''general'', ch_type = ''public'',
        ch_department_id = None, ch_created_at = None, ch_updated_at = None, ch_created_by = None\<rparr>]\<rparr>"

definition ex_env :: msg_env where
  "ex_env = \<lparr>me_jwt = (\<lambda>k t. Some (\<lparr>cl_username = t, cl_role = ''user''\<rparr>, True)),
     me_secret_var = [], me_fault = no_faults, me_now = 5 * second, me_uuid = ''m1'',
     me_decode_send = (\<lambda>b. Some \<lparr>sr_channel_id = b, sr_content = ''hi'', sr_nonce = [],
        sr_signature = [], sr_type = 0\<rparr>),
     me_decode_frame = (\<lambda>b. Some \<lparr>sr_channel_id = b, sr_content = ''hi'', sr_nonce = [],
        sr_signature = [], sr_type = 0\<rparr>),
     me_decode_dm = (\<lambda>b. Some b)\<rparr>"

definition ex_req :: "string \<Rightarrow> string \<Rightarrow> string \<Rightarrow> request" where
  "ex_req m tok body = \<lparr>rq_method = m, rq_path = ''/'',
     rq_header = (\<lambda>k. if k = ''Authorization'' then ''Bearer '' @ tok else []),
     rq_query = (\<lambda>k. if k = ''channel_id'' then body else []), rq_remote = ''10.0.0.1:5000'', rq_body = body\<rparr>"

definition ex_writer :: writer where "ex_writer = \<lparr>can_hijack = True\<rparr>"

definition ex_router :: router where
  "ex_router = snd (Register ''b'' (NewMessageRouter ex_db))"

lemma ex_router_inv: "clients_inv ex_router" "chan_inv (rt_db ex_router)"
proof -
  show "clients_inv ex_router"
    unfolding ex_router_def by (rule clients_inv_Register) (rule clients_inv_new)
  show "chan_inv (rt_db ex_router)" by code_simp
qed

end
