(* ===== verification/MessagingProps.thy ===== *)
theory MessagingProps
  imports MessagingExamples
begin

section \<open>Correctness of the messaging service\<close>

definition messages_of :: "platform_db \<Rightarrow> message list" where
  "messages_of db = (case t_messages db of None \<Rightarrow> [] | Some ms \<Rightarrow> ms)"

text \<open>The part of the router's state that no refused request may change.\<close>

definition same_delivery :: "router \<Rightarrow> router \<Rightarrow> bool" where
  "same_delivery s t \<longleftrightarrow>
    rt_clients t = rt_clients s \<and> rt_heap t = rt_heap s \<and> rt_next t = rt_next s \<and>
    rt_panicked t = rt_panicked s \<and> messages_of (rt_db t) = messages_of (rt_db s) \<and>
    t_users (rt_db t) = t_users (rt_db s)"

text \<open>What a client's queue is after a message for channel \<open>ch\<close> was broadcast.\<close>

definition after_broadcast :: "platform_db \<Rightarrow> message \<Rightarrow> client \<Rightarrow> client" where
  "after_broadcast db m c =
    (if \<not> cl_closed c \<and> may_access db (cl_user c) (msg_channel_id m) \<and>
        length (cl_queue c) < sendBufferSize
     then c\<lparr>cl_queue := cl_queue c @ [m]\<rparr> else c)"

subsection \<open>Auxiliary facts\<close>

lemma access_messages [simp]:
  "member_of (db\<lparr>t_messages := ms\<rparr>) ch u = member_of db ch u"
  "channel_type (db\<lparr>t_messages := ms\<rparr>) ch = channel_type db ch"
  by (simp_all add: channel_type_def member_of_def)

lemma may_access_messages [simp]:
  "may_access (db\<lparr>t_messages := ms\<rparr>) u ch = may_access db u ch"
  by (simp add: may_access_def split: option.splits)

lemma chan_inv_messages [simp]: "chan_inv (db\<lparr>t_messages := ms\<rparr>) = chan_inv db"
  by (simp add: chan_inv_def channels_of_def members_of_def)

lemma SaveMessage_Inr:
  assumes "SaveMessage f now uid db q u ch = (Inr m, db')"
  shows "msg_id m = uid \<and> msg_channel_id m = ch \<and> msg_sender_id m = u \<and>
    msg_content m = sr_content q \<and> msg_type m = sr_type q \<and>
    (\<exists>ms. t_messages db = Some ms \<and> uid \<notin> msg_id ` set ms \<and>
      db' = db\<lparr>t_messages := Some (ms @ [m])\<rparr>)"
proof -
  obtain t where t: "exec_insert (f []) ins_message m (t_messages db) = Some t"
      "db' = db\<lparr>t_messages := t\<rparr>" and m: "msg_id m = uid" "msg_channel_id m = ch"
      "msg_sender_id m = u" "msg_content m = sr_content q" "msg_type m = sr_type q"
    using assms by (auto simp: SaveMessage_def Let_def split: option.splits)
  from messages_tbl.insertD [OF t(1)] t(2) m show ?thesis by auto
qed

lemma SaveMessage_Inl: "SaveMessage f now uid db q u ch = (Inl e, db') \<Longrightarrow> db' = db"
  by (auto simp: SaveMessage_def Let_def split: option.splits)

lemma resolve_tables:
  assumes "resolveRequestedChannel f db u q = (x, db')"
  shows "t_messages db' = t_messages db" and "t_users db' = t_users db"
    and "chan_inv db \<Longrightarrow> chan_inv db'"
  using resolve_db [OF assms] dm_transaction_rows by (fastforce intro: inv_intros)+

lemma clients_inv_set_db [simp]: "clients_inv (set_db db s) = clients_inv s"
  by (simp add: set_db_def)

lemma set_db_simps [simp]:
  "rt_db (set_db db s) = db" "rt_heap (set_db db s) = rt_heap s"
  "rt_clients (set_db db s) = rt_clients s" "rt_next (set_db db s) = rt_next s"
  "rt_panicked (set_db db s) = rt_panicked s"
  by (simp_all add: set_db_def)

text \<open>What the steps of a successful \<open>/send\<close> were.\<close>

lemma send_Json_cases:
  assumes "sendHandler e w r s = (Json p, s')"
  obtains q u ch db1 m db2 where
    "rq_method r = ''POST''" "me_decode_send e (rq_body r) = Some q"
    "authenticate e (rt_db s) r = Inr u"
    "resolveRequestedChannel (at (me_fault e) C_Resolve) (rt_db s) u (sr_channel_id q) = (Inr ch, db1)"
    "authorizeChannelAccess (at (me_fault e) C_Authorize) db1 u ch = None"
    "SaveMessage (at (me_fault e) C_Save) (me_now e) (me_uuid e) db1 q u ch = (Inr m, db2)"
    "Broadcast (at (me_fault e) C_Broadcast) m (set_db db2 (set_db db1 s)) = (None, s')"
    "p = P_Send (msg_id m) True"
  using assms
  by (auto simp: sendHandler_def unauthorized_def Let_def split: if_splits option.splits sum.splits prod.splits)

lemma bearerToken_user_header: "bearerToken (set_header ''X-User-ID'' x r) = bearerToken r"
  by (simp add: bearerToken_def set_header_def Let_def)

lemma user_header_simps:
  "rq_method (set_header k x r) = rq_method r" "rq_body (set_header k x r) = rq_body r"
  "authenticate e db (set_header ''X-User-ID'' x r) = authenticate e db r"
  by (simp_all add: authenticate_def bearerToken_user_header) (simp_all add: set_header_def)

subsection \<open>Sending\<close>

lemma sent_effect:
  assumes "clients_inv s" and "chan_inv (rt_db s)"
    and "sendHandler e w r s = (Json p, s')"
  shows "\<exists>u m. authenticate e (rt_db s) r = Inr u \<and> msg_sender_id m = u \<and>
    p = P_Send (msg_id m) True \<and>
    messages_of (rt_db s') = messages_of (rt_db s) @ [m] \<and>
    msg_id m \<notin> msg_id ` set (messages_of (rt_db s)) \<and>
    may_access (rt_db s') u (msg_channel_id m) \<and>
    (\<forall>n. rt_heap s' n = map_option (after_broadcast (rt_db s') m) (rt_heap s n))"
proof -
  from assms(3) obtain q u ch db1 m db2 where
    r: "resolveRequestedChannel (at (me_fault e) C_Resolve) (rt_db s) u (sr_channel_id q) = (Inr ch, db1)"
    and a: "authenticate e (rt_db s) r = Inr u" "p = P_Send (msg_id m) True"
      "authorizeChannelAccess (at (me_fault e) C_Authorize) db1 u ch = None"
    and sv: "SaveMessage (at (me_fault e) C_Save) (me_now e) (me_uuid e) db1 q u ch = (Inr m, db2)"
    and b: "Broadcast (at (me_fault e) C_Broadcast) m (set_db db2 (set_db db1 s)) = (None, s')"
    by (rule send_Json_cases)
  let ?s2 = "set_db db2 (set_db db1 s)"
  note m = SaveMessage_Inr [OF sv] and t = resolve_tables [OF r]
  have db': "rt_db s' = db2" using b Broadcast_db [of "at (me_fault e) C_Broadcast" m ?s2] by simp
  have acc: "may_access db2 u (msg_channel_id m)"
    using a(3) m by (auto simp: authorize_grants_iff)
  have inv: "clients_inv ?s2" "chan_inv (rt_db ?s2)"
    using assms(1) m t(3) [OF assms(2)] by auto
  have "rt_heap s' n = map_option (after_broadcast (rt_db s') m) (rt_heap s n)" for n
  proof (cases "rt_heap s n")
    case (Some c)
    then have "rt_heap ?s2 n = Some c" by simp
    from Broadcast_queue [OF inv b this] Some show ?thesis
      by (simp add: after_broadcast_def db')
  next
    case None
    then have "rt_heap (deliver m mt ?s2) n = None" for mt by (simp add: deliver_unknown)
    with b None show ?thesis by (auto simp: Broadcast_def split: sum.splits)
  qed
  moreover have "messages_of (rt_db s') = messages_of (rt_db s) @ [m]"
    "msg_id m \<notin> msg_id ` set (messages_of (rt_db s))"
    using m t(1) by (auto simp: messages_of_def db')
  ultimately show ?thesis using a m acc db' by auto
qed



text \<open>A \<open>/send\<close> that is refused (wrong method, bad body, no valid token, unknown channel, no
  access) stores no message, queues none and disconnects nobody.\<close>

theorem send_refused:
  assumes "sendHandler e w r s = (rep, s')" and "status_of rep \<in> {400, 401, 403, 404, 405}"
  shows "same_delivery s s'"
proof -
  have same: "same_delivery s (set_db db1 s)"
    if "resolveRequestedChannel f (rt_db s) u q = (x, db1)" for f u q x db1
    using resolve_tables(1,2) [OF that] by (simp add: same_delivery_def messages_of_def)
  show ?thesis
    using assms
    by (auto simp: sendHandler_def unauthorized_def Let_def split: if_splits option.splits sum.splits prod.splits
        intro: same)
       (simp_all add: same_delivery_def)
qed

theorem send_refused_witness:
  "same_delivery ex_router
    (snd (sendHandler ex_env ex_writer (ex_req ''POST'' ''alice'' ''nowhere'') ex_router))"
proof -
  let ?h = "sendHandler ex_env ex_writer (ex_req ''POST'' ''alice'' ''nowhere'') ex_router"
  have "status_of (fst ?h) = 404" by code_simp
  then have "status_of (fst ?h) \<in> {400, 401, 403, 404, 405}" by simp
  then show ?thesis by (intro send_refused [of _ _ _ _ "fst ?h"]) simp_all
qed

text \<open>The sender of a message is taken from the token only: a client that sets the header
  \<open>X-User-ID\<close> to another user's identifier gets the same answer and the same effect.\<close>

theorem sender_header_ignored:
  "sendHandler e w (set_header ''X-User-ID'' x r) s = sendHandler e w r s"
  unfolding sendHandler_def user_header_simps by (rule refl)

subsection \<open>Safety under every interleaving\<close>

text \<open>C2: At every moment of every interleaving of handlers, read loops, write loops and other
  services' database changes: no goroutine has panicked (no send on a closed channel, no double
  close), no client waits with more than 256 messages, and a client's channel is open exactly
  while the client is registered; and every handler again leads to such a moment.\<close>

theorem router_safe:
  assumes "router_reach s"
  shows "\<not> rt_panicked s \<and>
    (\<forall>n. case rt_heap s n of
       None \<Rightarrow> True
     | Some c \<Rightarrow> length (cl_queue c) \<le> 256 \<and>
         (cl_closed c \<longleftrightarrow> n \<notin> set (conns_of s (cl_user c)))) \<and>
    router_reach (snd (sendHandler e w r s)) \<and> router_reach (snd (HistoryHandler e w r s)) \<and>
    router_reach (snd (CreateDMHandler e w r s)) \<and> router_reach (snd (HandleWS e up w r s)) \<and>
    router_reach (ws_read e u fr s)"
  using router_reach_inv [OF assms] clients_invD(6-8) [OF router_reach_inv [OF assms]]
    reach_steps [OF _ assms] send_steps other_steps ws_read_steps
  by (auto simp: sendBufferSize_def split: option.splits)

theorem router_safe_witness:
  "let s = Unregister 0 (snd (Register ''u'' (snd (Register ''u'' (NewMessageRouter empty_db)))))
   in \<not> rt_panicked s \<and> conns_of s ''u'' = [1]"
proof -
  let ?s = "snd (Register ''u'' (snd (Register ''u'' (NewMessageRouter empty_db))))"
  have known: "rt_heap ?s 0 \<noteq> None" by (simp add: Register_def Let_def NewMessageRouter_def)
  have "router_reach (Unregister 0 ?s)"
    using rr_step [OF rr_step [OF rr_step [OF rr_init rs_register] rs_register] rs_unregister [OF known]] .
  from router_safe [OF this]
  have "\<not> rt_panicked (Unregister 0 ?s)" by blast
  moreover have "conns_of (Unregister 0 ?s) ''u'' = [1]" by code_simp
  ultimately show ?thesis by (simp add: Let_def)
qed

subsection \<open>Reading\<close>

lemma resolve_result:
  assumes "resolveRequestedChannel f db u q = (Inr ch, db')"
  shows "ch = q \<or> ch = dm_id u q"
  using assms
  by (auto simp: resolveRequestedChannel_def split: if_splits sum.splits
      dest: findOrCreate_success [THEN conjunct1])

lemma history_Json_cases:
  assumes "HistoryHandler e w r s = (Json p, s')"
  obtains u ch where "authenticate e (rt_db s) r = Inr u"
    "ch = rq_query r ''channel_id'' \<or> ch = dm_id u (rq_query r ''channel_id'')"
    "may_access (rt_db s') u ch"
    "p = P_History (nil_if_empty (history_rows ch (messages_of (rt_db s))))"
proof -
  let ?q = "rq_query r ''channel_id''" and ?f = "at (me_fault e) C_Resolve"
  obtain u ch db1 ms where
    u: "authenticate e (rt_db s) r = Inr u" and
    r: "resolveRequestedChannel ?f (rt_db s) u ?q = (Inr ch, db1)" and
    a: "authorizeChannelAccess (at (me_fault e) C_Authorize) db1 u ch = None" and
    ms: "query (me_fault e [C_List]) (t_messages db1) = Inr ms" and
    p: "p = P_History (nil_if_empty (history_rows ch ms))" "s' = set_db db1 s"
    using assms
    by (auto simp: HistoryHandler_def unauthorized_def Let_def
        split: if_splits option.splits sum.splits prod.splits)
  have "messages_of (rt_db s) = ms"
    using ms resolve_tables(1) [OF r] by (auto simp: query_def messages_of_def split: if_splits option.splits)
  moreover have "may_access (rt_db s') u ch" using a p by (simp add: authorize_grants_iff)
  ultimately show ?thesis using that u p(1) resolve_result [OF r] by blast
qed

text \<open>C26: A 200 answer of \<open>/history\<close> lists messages of one channel the authenticated user has
  access to, in time order, at most 100 of them, and all of them when there are at most 100.\<close>

theorem history_authorised:
  assumes "HistoryHandler e w r s = (Json p, s')"
  shows "\<exists>u ch l. authenticate e (rt_db s) r = Inr u \<and> p = P_History (nil_if_empty l) \<and>
    (ch = rq_query r ''channel_id'' \<or> ch = dm_id u (rq_query r ''channel_id'')) \<and>
    may_access (rt_db s') u ch \<and> sorted (map msg_timestamp l) \<and>
    length l = min 100 (length (filter (\<lambda>m. msg_channel_id m = ch) (messages_of (rt_db s)))) \<and>
    set l \<subseteq> {m \<in> set (messages_of (rt_db s)). msg_channel_id m = ch} \<and>
    (length (filter (\<lambda>m. msg_channel_id m = ch) (messages_of (rt_db s))) \<le> 100 \<longrightarrow>
      set l = {m \<in> set (messages_of (rt_db s)). msg_channel_id m = ch})"
  using assms
proof (rule history_Json_cases)
  fix u ch
  let ?l = "history_rows ch (messages_of (rt_db s))"
  assume "authenticate e (rt_db s) r = Inr u" "may_access (rt_db s') u ch"
    "ch = rq_query r ''channel_id'' \<or> ch = dm_id u (rq_query r ''channel_id'')"
    "p = P_History (nil_if_empty ?l)"
  then show ?thesis
    using history_rows_set [of ch] history_rows_sorted [of ch] history_rows_length [of ch]
      history_rows_complete [of ch "messages_of (rt_db s)"]
    by (intro exI [of _ u] exI [of _ ch] exI [of _ ?l]) blast
qed

theorem history_authorised_witness:
  "\<exists>ch. ch = ''g'' \<and> may_access (rt_db
    (snd (HistoryHandler ex_env ex_writer (ex_req ''GET'' ''alice'' ''g'') ex_router))) ''a'' ch"
proof -
  let ?r = "ex_req ''GET'' ''alice'' ''g''"
  let ?h = "HistoryHandler ex_env ex_writer ?r ex_router"
  have "fst ?h = Json (P_History None)" by code_simp
  then have "?h = (Json (P_History None), snd ?h)" by (simp add: prod_eq_iff)
  from history_authorised [OF this] obtain u ch where
    h: "authenticate ex_env (rt_db ex_router) ?r = Inr u" "ch = ''g'' \<or> ch = dm_id u ''g''"
      "may_access (rt_db (snd ?h)) u ch"
    by (auto simp: ex_req_def)
  moreover have "authenticate ex_env (rt_db ex_router) ?r = Inr ''a''" by code_simp
  moreover have "\<not> may_access (rt_db (snd ?h)) ''a'' (dm_id ''a'' ''g'')" by code_simp
  ultimately show ?thesis by auto
qed

text \<open>Once a channel holds 100 messages, no message with a later timestamp is ever shown by
  \<open>/history\<close>: the query takes the first 100 in ascending order, not the latest.\<close>

theorem history_hides_recent:
  assumes "HistoryHandler e w r s = (Json (P_History (Some l)), s')"
    and "100 \<le> length (filter (\<lambda>x. msg_channel_id x = msg_channel_id m \<and>
              msg_timestamp x < msg_timestamp m) (messages_of (rt_db s)))"
  shows "m \<notin> set l"
  using assms(1)
proof (rule history_Json_cases)
  fix u ch
  assume "P_History (Some l) = P_History (nil_if_empty (history_rows ch (messages_of (rt_db s))))"
  then have l: "l = history_rows ch (messages_of (rt_db s))"
    by (auto simp: nil_if_empty_def split: if_splits)
  show "m \<notin> set l"
    using history_drops_recent [of ch m] history_rows_set [of ch "messages_of (rt_db s)"] assms(2) l
    by (cases "msg_channel_id m = ch") auto
qed

definition ex_message :: "nat \<Rightarrow> message" where
  "ex_message n = \<lparr>msg_id = [char_of n], msg_channel_id = ''g'', msg_sender_id = ''a'',
     msg_timestamp = (if n = 100 then 1 else 0), msg_type = 0, msg_content = [], msg_nonce = [], msg_signature = []\<rparr>"

definition ex_full :: router where
  "ex_full = set_db (ex_db\<lparr>t_messages := Some (map ex_message [0..<101])\<rparr>) ex_router"

theorem history_hides_recent_witness:
  "case fst (HistoryHandler ex_env ex_writer (ex_req ''GET'' ''alice'' ''g'') ex_full) of
     Json (P_History (Some l)) \<Rightarrow> ex_message 100 \<notin> set l
   | _ \<Rightarrow> False"
proof -
  let ?h = "HistoryHandler ex_env ex_writer (ex_req ''GET'' ''alice'' ''g'') ex_full"
  have "case fst ?h of Json (P_History (Some l)) \<Rightarrow> True | _ \<Rightarrow> False" by code_simp
  then obtain l where l: "fst ?h = Json (P_History (Some l))"
    by (auto split: reply.splits msg_payload.splits option.splits)
  then have h: "?h = (Json (P_History (Some l)), snd ?h)" by (simp add: prod_eq_iff)
  have "100 \<le> length (filter (\<lambda>x. msg_channel_id x = msg_channel_id (ex_message 100) \<and>
      msg_timestamp x < msg_timestamp (ex_message 100)) (messages_of (rt_db ex_full)))"
    by code_simp
  from history_hides_recent [OF h this] l show ?thesis by simp
qed

end
