(* ===== verification/MessagingChannels.thy ===== *)
theory MessagingChannels
  imports MessagingExamples
begin

section \<open>Correctness of channel listings, direct messages and the WebSocket route\<close>

text \<open>
  Agreement of the two access rules of the service (the list query and the check before every
  use), who may use a direct-message channel in every reachable database, what the first contact
  of two users does, and what becomes of the WebSocket route behind the tracing middleware.
\<close>

subsection \<open>Channel lists\<close>

lemma left_join_rows:
  "(c, mo) \<in> set (left_join_members cs ms) \<longleftrightarrow>
    c \<in> set cs \<and>
    (case mo of
       None \<Rightarrow> \<forall>m\<in>set ms. mem_channel_id m \<noteq> ch_id c
     | Some m \<Rightarrow> m \<in> set ms \<and> mem_channel_id m = ch_id c)"
  (is "?L \<longleftrightarrow> ?R")
proof
  show "?L \<Longrightarrow> ?R"
  proof -
    assume ?L
    then obtain d where d: "d \<in> set cs" "(c, mo) \<in> set (case filter (\<lambda>m. ch_id d = mem_channel_id m) ms of
        [] \<Rightarrow> [(d, None)] | js \<Rightarrow> map (\<lambda>m. (d, Some m)) js)"
      by (auto simp: left_join_members_def)
    show ?R
    proof (cases "filter (\<lambda>m. ch_id d = mem_channel_id m) ms")
      case Nil
      with d show ?thesis by (auto simp: filter_empty_conv)
    next
      case (Cons j js)
      then have "x \<in> set ms \<and> mem_channel_id x = ch_id d" if "x \<in> set (j # js)" for x
        using that unfolding Cons [symmetric] by simp
      with d Cons show ?thesis by auto
    qed
  qed
  assume r: ?R
  show ?L
  proof (cases mo)
    case None
    with r have "filter (\<lambda>m. ch_id c = mem_channel_id m) ms = []" by (auto simp: filter_empty_conv)
    with r None show ?thesis by (force simp: left_join_members_def)
  next
    case (Some m)
    with r have "m \<in> set (filter (\<lambda>m. ch_id c = mem_channel_id m) ms)" by simp
    then obtain x xs where xs: "filter (\<lambda>m. ch_id c = mem_channel_id m) ms = x # xs" "m \<in> set (x # xs)"
      by (cases "filter (\<lambda>m. ch_id c = mem_channel_id m) ms") auto
    with r Some show ?thesis
      by (force simp: left_join_members_def intro!: bexI [of _ c])
  qed
qed

lemma may_access_row:
  assumes "chan_inv db" and "c \<in> set (channels_of db)"
  shows "may_access db u (ch_id c) \<longleftrightarrow>
    ch_type c = ''public'' \<or> (\<exists>m\<in>set (members_of db). mem_channel_id m = ch_id c \<and> mem_user_id m = u)"
proof -
  have "find (\<lambda>x. ch_id x = ch_id c) (channels_of db) = Some c"
    using assms by (intro find_key_unique) (simp_all add: chan_inv_def)
  then have "channel_type db (ch_id c) = Some (ch_type c)"
    by (simp add: channel_type_channels)
  then show ?thesis
    by (fastforce simp: may_access_def member_of_members mem_key_def image_iff)
qed

text \<open>C25: The channels that \<open>/channels\<close> lists for a user are exactly those for which
  \<open>authorizeChannelAccess\<close> lets the user read and write, each once and ordered by name.\<close>

theorem listing_agrees_with_authorisation:
  assumes "chan_inv db" and "listAccessibleChannels f db u = Inr vs"
  shows "set vs = {view_of c |c. c \<in> set (channels_of db) \<and>
            authorizeChannelAccess no_faults db u (ch_id c) = None}
    \<and> distinct vs \<and> sorted (map (\<lambda>(i, n, t). n) vs)"
proof -
  obtain cs ms where t: "t_channels db = Some cs" "t_members db = Some ms" and
    vs: "vs = sort_key (\<lambda>(i, n, t). n) (remdups (map (\<lambda>(c, m). view_of c)
           (filter (\<lambda>(c, m). ch_type c = ''public'' \<or> map_option mem_user_id m = Some u)
             (left_join_members cs ms))))"
    using assms(2)
    by (auto simp: listAccessibleChannels_def query_def split: if_splits option.splits sum.splits)
  have of: "channels_of db = cs" "members_of db = ms" using t by (simp_all add: channels_of_def members_of_def)
  have auth: "authorizeChannelAccess no_faults db u (ch_id c) = None \<longleftrightarrow>
      ch_type c = ''public'' \<or> (\<exists>m\<in>set ms. mem_channel_id m = ch_id c \<and> mem_user_id m = u)"
    if "c \<in> set cs" for c
    using may_access_row [OF assms(1), of c u] that by (simp add: authorize_grants_iff of)
  have row: "(\<exists>mo. (c, mo) \<in> set (left_join_members cs ms) \<and>
        (ch_type c = ''public'' \<or> map_option mem_user_id mo = Some u)) \<longleftrightarrow>
      c \<in> set cs \<and> authorizeChannelAccess no_faults db u (ch_id c) = None" for c
  proof -
    have "\<exists>mo. (c, mo) \<in> set (left_join_members cs ms)" if "c \<in> set cs"
    proof (cases "\<exists>m\<in>set ms. mem_channel_id m = ch_id c")
      case True
      then obtain m where "m \<in> set ms" "mem_channel_id m = ch_id c" by blast
      with that have "(c, Some m) \<in> set (left_join_members cs ms)" by (simp add: left_join_rows)
      then show ?thesis ..
    next
      case False
      with that have "(c, None) \<in> set (left_join_members cs ms)" by (simp add: left_join_rows)
      then show ?thesis ..
    qed
    with auth [of c] show ?thesis by (auto simp: left_join_rows split: option.splits)
  qed
  have "set vs = view_of ` {c. \<exists>mo. (c, mo) \<in> set (left_join_members cs ms) \<and>
      (ch_type c = ''public'' \<or> map_option mem_user_id mo = Some u)}"
    by (force simp: vs)
  then have "set vs = view_of ` {c. c \<in> set cs \<and> authorizeChannelAccess no_faults db u (ch_id c) = None}"
    unfolding row .
  moreover have "distinct vs" "sorted (map (\<lambda>(i, n, t). n) vs)" by (simp_all add: vs)
  ultimately show ?thesis by (simp add: of image_Collect)
qed

theorem listing_agrees_with_authorisation_witness:
  "\<exists>vs. listAccessibleChannels no_faults ex_db ''a'' = Inr vs \<and>
    set vs = {view_of c |c. c \<in> set (channels_of ex_db) \<and>
      authorizeChannelAccess no_faults ex_db ''a'' (ch_id c) = None}"
proof -
  have "chan_inv ex_db" by code_simp
  moreover have l: "listAccessibleChannels no_faults ex_db ''a'' = Inr [(''g'', ''general'', ''public'')]"
    by code_simp
  ultimately show ?thesis using listing_agrees_with_authorisation by blast
qed

subsection \<open>Direct messages\<close>


definition ex_dm_db :: platform_db where
  "ex_dm_db = snd (findOrCreateDMChannel no_faults (messaging_initDB empty_db) ''a'' ''b'')"


lemma findOrCreate_new:
  assumes "channel_type db (dm_id u v) = None" and "chan_ddl db = DDL_Messaging"
    and "t_channels db = Some cs" and "t_members db = Some ms" and "chan_inv db" and "u \<noteq> v"
  shows "findOrCreateDMChannel no_faults db u v =
    (Inr (dm_id u v), db\<lparr>t_channels := Some (cs @ [dm_channel (dm_id u v)]),
       t_members := Some (ms @ [dm_member DDL_Messaging (dm_id u v) u,
                                dm_member DDL_Messaging (dm_id u v) v])\<rparr>)"
proof -
  have no: "\<forall>c\<in>set cs. ch_id c \<noteq> dm_id u v" using assms(1,3) by (simp add: channel_type_None)
  then have "(dm_id u v, w) \<notin> mem_key ` set ms" for w
    using assms(3,4,5) by (force simp: chan_inv_def channels_of_def members_of_def mem_key_def)
  then have "dm_transaction no_faults db (dm_id u v) u v =
      Some (db\<lparr>t_channels := Some (cs @ [dm_channel (dm_id u v)]),
         t_members := Some (ms @ [dm_member DDL_Messaging (dm_id u v) u,
                                  dm_member DDL_Messaging (dm_id u v) v])\<rparr>)"
    using no assms(6) by (intro dm_transaction_runs [OF assms(2,3,4)]) auto
  with no assms(3) show ?thesis
    by (auto simp: findOrCreateDMChannel_def query_exists_def query_def list_ex_iff Let_def)
qed

lemma findOrCreate_old:
  "channel_type db (dm_id u v) \<noteq> None \<Longrightarrow> findOrCreateDMChannel no_faults db u v = (Inr (dm_id u v), db)"
  by (auto simp: findOrCreateDMChannel_def query_exists_def query_def channel_type_None list_ex_iff Let_def)

lemma resolve_user:
  assumes "channel_type db v = None" and "t_channels db \<noteq> None" and "v \<noteq> []" and "v \<noteq> u"
    and "t_users db = Some us" and "v \<in> usr_id ` set us"
  shows "resolveRequestedChannel no_faults db u v = findOrCreateDMChannel no_faults db u v"
proof -
  have "getChannelType no_faults db v = Inl ErrChannelMissing"
    using assms(1,2) by (auto simp: getChannelType_missing channel_type_None)
  moreover have "userExists no_faults db v = Inr True"
    using assms(5,6) by (auto simp: userExists_def lift_db_def query_exists_def query_def list_ex_iff)
  ultimately show ?thesis using assms(3,4) by (simp add: resolveRequestedChannel_def)
qed

text \<open>Where the messaging service created the tables, the first message of a user to another
  user, addressed by the user's identifier, opens one direct-message channel for exactly the two;
  when the other answers by the first user's identifier, the answer goes to the same channel and
  nothing is created.\<close>

theorem dm_first_contact:
  assumes "chan_inv db" and "chan_ddl db = DDL_Messaging"
    and "t_channels db = Some cs" and "t_members db = Some ms" and "t_users db = Some us"
    and "u \<in> usr_id ` set us" and "v \<in> usr_id ` set us" and "u \<noteq> v" and "u \<noteq> []" and "v \<noteq> []"
    and "\<forall>i\<in>{u, v, dm_id u v}. channel_type db i = None" and "u \<noteq> dm_id u v"
  shows "\<exists>db'. resolveRequestedChannel no_faults db u v = (Inr (dm_id u v), db') \<and>
    (\<forall>x. may_access db' x (dm_id u v) \<longleftrightarrow> x \<in> {u, v}) \<and>
    (\<forall>i x. i \<noteq> dm_id u v \<longrightarrow> may_access db' x i = may_access db x i) \<and>
    resolveRequestedChannel no_faults db' v u = (Inr (dm_id u v), db')"
proof -
  let ?i = "dm_id u v"
  let ?db = "db\<lparr>t_channels := Some (cs @ [dm_channel ?i]),
       t_members := Some (ms @ [dm_member DDL_Messaging ?i u, dm_member DDL_Messaging ?i v])\<rparr>"
  have none: "channel_type db u = None" "channel_type db v = None" "channel_type db ?i = None"
    using assms(11) by simp_all
  have first: "resolveRequestedChannel no_faults db u v = (Inr ?i, ?db)"
    using resolve_user [of db v u us] findOrCreate_new [of db u v cs ms] assms none by simp
  have ty: "channel_type ?db i = (if i = ?i then Some ''dm'' else channel_type db i)" for i
  proof -
    have "ch_id (dm_channel ?i) \<notin> ch_id ` set cs"
      using none(3) assms(3) by (auto simp: channel_type_None dm_channel_def)
    from channels_tbl.find_snoc_fresh [OF this, of i] assms(3) show ?thesis
      by (simp add: channel_type_def) (simp add: dm_channel_def)
  qed
  have mem: "member_of ?db i x \<longleftrightarrow> member_of db i x \<or> (i = ?i \<and> x \<in> {u, v})" for i x
    using assms(4) by (auto simp: member_of_def dm_member_def)
  have "\<not> member_of db ?i x" for x
    using assms(1,3,4) none(3)
    by (force simp: chan_inv_def member_of_members members_of_def channels_of_def mem_key_def
        channel_type_None)
  then have access: "may_access ?db x ?i \<longleftrightarrow> x \<in> {u, v}" for x
    using ty [of ?i] mem [of ?i x] by (simp add: may_access_def)
  have other: "may_access ?db x i = may_access db x i" if "i \<noteq> ?i" for i x
    unfolding may_access_def using that ty [of i] mem [of i x] by (auto split: option.splits)
  have second: "resolveRequestedChannel no_faults ?db v u = (Inr ?i, ?db)"
    using resolve_user [of ?db u v us] findOrCreate_old [of ?db v u] ty [of ?i] ty [of u] assms none
    by (simp add: dm_id_sym [of v u])
  show ?thesis using first access other second by (intro exI [of _ ?db]) simp
qed

theorem dm_first_contact_witness:
  "\<exists>db'. resolveRequestedChannel no_faults ex_db ''a'' ''b'' = (Inr ''dm:a:b'', db') \<and>
    resolveRequestedChannel no_faults db' ''b'' ''a'' = (Inr ''dm:a:b'', db')"
proof -
  have "chan_inv ex_db" "dm_id ''a'' ''b'' = ''dm:a:b''" "chan_ddl ex_db = DDL_Messaging" by code_simp+
  moreover have "t_channels ex_db = Some (channels_of ex_db)" "t_members ex_db = Some []"
    "t_users ex_db = Some [ex_user ''a'' ''alice'', ex_user ''b'' ''bob'', ex_user ''c'' ''carol'']"
    by (simp_all add: ex_db_def channels_of_def start_all_def init_defs empty_db_def create_def)
  moreover have "\<forall>i\<in>{''a'', ''b'', ''dm:a:b''}. channel_type ex_db i = None" by code_simp
  ultimately show ?thesis
    using dm_first_contact [of ex_db "channels_of ex_db" "[]" "[ex_user ''a'' ''alice'',
        ex_user ''b'' ''bob'', ex_user ''c'' ''carol'']" "''a''" "''b''"]
    by (auto simp: ex_user_def)
qed

subsection \<open>The WebSocket route\<close>

text \<open>What the WebSocket library documents: an upgrade needs a writer that can be hijacked.\<close>

definition upgrade_needs_hijacker :: "(writer \<Rightarrow> request \<Rightarrow> nat option) \<Rightarrow> bool" where
  "upgrade_needs_hijacker up \<longleftrightarrow> (\<forall>w r. up w r = None \<longrightarrow> can_hijack w)"

text \<open>C38: Behind \<open>withRequestTrace\<close> the route \<open>/ws\<close> never connects a client: the status recorder
  it passes on does not implement \<open>http.Hijacker\<close>, so every upgrade fails and the router's state
  is unchanged, whatever the server's own writer can do.\<close>

theorem traced_ws_never_connects:
  assumes "upgrade_needs_hijacker up"
  shows "snd (messaging_withRequestTrace ''ws'' (HandleWS e up) env w r s) = s"
proof -
  have "snd (HandleWS e up (statusRecorder w) q s) = s" for q
    using assms
    by (auto simp: HandleWS_def upgrade_needs_hijacker_def statusRecorder_def split: sum.splits option.splits)
  then show ?thesis
    by (auto simp: messaging_withRequestTrace_def plain_trace_def Let_def split: prod.splits)
       (metis snd_conv)
qed

definition ex_upgrade :: "writer \<Rightarrow> request \<Rightarrow> nat option" where
  "ex_upgrade w r = (if can_hijack w then None else Some 500)"

definition ex_trace :: trace_env where
  "ex_trace = \<lparr>te_start = 0, te_allow = 0, te_end = second, te_rnd = None, te_fallback = ''id''\<rparr>"

theorem traced_ws_never_connects_witness:
  "snd (messaging_withRequestTrace ''ws'' (HandleWS ex_env ex_upgrade) ex_trace ex_writer
      (ex_req ''GET'' ''alice'' []) ex_router) = ex_router \<and>
   rt_next (snd (HandleWS ex_env ex_upgrade ex_writer (ex_req ''GET'' ''alice'' []) ex_router))
      = Suc (rt_next ex_router)"
proof -
  have up: "upgrade_needs_hijacker ex_upgrade"
    by (simp add: upgrade_needs_hijacker_def ex_upgrade_def)
  have "rt_next (snd (HandleWS ex_env ex_upgrade ex_writer (ex_req ''GET'' ''alice'' []) ex_router))
      = Suc (rt_next ex_router)"
    by code_simp
  with traced_ws_never_connects [OF up] show ?thesis by blast
qed

end
