(* ===== verification/Presence.thy ===== *)
theory Presence
  imports PlatformDB Trace
begin

section \<open>The presence service\<close>

text \<open>
  \<open>services/presence/main.go\<close>: heartbeats are upserts into \<open>user_presence\<close>, the status query
  treats a user whose last heartbeat is more than a minute old as offline, and a cleanup loop
  rewrites old rows.  Times are stored in whole seconds.  The specification is the map from users
  to their last heartbeat, with no cleanup at all; the service refines it.
\<close>

record presence_env =
  pe_now :: instant
  pe_fault :: bool
  pe_decode :: "string \<Rightarrow> (string \<times> int) option"

datatype presence_payload = P_Status string int int | P_PresenceText string

definition StatusOffline :: int where "StatusOffline = 0"
definition StatusOnline :: int where "StatusOnline = 1"
definition StatusBusy :: int where "StatusBusy = 2"
definition StatusAway :: int where "StatusAway = 3"

text \<open>\<open>INSERT ... ON CONFLICT(user_id) DO UPDATE SET ...\<close>.\<close>

fun upsert_presence :: "presence_row \<Rightarrow> presence_row list \<Rightarrow> presence_row list" where
  "upsert_presence r [] = [r]"
| "upsert_presence r (q # qs) =
    (if pr_user_id q = pr_user_id r
     then q\<lparr>pr_status := pr_status r, pr_last_seen := pr_last_seen r, pr_updated_at := pr_updated_at r\<rparr> # qs
     else q # upsert_presence r qs)"

definition HeartbeatHandler :: "presence_env \<Rightarrow> (platform_db, presence_payload) handler" where
  "HeartbeatHandler e w r db =
    (if rq_method r \<noteq> ''POST'' then (Http_Error 405 ''Method not allowed'', db)
     else (case pe_decode e (rq_body r) of
             None \<Rightarrow> (Http_Error 400 ''Invalid body'', db)
           | Some (u, st) \<Rightarrow>
               (if u = [] then (Http_Error 400 ''Missing user_id'', db)
                else
                  (let now = unix_sec (pe_now e);
                       row = \<lparr>pr_user_id = u, pr_status = st, pr_last_seen = now, pr_updated_at = now\<rparr>
                   in if pe_fault e then (Http_Error 500 ''DB error'', db)
                      else (case t_presence db of
                              None \<Rightarrow> (Http_Error 500 ''DB error'', db)
                            | Some rs \<Rightarrow>
                                (Status_Only 200, db\<lparr>t_presence := Some (upsert_presence row rs)\<rparr>))))))"

definition StatusHandler :: "presence_env \<Rightarrow> (platform_db, presence_payload) handler" where
  "StatusHandler e w r db =
    (let u = rq_query r ''user_id'';
         answer = (\<lambda>(st, ls).
           (let lastSeen = time_unix ls;
                st' = (if time_sub (pe_now e) lastSeen > 1 * minute then StatusOffline else st)
            in (Json (P_Status u st' lastSeen), db)))
     in if u = [] then (Http_Error 400 ''Missing user_id'', db)
        else (case query_row (pe_fault e) (\<lambda>p. pr_user_id p = u) (t_presence db) of
                Inl NoRows \<Rightarrow> answer (StatusOffline, 0)
              | Inl DriverErr \<Rightarrow> (Http_Error 500 ''DB error'', db)
              | Inr p \<Rightarrow> answer (pr_status p, pr_last_seen p)))"

text \<open>One tick of \<open>CleanupLoop\<close>; a failed statement is ignored.\<close>

definition cleanup_tick :: "instant \<Rightarrow> bool \<Rightarrow> platform_db \<Rightarrow> platform_db" where
  "cleanup_tick now f db =
    (let cutoff = unix_sec (now + (-1) * minute)
     in case exec_update f (\<lambda>_. True) (\<lambda>p. pr_last_seen p < cutoff)
               (\<lambda>p. p\<lparr>pr_status := StatusOffline\<rparr>) (t_presence db) of
          None \<Rightarrow> db
        | Some t \<Rightarrow> db\<lparr>t_presence := t\<rparr>)"

definition presence_healthHandler :: "(platform_db, presence_payload) handler" where
  "presence_healthHandler w r db =
    (Status_Json 200 (P_PresenceText ''Presence Service is running''), db)"

subsection \<open>Runs of the service\<close>

datatype presence_event =
    PE_Heartbeat presence_env writer request
  | PE_Query presence_env writer request
  | PE_Tick instant bool

fun event_time :: "presence_event \<Rightarrow> instant" where
  "event_time (PE_Heartbeat e w r) = pe_now e"
| "event_time (PE_Query e w r) = pe_now e"
| "event_time (PE_Tick t f) = t"

fun presence_step :: "presence_event \<Rightarrow> platform_db \<Rightarrow> platform_db" where
  "presence_step (PE_Heartbeat e w r) db = snd (HeartbeatHandler e w r db)"
| "presence_step (PE_Query e w r) db = snd (StatusHandler e w r db)"
| "presence_step (PE_Tick t f) db = cleanup_tick t f db"

definition presence_run :: "presence_event list \<Rightarrow> platform_db \<Rightarrow> platform_db" where
  "presence_run evs db = foldl (\<lambda>d ev. presence_step ev d) db evs"

subsection \<open>The specification: the last accepted heartbeat of each user\<close>

type_synonym heartbeats = "string \<Rightarrow> (int \<times> instant) option"

definition accepted_heartbeat :: "presence_env \<Rightarrow> request \<Rightarrow> (string \<times> int) option" where
  "accepted_heartbeat e r =
    (if rq_method r = ''POST'' \<and> \<not> pe_fault e
     then (case pe_decode e (rq_body r) of
             Some (u, st) \<Rightarrow> (if u = [] then None else Some (u, st))
           | None \<Rightarrow> None)
     else None)"

fun spec_step :: "presence_event \<Rightarrow> heartbeats \<Rightarrow> heartbeats" where
  "spec_step (PE_Heartbeat e w r) h =
    (case accepted_heartbeat e r of
       None \<Rightarrow> h
     | Some (u, st) \<Rightarrow> h(u \<mapsto> (st, pe_now e)))"
| "spec_step (PE_Query e w r) h = h"
| "spec_step (PE_Tick t f) h = h"

definition spec_run :: "presence_event list \<Rightarrow> heartbeats \<Rightarrow> heartbeats" where
  "spec_run evs h = foldl (\<lambda>h ev. spec_step ev h) h evs"

text \<open>The answer of the specification: the status of the last heartbeat, or offline when there is
  none within the last minute (a second's fraction of the heartbeat is dropped).\<close>

definition spec_answer :: "heartbeats \<Rightarrow> instant \<Rightarrow> string \<Rightarrow> int \<times> int" where
  "spec_answer h now u =
    (case h u of
       None \<Rightarrow> (StatusOffline, 0)
     | Some (st, t) \<Rightarrow>
         (let seen = time_unix (unix_sec t)
          in (if now - seen > minute then StatusOffline else st, seen)))"

subsection \<open>Simulation\<close>

definition presence_rows :: "platform_db \<Rightarrow> presence_row list" where
  "presence_rows db = (case t_presence db of None \<Rightarrow> [] | Some rs \<Rightarrow> rs)"

definition presence_of :: "platform_db \<Rightarrow> string \<Rightarrow> presence_row option" where
  "presence_of db u = find (\<lambda>p. pr_user_id p = u) (presence_rows db)"

text \<open>A stored row is the last heartbeat, except that its status may have been rewritten once the
  heartbeat was stale.\<close>

fun row_sim :: "instant \<Rightarrow> presence_row option \<Rightarrow> (int \<times> instant) option \<Rightarrow> bool" where
  "row_sim now None None = True"
| "row_sim now (Some p) (Some (st, t)) =
    (pr_last_seen p = unix_sec t \<and>
     (pr_status p = st \<or> (pr_status p = StatusOffline \<and> now - time_unix (unix_sec t) > minute)))"
| "row_sim now _ _ = False"

definition presence_sim :: "instant \<Rightarrow> platform_db \<Rightarrow> heartbeats \<Rightarrow> bool" where
  [inv_simps]: "presence_sim now db h \<longleftrightarrow>
    t_presence db \<noteq> None \<and> (\<forall>u. row_sim now (presence_of db u) (h u))"

lemma row_sim_mono: "row_sim t p h \<Longrightarrow> t \<le> t' \<Longrightarrow> row_sim t' p h"
  by (cases "(t, p, h)" rule: row_sim.cases) auto

lemma find_upsert:
  "find (\<lambda>p. pr_user_id p = u) (upsert_presence r rs) =
    (if u = pr_user_id r
     then Some (case find (\<lambda>p. pr_user_id p = u) rs of
            None \<Rightarrow> r
          | Some q \<Rightarrow> q\<lparr>pr_status := pr_status r, pr_last_seen := pr_last_seen r,
                         pr_updated_at := pr_updated_at r\<rparr>)
     else find (\<lambda>p. pr_user_id p = u) rs)"
  by (induction rs) auto

lemma distinct_upsert:
  "distinct (map pr_user_id rs) \<Longrightarrow> distinct (map pr_user_id (upsert_presence r rs))"
proof -
  have "pr_user_id ` set (upsert_presence r rs) = insert (pr_user_id r) (pr_user_id ` set rs)" for rs
    by (induction rs) auto
  then show "distinct (map pr_user_id rs) \<Longrightarrow> distinct (map pr_user_id (upsert_presence r rs))"
    by (induction rs) auto
qed

lemma find_map_key:
  assumes "\<And>x. k (g x) = k x"
  shows "find (\<lambda>x. k x = u) (map g xs) = map_option g (find (\<lambda>x. k x = u) xs)"
  using assms by (induction xs) auto

lemma presence_sim_mono: "presence_sim t db h \<Longrightarrow> t \<le> t' \<Longrightarrow> presence_sim t' db h"
  by (auto simp: presence_sim_def intro: row_sim_mono)

lemma presence_of_heartbeat:
  assumes "accepted_heartbeat e r = Some (u, st)" and "t_presence db \<noteq> None"
  shows "t_presence (snd (HeartbeatHandler e w r db)) \<noteq> None"
    and "presence_of (snd (HeartbeatHandler e w r db)) v =
      (if v = u then Some \<lparr>pr_user_id = u, pr_status = st, pr_last_seen = unix_sec (pe_now e),
                         pr_updated_at = unix_sec (pe_now e)\<rparr>
       else presence_of db v)"
proof -
  let ?row = "\<lparr>pr_user_id = u, pr_status = st, pr_last_seen = unix_sec (pe_now e),
      pr_updated_at = unix_sec (pe_now e)\<rparr>"
  obtain rs where rs: "t_presence db = Some rs" using assms(2) by auto
  have "pe_decode e (rq_body r) = Some (u, st)" "u \<noteq> []" "rq_method r = ''POST''" "\<not> pe_fault e"
    using assms(1) by (auto simp: accepted_heartbeat_def split: if_splits option.splits)
  with rs have eq: "snd (HeartbeatHandler e w r db) = db\<lparr>t_presence := Some (upsert_presence ?row rs)\<rparr>"
    by (simp add: HeartbeatHandler_def Let_def)
  then show "t_presence (snd (HeartbeatHandler e w r db)) \<noteq> None" by simp
  have "q\<lparr>pr_status := st, pr_last_seen := k, pr_updated_at := k\<rparr>
      = \<lparr>pr_user_id = u, pr_status = st, pr_last_seen = k, pr_updated_at = k\<rparr>"
    if "pr_user_id q = u" for q :: presence_row and k
    using that by simp
  with rs show "presence_of (snd (HeartbeatHandler e w r db)) v =
      (if v = u then Some ?row else presence_of db v)"
    unfolding eq
    by (auto simp: presence_of_def presence_rows_def find_upsert split: option.splits dest: find_Some_in)
qed

lemma heartbeat_refused:
  "accepted_heartbeat e r = None \<Longrightarrow> snd (HeartbeatHandler e w r db) = db"
  unfolding accepted_heartbeat_def HeartbeatHandler_def
  by (cases "pe_decode e (rq_body r)"; cases "rq_method r = ''POST''"; cases "pe_fault e")
     (simp_all add: Let_def split: prod.splits if_splits)

lemma presence_of_tick:
  assumes "t_presence db \<noteq> None"
  shows "t_presence (cleanup_tick now f db) \<noteq> None"
    and "presence_of (cleanup_tick now f db) v =
      (if f then presence_of db v
       else map_option (\<lambda>p. if pr_last_seen p < unix_sec (now - minute)
                            then p\<lparr>pr_status := StatusOffline\<rparr> else p) (presence_of db v))"
  using assms
  by (auto simp: cleanup_tick_def exec_update_def presence_of_def presence_rows_def find_map_key
      Let_def split: option.splits if_splits)

text \<open>A row that the cleanup rewrites is already stale.\<close>

lemma cutoff_is_stale:
  assumes "s < unix_sec (now - minute)" shows "now - time_unix s > minute"
  using assms unfolding unix_sec_def time_unix_def second_def minute_def by linarith

text \<open>A tick at the current time keeps the simulation, a heartbeat moves both sides.\<close>

lemma presence_sim_step:
  assumes sim: "presence_sim now db h" and t: "now \<le> event_time ev"
  shows "presence_sim (event_time ev) (presence_step ev db) (spec_step ev h)"
proof -
  have sim': "presence_sim (event_time ev) db h" using presence_sim_mono [OF sim t] .
  then have tbl: "t_presence db \<noteq> None" by (simp add: presence_sim_def)
  show ?thesis
  proof (cases ev)
    case (PE_Heartbeat e w r)
    show ?thesis
    proof (cases "accepted_heartbeat e r")
      case None
      with sim' PE_Heartbeat show ?thesis by (simp add: heartbeat_refused)
    next
      case (Some us)
      obtain u st where us: "us = (u, st)" by (cases us)
      note row = presence_of_heartbeat [OF Some [unfolded us] tbl, of w]
      from sim' row PE_Heartbeat Some us show ?thesis by (auto simp: presence_sim_def)
    qed
  next
    case (PE_Query e w r)
    have "snd (StatusHandler e w r db) = db"
      by (auto simp: StatusHandler_def Let_def split: sum.splits db_err.splits)
    with sim' PE_Query show ?thesis by simp
  next
    case (PE_Tick now' f)
    note row = presence_of_tick [OF tbl, of now' f]
    have "row_sim now' (presence_of (cleanup_tick now' f db) u) (h u)" for u
    proof -
      have "row_sim now' (presence_of db u) (h u)" using sim' PE_Tick by (simp add: presence_sim_def)
      then show ?thesis
        using cutoff_is_stale
        by (cases "(now', presence_of db u, h u)" rule: row_sim.cases) (auto simp: row)
    qed
    with row(1) PE_Tick show ?thesis by (simp add: presence_sim_def)
  qed
qed

fun in_order :: "instant \<Rightarrow> presence_event list \<Rightarrow> bool" where
  "in_order now [] = True"
| "in_order now (ev # evs) = (now \<le> event_time ev \<and> in_order (event_time ev) evs)"

lemma presence_sim_run:
  assumes "in_order now evs" and "presence_sim now db h"
  shows "presence_sim (foldl (\<lambda>_. event_time) now evs) (presence_run evs db) (spec_run evs h)"
  using assms unfolding presence_run_def spec_run_def
  by (induction evs arbitrary: now db h) (auto intro: presence_sim_step)

lemma presence_sim_init: "presence_sim now (presence_initDB empty_db) Map.empty"
  by (simp add: presence_sim_def presence_initDB_def empty_db_def presence_of_def presence_rows_def
      create_def)

text \<open>C13: For heartbeats, queries and cleanup ticks in any number and any order of time, the
  status query answers what the specification says: the status of the user's last accepted
  heartbeat while that is at most a minute old, and offline otherwise; the cleanup loop never
  shows.\<close>

theorem status_refines_last_heartbeat:
  assumes "in_order t0 (evs @ [PE_Query e w r])"
    and "rq_query r ''user_id'' = u" and "u \<noteq> []" and "\<not> pe_fault e"
    and "db = presence_run evs (presence_initDB empty_db)"
  shows "fst (StatusHandler e w r db) =
    (let (st, seen) = spec_answer (spec_run evs Map.empty) (pe_now e) u in Json (P_Status u st seen))"
proof -
  let ?h = "spec_run evs Map.empty" and ?now = "pe_now e"
  have "presence_sim (foldl (\<lambda>_. event_time) t0 (evs @ [PE_Query e w r]))
      (presence_run (evs @ [PE_Query e w r]) (presence_initDB empty_db))
      (spec_run (evs @ [PE_Query e w r]) Map.empty)"
    using presence_sim_run [OF assms(1) presence_sim_init] .
  moreover have "snd (StatusHandler e w r db) = db"
    by (auto simp: StatusHandler_def Let_def split: sum.splits db_err.splits)
  ultimately have sim: "presence_sim ?now db ?h"
    using assms(5) by (simp add: presence_run_def spec_run_def)
  then obtain rs where rs: "t_presence db = Some rs" by (auto simp: presence_sim_def)
  have late: "time_sub ?now x > minute \<longleftrightarrow> ?now - x > minute" for x
    using minute_le_max by (intro time_sub_gt_iff) (simp_all add: min_duration_def duration_defs)
  show ?thesis
  proof (cases "?h u")
    case None
    moreover have "row_sim ?now (presence_of db u) (?h u)" using sim by (simp add: presence_sim_def)
    ultimately have "presence_of db u = None" by (cases "presence_of db u") auto
    with None rs assms(2-4) show ?thesis
      by (simp add: StatusHandler_def query_row_def query_def presence_of_def presence_rows_def
          spec_answer_def time_unix_def)
  next
    case (Some x)
    obtain st t where x: "x = (st, t)" by (cases x)
    moreover have "row_sim ?now (presence_of db u) (?h u)" using sim by (simp add: presence_sim_def)
    ultimately obtain p where
      p: "presence_of db u = Some p" "pr_last_seen p = unix_sec t"
        "pr_status p = st \<or> (pr_status p = StatusOffline \<and> ?now - time_unix (unix_sec t) > minute)"
      using Some by (cases "presence_of db u") auto
    with Some x rs assms(2-4) show ?thesis
      by (auto simp: StatusHandler_def query_row_def query_def presence_of_def presence_rows_def
          spec_answer_def late Let_def)
  qed
qed

definition ex_beat :: "instant \<Rightarrow> presence_env" where
  "ex_beat t = \<lparr>pe_now = t, pe_fault = False, pe_decode = (\<lambda>b. Some (b, StatusBusy))\<rparr>"

definition ex_presence_req :: request where
  "ex_presence_req = \<lparr>rq_method = ''POST'', rq_path = ''/heartbeat'', rq_header = (\<lambda>_. []),
     rq_query = (\<lambda>_. ''u''), rq_remote = [], rq_body = ''u''\<rparr>"

theorem status_refines_last_heartbeat_witness:
  "fst (StatusHandler (ex_beat (70 * second)) \<lparr>can_hijack = True\<rparr> ex_presence_req
     (presence_run [PE_Heartbeat (ex_beat (10 * second)) \<lparr>can_hijack = True\<rparr> ex_presence_req,
        PE_Tick (60 * second) False] (presence_initDB empty_db)))
    = Json (P_Status ''u'' StatusBusy (10 * second))"
proof -
  let ?evs = "[PE_Heartbeat (ex_beat (10 * second)) \<lparr>can_hijack = True\<rparr> ex_presence_req,
        PE_Tick (60 * second) False]"
  have "spec_answer (spec_run ?evs Map.empty) (70 * second) ''u'' = (StatusBusy, 10 * second)"
    by code_simp
  then show ?thesis
    using status_refines_last_heartbeat [of 0 ?evs "ex_beat (70 * second)" "\<lparr>can_hijack = True\<rparr>"
        ex_presence_req "''u''"]
    by (simp add: ex_beat_def ex_presence_req_def second_def)
qed

text \<open>A heartbeat's status is not checked against the four defined values: any integer is
  stored and is what the next status query answers.\<close>

theorem heartbeat_status_unchecked:
  assumes "t_presence db \<noteq> None" and "u \<noteq> []"
  shows "\<exists>e w r. accepted_heartbeat e r = Some (u, st) \<and>
    fst (StatusHandler e w r (snd (HeartbeatHandler e w r db))) = Json (P_Status u st 0)"
proof -
  let ?e = "\<lparr>pe_now = 0, pe_fault = False, pe_decode = (\<lambda>b. Some (u, st))\<rparr>"
  let ?r = "\<lparr>rq_method = ''POST'', rq_path = [], rq_header = (\<lambda>_. []), rq_query = (\<lambda>_. u),
    rq_remote = [], rq_body = []\<rparr>"
  let ?db = "snd (HeartbeatHandler ?e \<lparr>can_hijack = True\<rparr> ?r db)"
  have a: "accepted_heartbeat ?e ?r = Some (u, st)" using assms(2) by (simp add: accepted_heartbeat_def)
  note row = presence_of_heartbeat [OF a assms(1), of "\<lparr>can_hijack = True\<rparr>"]
  from row(1) obtain rs where rs: "t_presence ?db = Some rs" by auto
  have "fst (StatusHandler ?e \<lparr>can_hijack = True\<rparr> ?r ?db) = Json (P_Status u st 0)"
    using row(2) [of u] rs assms(2)
    by (simp add: StatusHandler_def query_row_def query_def presence_of_def presence_rows_def
        unix_sec_def time_unix_def time_sub_def min_duration_def max_duration_def duration_defs Let_def)
  with a show ?thesis by blast
qed

theorem heartbeat_status_unchecked_witness:
  "\<exists>e w r. accepted_heartbeat e r = Some (''u'', 42) \<and>
    fst (StatusHandler e w r (snd (HeartbeatHandler e w r (presence_initDB empty_db))))
      = Json (P_Status ''u'' 42 0)"
  by (rule heartbeat_status_unchecked) (simp_all add: presence_initDB_def)

end
