(* ===== verification/Json.thy ===== *)
theory Json
  imports GoStrings
begin

section \<open>JSON strings and RFC 3339 times, as Go's encoder writes them\<close>

text \<open>
  The string encoder of \<open>encoding/json\<close> (Go 1.22, HTML escaping on) on a sequence of bytes, and
  \<open>time.Time.MarshalJSON\<close> in a time zone given by its offset.  What the services rely on is that a
  quoted string holds no raw control character, whatever its content.
\<close>

subsection \<open>Strings\<close>

abbreviation code :: "char \<Rightarrow> nat" where
  "code c \<equiv> of_char c"

definition between :: "nat \<Rightarrow> nat \<Rightarrow> char \<Rightarrow> bool" where
  "between lo hi c \<longleftrightarrow> lo \<le> code c \<and> code c \<le> hi"

text \<open>\<open>utf8.DecodeRuneInString\<close>: the width of the encoding at the front, 0 for an invalid one.\<close>

fun utf8_width :: "string \<Rightarrow> nat" where
  "utf8_width [] = 0"
| "utf8_width (a # s) =
    (if code a < 128 then 1
     else if between 194 223 a then
       (case s of b # _ \<Rightarrow> (if between 128 191 b then 2 else 0) | _ \<Rightarrow> 0)
     else if between 224 239 a then
       (case s of
          b # c # _ \<Rightarrow>
            (if between (if code a = 224 then 160 else 128) (if code a = 237 then 159 else 191) b \<and>
                between 128 191 c then 3 else 0)
        | _ \<Rightarrow> 0)
     else if between 240 244 a then
       (case s of
          b # c # d # _ \<Rightarrow>
            (if between (if code a = 240 then 144 else 128) (if code a = 244 then 143 else 191) b \<and>
                between 128 191 c \<and> between 128 191 d then 4 else 0)
        | _ \<Rightarrow> 0)
     else 0)"

definition backslash :: char where "backslash = CHR 0x5C"
definition dquote :: char where "dquote = CHR 0x22"

definition ascii_escape :: "char \<Rightarrow> string" where
  "ascii_escape c =
    (if c = backslash \<or> c = dquote then [backslash, c]
     else if code c = 8 then [backslash, CHR ''b'']
     else if code c = 12 then [backslash, CHR ''f'']
     else if code c = 10 then [backslash, CHR ''n'']
     else if code c = 13 then [backslash, CHR ''r'']
     else if code c = 9 then [backslash, CHR ''t'']
     else if code c < 32 \<or> c = CHR ''<'' \<or> c = CHR ''>'' \<or> c = CHR ''&''
     then backslash # ''u00'' @ [hex_digit (code c div 16), hex_digit (code c mod 16)]
     else [c])"

function json_escape :: "string \<Rightarrow> string" where
  "json_escape [] = []"
| "json_escape (c # cs) =
    (if code c < 128 then ascii_escape c @ json_escape cs
     else
       (let w = utf8_width (c # cs); r = take w (c # cs) in
        if w = 0 then backslash # ''ufffd'' @ json_escape cs
        else if r = [CHR 0xE2, CHR 0x80, CHR 0xA8] then backslash # ''u2028'' @ json_escape (drop (w - 1) cs)
        else if r = [CHR 0xE2, CHR 0x80, CHR 0xA9] then backslash # ''u2029'' @ json_escape (drop (w - 1) cs)
        else r @ json_escape (drop (w - 1) cs)))"
  by pat_completeness auto
termination by (relation "measure length") auto

definition json_quote :: "string \<Rightarrow> string" where
  "json_quote s = [dquote] @ json_escape s @ [dquote]"

definition json_field :: "string \<Rightarrow> string \<Rightarrow> string" where
  "json_field k v = [dquote] @ k @ [dquote, CHR '':''] @ v"

subsection \<open>Times\<close>

text \<open>The \<open>k\<close> last decimal digits of a number.\<close>

definition digits :: "nat \<Rightarrow> int \<Rightarrow> string" where
  "digits k n = map (\<lambda>i. char_of (48 + nat (n div 10 ^ i mod 10))) (rev [0..<k])"

text \<open>The civil date of a day number (day 0 is 1970-01-01).\<close>

definition civil_from_days :: "int \<Rightarrow> int \<times> int \<times> int" where
  "civil_from_days z =
    (let z' = z + 719468;
         era = z' div 146097;
         doe = z' mod 146097;
         yoe = (doe - doe div 1460 + doe div 36524 - doe div 146096) div 365;
         doy = doe - (365 * yoe + yoe div 4 - yoe div 100);
         mp = (5 * doy + 2) div 153;
         d = doy - (153 * mp + 2) div 5 + 1;
         m = (if mp < 10 then mp + 3 else mp - 9)
     in (yoe + era * 400 + (if m \<le> 2 then 1 else 0), m, d))"

fun drop_zeros :: "string \<Rightarrow> string" where
  "drop_zeros [] = []"
| "drop_zeros (c # cs) = (if c = CHR ''0'' then drop_zeros cs else c # cs)"

definition fraction :: "int \<Rightarrow> string" where
  "fraction ns = (if ns = 0 then [] else CHR ''.'' # rev (drop_zeros (rev (digits 9 ns))))"

definition zone_text :: "int \<Rightarrow> string" where
  "zone_text off =
    (if off = 0 then ''Z''
     else (let m = \<bar>off\<bar> div 60; neg = (off < 0 \<and> m \<noteq> 0)
           in (if neg then ''-'' else ''+'') @ digits 2 (m div 60) @ '':'' @ digits 2 (m mod 60)))"

text \<open>The text of a time with the given date, second of the day, nanoseconds and zone offset.\<close>

definition rfc3339_nano :: "int \<times> int \<times> int \<Rightarrow> int \<Rightarrow> int \<Rightarrow> int \<Rightarrow> string" where
  "rfc3339_nano ymd sod ns off =
    digits 4 (fst ymd) @ ''-'' @ digits 2 (fst (snd ymd)) @ ''-'' @ digits 2 (snd (snd ymd)) @ ''T''
      @ digits 2 (sod div 3600) @ '':'' @ digits 2 (sod div 60 mod 60) @ '':'' @ digits 2 (sod mod 60)
      @ fraction ns @ zone_text off"

text \<open>\<open>MarshalJSON\<close>: an error when the year does not have four digits or the zone is a day or more
  away.\<close>

definition marshal_time :: "int \<Rightarrow> instant \<Rightarrow> string option" where
  "marshal_time off t =
    (let l = t + off * second; ymd = civil_from_days (unix_sec l div 86400)
     in if fst ymd < 0 \<or> fst ymd > 9999 \<or> \<bar>off\<bar> \<ge> 86400 then None
        else Some ([dquote] @ rfc3339_nano ymd (unix_sec l mod 86400) (l mod second) off @ [dquote]))"

subsection \<open>No control characters\<close>

definition printable :: "string \<Rightarrow> bool" where
  "printable s \<longleftrightarrow> (\<forall>c\<in>set s. 32 \<le> code c)"

lemma printable_simps [simp]:
  "printable []" "printable (c # s) \<longleftrightarrow> 32 \<le> code c \<and> printable s"
  "printable (s @ t) \<longleftrightarrow> printable s \<and> printable t"
  by (auto simp: printable_def)

lemma printable_no_newline: "printable s \<Longrightarrow> CHR 0x0A \<notin> set s"
  by (auto simp: printable_def)

lemma hex_digit_code: "n < 16 \<Longrightarrow> 32 \<le> code (hex_digit n)"
  by (auto simp: hex_digit_def take_bit_eq_mod)

lemma ascii_escape_printable: "code c < 128 \<Longrightarrow> printable (ascii_escape c)"
proof -
  assume c: "code c < 128"
  then have "code c div 16 < 16" "code c mod 16 < 16" by auto
  then have "32 \<le> code (hex_digit (code c div 16))" "32 \<le> code (hex_digit (code c mod 16))"
    by (blast intro: hex_digit_code)+
  with c show ?thesis by (auto simp: ascii_escape_def backslash_def dquote_def)
qed

lemma utf8_width_high:
  assumes "utf8_width (c # cs) = w" and "\<not> code c < 128" and "x \<in> set (take w (c # cs))"
  shows "128 \<le> code x"
  using assms
  by (auto simp: between_def split: if_splits list.splits)

lemma json_escape_printable: "printable (json_escape s)"
proof (induction s rule: json_escape.induct)
  case (2 c cs)
  have high: "printable (take (utf8_width (c # cs)) (c # cs))" if "\<not> code c < 128"
    using utf8_width_high [OF refl that] unfolding printable_def by fastforce
  show ?case
    using 2 high ascii_escape_printable
    by (auto simp: Let_def backslash_def simp del: utf8_width.simps)
qed simp

lemma json_quote_printable: "printable (json_quote s)"
  by (simp add: json_quote_def json_escape_printable dquote_def)

lemma digits_printable [simp]: "printable (digits k n)"
proof -
  have "48 \<le> code (char_of (48 + nat (m mod 10)) :: char)" for m :: int
  proof -
    have "nat (m mod 10) < 10" by (simp add: nat_less_iff)
    then show ?thesis by (simp add: take_bit_eq_mod)
  qed
  then show ?thesis unfolding digits_def printable_def by (auto intro: order_trans [of 32 48])
qed

lemma set_drop_zeros: "set (drop_zeros s) \<subseteq> set s"
  by (induction s) auto

lemma fraction_printable [simp]: "printable (fraction n)"
  using digits_printable [of 9 n] set_drop_zeros [of "rev (digits 9 n)"]
  by (auto simp: fraction_def printable_def)

lemma zone_text_printable [simp]: "printable (zone_text off)"
  by (simp add: zone_text_def Let_def)

lemma rfc3339_nano_printable [simp]: "printable (rfc3339_nano ymd sod ns off)"
  by (simp add: rfc3339_nano_def)

lemma marshal_time_printable: "marshal_time off t = Some s \<Longrightarrow> printable s"
  by (auto simp: marshal_time_def dquote_def Let_def split: if_splits)

text \<open>A hexadecimal string is written as it is.\<close>

lemma alnum_escape:
  assumes "is_alnum c" shows "code c < 128" and "ascii_escape c = [c]"
proof -
  have n: "48 \<le> code c" "code c < 128" using assms by (auto simp: is_alnum_def Let_def)
  have "c \<noteq> x" if "\<not> is_alnum x" for x using assms that by blast
  moreover have "\<not> is_alnum x" if "x \<in> {backslash, dquote, CHR ''<'', CHR ''>'', CHR ''&''}" for x
    using that by (auto simp: is_alnum_def backslash_def dquote_def)
  ultimately show "ascii_escape c = [c]" using n by (simp add: ascii_escape_def)
  show "code c < 128" by (rule n(2))
qed

lemma json_escape_alnum: "list_all is_alnum s \<Longrightarrow> json_escape s = s"
  by (induction s) (simp_all add: alnum_escape)

lemma hex_digit_alnum: "n < 16 \<Longrightarrow> is_alnum (hex_digit n)"
  by (auto simp: is_alnum_def hex_digit_def take_bit_eq_mod Let_def)

lemma hex_encode_alnum: "list_all is_alnum (hex_encode s)"
proof (induction s)
  case (Cons c s)
  have "code c div 16 < 16" by (rule less_mult_imp_div_less) simp
  with Cons show ?case by (simp add: hex_digit_alnum)
qed simp

end
