(* ===== verification/Sha256.thy ===== *)
theory Sha256
  imports GoStrings "HOL-Library.Word"
begin

section \<open>SHA-256\<close>

text \<open>
  \<open>crypto/sha256\<close>, which the audit chain and the file transfer service use, on 32-bit words.
  The proofs of the development need only that the digest has 32 bytes.
\<close>

unbundle bit_operations_syntax

type_synonym word32 = "32 word"

definition sha_K :: "word32 list" where
  "sha_K =
    [1116352408, 1899447441, 3049323471, 3921009573, 961987163, 1508970993,
     2453635748, 2870763221, 3624381080, 310598401, 607225278, 1426881987,
     1925078388, 2162078206, 2614888103, 3248222580, 3835390401, 4022224774,
     264347078, 604807628, 770255983, 1249150122, 1555081692, 1996064986,
     2554220882, 2821834349, 2952996808, 3210313671, 3336571891, 3584528711,
     113926993, 338241895, 666307205, 773529912, 1294757372, 1396182291,
     1695183700, 1986661051, 2177026350, 2456956037, 2730485921, 2820302411,
     3259730800, 3345764771, 3516065817, 3600352804, 4094571909, 275423344,
     430227734, 506948616, 659060556, 883997877, 958139571, 1322822218,
     1537002063, 1747873779, 1955562222, 2024104815, 2227730452, 2361852424,
     2428436474, 2756734187, 3204031479, 3329325298]"

definition sha_H0 :: "word32 list" where
  "sha_H0 =
    [1779033703, 3144134277, 1013904242, 2773480762,
     1359893119, 2600822924, 528734635, 1541459225]"

text \<open>Padding: a one bit, zeros, and the length in bits as a 64-bit big-endian integer.\<close>

definition be_bytes :: "nat \<Rightarrow> nat \<Rightarrow> string" where
  "be_bytes k n = map (\<lambda>i. char_of (n div 256 ^ i mod 256)) (rev [0..<k])"

definition sha_pad :: "string \<Rightarrow> string" where
  "sha_pad s =
    s @ [CHR 0x80] @ replicate ((119 - length s mod 64) mod 64) (CHR 0x00)
      @ be_bytes 8 (8 * length s mod 2 ^ 64)"

fun be_word :: "string \<Rightarrow> word32" where
  "be_word [a, b, c, d] =
    word_of_nat (of_char a * 2 ^ 24 + of_char b * 2 ^ 16 + of_char c * 2 ^ 8 + of_char d)"
| "be_word _ = 0"

definition sha_block_words :: "string \<Rightarrow> word32 list" where
  "sha_block_words b = map (\<lambda>i. be_word (take 4 (drop (4 * i) b))) [0..<16]"

text \<open>The message schedule, newest word first.\<close>

fun sha_schedule :: "nat \<Rightarrow> word32 list \<Rightarrow> word32 list" where
  "sha_schedule 0 ws = ws"
| "sha_schedule (Suc n) ws =
    (let w15 = ws ! 14; w2 = ws ! 1;
         s0 = xor (word_rotr 7 w15) (xor (word_rotr 18 w15) (drop_bit 3 w15));
         s1 = xor (word_rotr 17 w2) (xor (word_rotr 19 w2) (drop_bit 10 w2))
     in sha_schedule n ((ws ! 15 + s0 + ws ! 6 + s1) # ws))"

fun sha_round :: "word32 list \<Rightarrow> word32 \<times> word32 \<Rightarrow> word32 list" where
  "sha_round [a, b, c, d, e, f, g, h] (k, w) =
    (let S1 = xor (word_rotr 6 e) (xor (word_rotr 11 e) (word_rotr 25 e));
         ch = xor (e AND f) (NOT e AND g);
         t1 = h + S1 + ch + k + w;
         S0 = xor (word_rotr 2 a) (xor (word_rotr 13 a) (word_rotr 22 a));
         maj = xor (a AND b) (xor (a AND c) (b AND c));
         t2 = S0 + maj
     in [t1 + t2, a, b, c, d + t1, e, f, g])"
| "sha_round hs _ = hs"

definition sha_compress :: "word32 list \<Rightarrow> string \<Rightarrow> word32 list" where
  "sha_compress hs b =
    map2 (+) hs (foldl sha_round hs (zip sha_K (rev (sha_schedule 48 (rev (sha_block_words b))))))"

function sha_blocks :: "string \<Rightarrow> string list" where
  "sha_blocks s = (if s = [] then [] else take 64 s # sha_blocks (drop 64 s))"
  by pat_completeness auto
termination by (relation "measure length") auto

declare sha_blocks.simps [simp del]

definition sha256 :: "string \<Rightarrow> string" where
  "sha256 s =
    concat (map (\<lambda>w. be_bytes 4 (unat w)) (foldl sha_compress sha_H0 (sha_blocks (sha_pad s))))"

lemma length_be_bytes [simp]: "length (be_bytes k n) = k"
  by (simp add: be_bytes_def)

lemma sha_round_length: "length hs = 8 \<Longrightarrow> length (sha_round hs kw) = 8"
  by (cases "(hs, kw)" rule: sha_round.cases) (auto simp: Let_def)

lemma sha_rounds_length: "length hs = 8 \<Longrightarrow> length (foldl sha_round hs kws) = 8"
  by (induction kws arbitrary: hs) (auto simp: sha_round_length)

lemma length_sha_compress: "length hs = 8 \<Longrightarrow> length (sha_compress hs b) = 8"
  by (simp add: sha_compress_def sha_rounds_length)

lemma length_sha256 [simp]: "length (sha256 s) = 32"
proof -
  have "length (foldl sha_compress hs bs) = 8" if "length hs = 8" for hs bs
    using that by (induction bs arbitrary: hs) (auto simp: length_sha_compress)
  moreover have "length sha_H0 = 8" by (simp add: sha_H0_def)
  ultimately have "length (foldl sha_compress sha_H0 (sha_blocks (sha_pad s))) = 8" by blast
  then show ?thesis by (simp add: sha256_def length_concat comp_def sum_list_triv)
qed

end
