(* ===== verification/AuditChain.thy ===== *)
theory AuditChain
  imports Json Sha256 Trace
begin

section \<open>The audit service: a hash-chained append-only log\<close>

text \<open>
  \<open>services/audit/main.go\<close>.  The state is the log file and the hash of the last entry; each entry
  is one line of JSON that ends with the hash of the entry before it.  The clock, the zone offset,
  the JSON decoder of the request and the outcome of the file write are arguments.  What an auditor
  checks is \<open>linked\<close>: every line carries the hash of the line before, the first one the genesis
  hash.
\<close>

record audit_event =
  ev_actor :: string
  ev_action :: string
  ev_target :: string
  ev_details :: string

datatype write_result = Written | Write_failed nat   \<comment> \<open>bytes written before the error\<close>

record audit_env =
  ae_now :: instant
  ae_zone :: int
  ae_decode :: "string \<Rightarrow> audit_event option"
  ae_write :: write_result

record audit_service =
  as_file :: string
  as_last_hash :: string

definition genesis_hash :: string where
  "genesis_hash = replicate 64 CHR ''0''"

definition NewAuditService :: "string \<Rightarrow> audit_service" where
  "NewAuditService file = \<lparr>as_file = file, as_last_hash = genesis_hash\<rparr>"

definition action_char :: "char \<Rightarrow> bool" where
  "action_char c \<longleftrightarrow> is_alnum c \<or> c \<in> {CHR ''_'', CHR ''.'', CHR '':'', CHR ''-''}"

definition actionPattern :: "string \<Rightarrow> bool" where
  "actionPattern = matches_class action_char 2 64"

definition newline :: char where "newline = CHR 0x0A"

text \<open>\<open>json.Marshal(event)\<close>: the text up to the previous hash, then the hash and the closing.\<close>

definition event_prefix :: "string \<Rightarrow> audit_event \<Rightarrow> string" where
  "event_prefix ts ev =
    ''{'' @ json_field ''timestamp'' ts @ '','' @ json_field ''actor_id'' (json_quote (ev_actor ev))
      @ '','' @ json_field ''action'' (json_quote (ev_action ev))
      @ '','' @ json_field ''target_resource'' (json_quote (ev_target ev))
      @ '','' @ json_field ''details'' (json_quote (ev_details ev)) @ '','' @ json_field ''prev_hash'' []"

definition event_line :: "string \<Rightarrow> string \<Rightarrow> string" where
  "event_line pre prev = pre @ json_quote prev @ ''}''"

definition marshal_event :: "int \<Rightarrow> instant \<Rightarrow> audit_event \<Rightarrow> string \<Rightarrow> string option" where
  "marshal_event off now ev prev =
    (case marshal_time off now of
       None \<Rightarrow> None
     | Some ts \<Rightarrow> Some (event_line (event_prefix ts ev) prev))"

definition trim_event :: "audit_event \<Rightarrow> audit_event" where
  "trim_event ev =
    ev\<lparr>ev_actor := trim_space (ev_actor ev), ev_action := trim_space (ev_action ev),
       ev_target := trim_space (ev_target ev)\<rparr>"

definition line_hash :: "string \<Rightarrow> string" where
  "line_hash d = hex_encode (sha256 d)"

definition LogHandler :: "audit_env \<Rightarrow> (audit_service, unit) handler" where
  "LogHandler e w r s =
    (if rq_method r \<noteq> ''POST'' then (Http_Error 405 ''Method not allowed'', s)
     else (case ae_decode e (rq_body r) of
       None \<Rightarrow> (Http_Error 400 ''Invalid body'', s)
     | Some ev0 \<Rightarrow>
         (let ev = trim_event ev0 in
          if ev_actor ev = [] \<or> length (ev_actor ev) > 64 then (Http_Error 400 ''Invalid actor_id'', s)
          else if \<not> actionPattern (ev_action ev) then (Http_Error 400 ''Invalid action format'', s)
          else if ev_target ev = [] \<or> length (ev_target ev) > 128
          then (Http_Error 400 ''Invalid target_resource'', s)
          else if length (ev_details ev) > 4096 then (Http_Error 400 ''Details too long'', s)
          else (case marshal_event (ae_zone e) (ae_now e) ev (as_last_hash s) of
                  None \<Rightarrow> (Http_Error 500 ''Marshaling error'', s)
                | Some d \<Rightarrow>
                    (let s1 = s\<lparr>as_last_hash := line_hash d\<rparr>
                     in case ae_write e of
                          Write_failed n \<Rightarrow>
                            (Http_Error 500 ''Write error'',
                             s1\<lparr>as_file := as_file s1 @ take n (d @ [newline])\<rparr>)
                        | Written \<Rightarrow>
                            (Status_Only 201, s1\<lparr>as_file := as_file s1 @ d @ [newline]\<rparr>))))))"

subsection \<open>The interface: chains of entries linked by a digest\<close>

fun linked :: "('l \<Rightarrow> 'h) \<Rightarrow> ('l \<Rightarrow> 'h) \<Rightarrow> 'h \<Rightarrow> 'l list \<Rightarrow> bool" where
  "linked digest link h [] = True"
| "linked digest link h (l # ls) = (link l = h \<and> linked digest link (digest l) ls)"

definition chain_head :: "('l \<Rightarrow> 'h) \<Rightarrow> 'h \<Rightarrow> 'l list \<Rightarrow> 'h" where
  "chain_head digest h ls = (if ls = [] then h else digest (last ls))"

lemma linked_snoc:
  "linked digest link h (ls @ [l]) \<longleftrightarrow> linked digest link h ls \<and> link l = chain_head digest h ls"
  by (induction ls arbitrary: h) (auto simp: chain_head_def)

lemma chain_head_simps [simp]:
  "chain_head digest h [] = h" "chain_head digest h (ls @ [l]) = digest l"
  by (simp_all add: chain_head_def)

text \<open>Two entries with one digest, or an entry whose digest is the genesis hash.\<close>

definition broken_digest :: "('l \<Rightarrow> 'h) \<Rightarrow> 'h \<Rightarrow> 'l set \<Rightarrow> bool" where
  "broken_digest digest g L \<longleftrightarrow>
    (\<exists>x\<in>L. digest x = g \<or> (\<exists>y\<in>L. x \<noteq> y \<and> digest x = digest y))"

lemma broken_digest_mono: "broken_digest digest g L \<Longrightarrow> L \<subseteq> M \<Longrightarrow> broken_digest digest g M"
  unfolding broken_digest_def by blast

locale hash_chain =
  fixes digest :: "'l \<Rightarrow> 'h"
    and link :: "'l \<Rightarrow> 'h"
    and mk_entry :: "'e \<Rightarrow> 'h \<Rightarrow> 'l"
    and wf :: "'h \<Rightarrow> bool"
    and genesis :: 'h
  assumes wf_genesis: "wf genesis"
    and wf_digest: "wf (digest l)"
    and link_entry: "wf h \<Longrightarrow> link (mk_entry e h) = h"
begin

lemma wf_head: "wf (chain_head digest genesis ls)"
  by (simp add: chain_head_def wf_genesis wf_digest)

lemma extend:
  assumes "linked digest link genesis ls"
  shows "linked digest link genesis (ls @ [mk_entry e (chain_head digest genesis ls)])"
  using assms by (simp add: linked_snoc link_entry wf_head)

text \<open>An entry made with another hash fits only if that hash is the head's.\<close>

lemma extend_iff:
  assumes "linked digest link genesis ls" and "wf h"
  shows "linked digest link genesis (ls @ [mk_entry e h]) \<longleftrightarrow> h = chain_head digest genesis ls"
  using assms by (simp add: linked_snoc link_entry)

lemma same_head_same_chain:
  assumes "linked digest link genesis ls" and "linked digest link genesis ls'"
    and "chain_head digest genesis ls = chain_head digest genesis ls'"
  shows "ls = ls' \<or> broken_digest digest genesis (set ls \<union> set ls')"
  using assms
proof (induction ls arbitrary: ls' rule: rev_induct)
  case Nil
  then show ?case
    by (cases ls' rule: rev_cases) (auto simp: broken_digest_def)
next
  case (snoc l ls)
  show ?case
  proof (cases ls' rule: rev_cases)
    case Nil
    with snoc.prems show ?thesis by (auto simp: broken_digest_def)
  next
    case (snoc ks k)
    show ?thesis
    proof (cases "l = k")
      case True
      with snoc.IH [of ks] snoc.prems snoc
      have "ls = ks \<or> broken_digest digest genesis (set ls \<union> set ks)"
        by (auto simp: linked_snoc)
      moreover have "set ls \<union> set ks \<subseteq> set (ls @ [l]) \<union> set ls'" using snoc by auto
      ultimately show ?thesis
        using True snoc broken_digest_mono [of digest genesis "set ls \<union> set ks"] by blast
    next
      case False
      with snoc.prems snoc show ?thesis by (auto simp: broken_digest_def)
    qed
  qed
qed

end

text \<open>The link of a line is its last quoted string.\<close>

definition line_link :: "string \<Rightarrow> string" where
  "line_link l = take 64 (drop (length l - 66) l)"

definition is_hash :: "string \<Rightarrow> bool" where
  "is_hash h \<longleftrightarrow> length h = 64 \<and> list_all is_alnum h"

lemma genesis_is_hash: "is_hash genesis_hash"
proof -
  have "is_alnum CHR ''0''" by (simp add: is_alnum_def)
  then have "list_all is_alnum (replicate n CHR ''0'')" for n by (induction n) simp_all
  then show ?thesis unfolding is_hash_def genesis_hash_def by (simp only: length_replicate)
qed

lemma line_hash_is_hash: "is_hash (line_hash d)"
  by (simp add: is_hash_def line_hash_def hex_encode_alnum)

lemma line_link_event: "is_hash h \<Longrightarrow> line_link (event_line pre h) = h"
  by (simp add: line_link_def event_line_def json_quote_def is_hash_def json_escape_alnum)

interpretation chain: hash_chain line_hash line_link event_line is_hash genesis_hash
  by unfold_locales (auto intro: genesis_is_hash line_hash_is_hash line_link_event)

end
