(* ===== verification/AuditProps.thy ===== *)
theory AuditProps
  imports AuditChain
begin

section \<open>Correctness of the audit service\<close>

text \<open>
  While writes succeed the file is a chain that verifies, and nobody can put a line into it by the
  content of an event.  A file that verifies with the service's last hash is the service's file or
  exhibits a collision.  A failed write and a restart both break the chain, because the last hash
  is advanced before the write and is not read back from the file.
\<close>

subsection \<open>Lines of the file\<close>

definition read_lines :: "string \<Rightarrow> string list" where
  "read_lines f = butlast (split_on newline f)"

definition unlines :: "string list \<Rightarrow> string" where
  "unlines ls = concat (map (\<lambda>l. l @ [newline]) ls)"

lemma unlines_simps [simp]:
  "unlines [] = []" "unlines (l # ls) = l @ newline # unlines ls"
  "unlines (ls @ ks) = unlines ls @ unlines ks"
  by (simp_all add: unlines_def)

lemma read_unlines: "\<forall>l\<in>set ls. newline \<notin> set l \<Longrightarrow> read_lines (unlines ls) = ls"
  by (induction ls) (auto simp: read_lines_def split_on_append)

subsection \<open>One request\<close>

definition valid_event :: "audit_event \<Rightarrow> bool" where
  "valid_event ev \<longleftrightarrow>
    ev_actor ev \<noteq> [] \<and> length (ev_actor ev) \<le> 64 \<and> actionPattern (ev_action ev) \<and>
    ev_target ev \<noteq> [] \<and> length (ev_target ev) \<le> 128 \<and> length (ev_details ev) \<le> 4096"

text \<open>The line of a request that reaches the write.\<close>

definition request_line :: "audit_env \<Rightarrow> request \<Rightarrow> string \<Rightarrow> string option" where
  "request_line e r prev =
    (if rq_method r = ''POST''
     then (case ae_decode e (rq_body r) of
             None \<Rightarrow> None
           | Some ev \<Rightarrow>
               (if valid_event (trim_event ev)
                then marshal_event (ae_zone e) (ae_now e) (trim_event ev) prev else None))
     else None)"

lemma LogHandler_no_line:
  assumes "request_line e r (as_last_hash s) = None"
  shows "snd (LogHandler e w r s) = s" and "status_of (fst (LogHandler e w r s)) \<in> {400, 405, 500}"
  using assms unfolding request_line_def LogHandler_def valid_event_def
  by (auto simp: Let_def split: if_splits option.splits)

lemma LogHandler_line:
  assumes "request_line e r (as_last_hash s) = Some d"
  shows "LogHandler e w r s =
    (case ae_write e of
       Write_failed n \<Rightarrow> (Http_Error 500 ''Write error'',
         \<lparr>as_file = as_file s @ take n (d @ [newline]), as_last_hash = line_hash d\<rparr>)
     | Written \<Rightarrow> (Status_Only 201,
         \<lparr>as_file = as_file s @ d @ [newline], as_last_hash = line_hash d\<rparr>))"
proof -
  obtain ev where ev: "rq_method r = ''POST''" "ae_decode e (rq_body r) = Some ev"
      "valid_event (trim_event ev)"
      "marshal_event (ae_zone e) (ae_now e) (trim_event ev) (as_last_hash s) = Some d"
    using assms by (auto simp: request_line_def split: if_splits option.splits)
  then show ?thesis
    by (cases s) (simp add: LogHandler_def valid_event_def Let_def split: write_result.splits)
qed

lemma request_line_shape:
  assumes "request_line e r prev = Some d" and "is_hash prev"
  shows "newline \<notin> set d" and "line_link d = prev" and "\<exists>pre. d = event_line pre prev"
proof -
  obtain ev ts where d: "d = event_line (event_prefix ts ev) prev" "marshal_time (ae_zone e) (ae_now e) = Some ts"
    using assms(1) by (auto simp: request_line_def marshal_event_def split: if_splits option.splits)
  have field: "printable (json_field k v) \<longleftrightarrow> printable k \<and> printable v" for k v
    by (auto simp: json_field_def dquote_def)
  have "printable (event_prefix ts ev)"
    using marshal_time_printable [OF d(2)] by (simp add: event_prefix_def field json_quote_printable)
  then have "printable d" by (simp add: d event_line_def json_quote_printable)
  then show "newline \<notin> set d" by (auto simp: newline_def dest: printable_no_newline)
  show "line_link d = prev" using assms(2) by (simp add: d line_link_event)
  show "\<exists>pre. d = event_line pre prev" using d by blast
qed

text \<open>A request is answered 201 exactly when it is a POST whose body decodes to an event that,
  after trimming, has an actor of 1 to 64 bytes, an action of the allowed form, a target of 1 to
  128 bytes and details of at most 4096 bytes, whose time can be written and whose write succeeds;
  and then the file grows by exactly one line, which holds the previous hash, whatever the event
  contains.\<close>

theorem audit_accepts_one_line:
  assumes "is_hash (as_last_hash s)"
  shows "(status_of (fst (LogHandler e w r s)) = 201 \<longleftrightarrow>
      rq_method r = ''POST'' \<and> ae_write e = Written \<and> marshal_time (ae_zone e) (ae_now e) \<noteq> None \<and>
      (\<exists>ev. ae_decode e (rq_body r) = Some ev \<and> valid_event (trim_event ev)))
    \<and> (status_of (fst (LogHandler e w r s)) = 201 \<longrightarrow>
      (\<exists>d. as_file (snd (LogHandler e w r s)) = as_file s @ d @ [newline] \<and> newline \<notin> set d \<and>
        line_link d = as_last_hash s \<and> as_last_hash (snd (LogHandler e w r s)) = line_hash d))"
proof (cases "request_line e r (as_last_hash s)")
  case None
  have "\<not> (rq_method r = ''POST'' \<and> marshal_time (ae_zone e) (ae_now e) \<noteq> None \<and>
      (\<exists>ev. ae_decode e (rq_body r) = Some ev \<and> valid_event (trim_event ev)))"
    using None by (auto simp: request_line_def marshal_event_def split: if_splits option.splits)
  moreover have "status_of (fst (LogHandler e w r s)) \<noteq> 201"
    using LogHandler_no_line(2) [OF None, of w] by auto
  ultimately show ?thesis by blast
next
  case (Some d)
  have ok: "rq_method r = ''POST'' \<and> marshal_time (ae_zone e) (ae_now e) \<noteq> None \<and>
      (\<exists>ev. ae_decode e (rq_body r) = Some ev \<and> valid_event (trim_event ev))"
    using Some by (auto simp: request_line_def marshal_event_def split: if_splits option.splits)
  show ?thesis
    using ok request_line_shape [OF Some assms]
    by (cases "ae_write e") (simp_all add: LogHandler_line [OF Some])
qed

lemma request_line_any_prev: "request_line e r p \<noteq> None \<longleftrightarrow> request_line e r p' \<noteq> None"
  by (simp add: request_line_def marshal_event_def split: option.splits)

definition ex_audit_env :: "write_result \<Rightarrow> audit_env" where
  "ex_audit_env wr =
    \<lparr>ae_now = 1709210096 * second, ae_zone = 0,
     ae_decode = (\<lambda>b. Some \<lparr>ev_actor = b, ev_action = ''user.login'', ev_target = ''admin'',
                            ev_details = [newline]\<rparr>),
     ae_write = wr\<rparr>"

definition ex_audit_req :: request where
  "ex_audit_req = \<lparr>rq_method = ''POST'', rq_path = ''/log'', rq_header = (\<lambda>_. []),
     rq_query = (\<lambda>_. []), rq_remote = [], rq_body = ''alice''\<rparr>"

lemma ex_request_line: "\<exists>d. request_line (ex_audit_env wr) ex_audit_req p = Some d"
proof -
  have "request_line (ex_audit_env wr) ex_audit_req [] \<noteq> None" by code_simp
  then have "request_line (ex_audit_env wr) ex_audit_req p \<noteq> None"
    using request_line_any_prev by blast
  then show ?thesis by simp
qed

definition ex_writer0 :: writer where "ex_writer0 = \<lparr>can_hijack = False\<rparr>"

theorem audit_accepts_one_line_witness:
  "status_of (fst (LogHandler (ex_audit_env Written) ex_writer0 ex_audit_req (NewAuditService [])))
    = 201"
proof -
  have "is_hash (as_last_hash (NewAuditService []))"
    by (simp add: NewAuditService_def genesis_is_hash)
  moreover have "rq_method ex_audit_req = ''POST''" "ae_write (ex_audit_env Written) = Written"
    "marshal_time (ae_zone (ex_audit_env Written)) (ae_now (ex_audit_env Written)) \<noteq> None"
    "\<exists>ev. ae_decode (ex_audit_env Written) (rq_body ex_audit_req) = Some ev \<and>
      valid_event (trim_event ev)"
  proof -
    show "rq_method ex_audit_req = ''POST''" "ae_write (ex_audit_env Written) = Written"
      by (simp_all add: ex_audit_req_def ex_audit_env_def)
    show "marshal_time (ae_zone (ex_audit_env Written)) (ae_now (ex_audit_env Written)) \<noteq> None"
      by code_simp
    have "case ae_decode (ex_audit_env Written) (rq_body ex_audit_req) of
        None \<Rightarrow> False | Some ev \<Rightarrow> valid_event (trim_event ev)" by code_simp
    then show "\<exists>ev. ae_decode (ex_audit_env Written) (rq_body ex_audit_req) = Some ev \<and>
      valid_event (trim_event ev)" by (simp split: option.splits)
  qed
  ultimately show ?thesis
    using audit_accepts_one_line [of "NewAuditService []" "ex_audit_env Written" ex_writer0 ex_audit_req]
    by blast
qed

subsection \<open>Runs\<close>

type_synonym audit_request = "audit_env \<times> writer \<times> request"

definition audit_run :: "audit_request list \<Rightarrow> audit_service \<Rightarrow> audit_service" where
  "audit_run rs s = foldl (\<lambda>s (e, w, r). snd (LogHandler e w r s)) s rs"

definition verifies :: "string list \<Rightarrow> bool" where
  "verifies ls = linked line_hash line_link genesis_hash ls"

definition audit_inv :: "audit_service \<Rightarrow> string list \<Rightarrow> bool" where
  [inv_simps]: "audit_inv s ls \<longleftrightarrow>
    as_file s = unlines ls \<and> (\<forall>l\<in>set ls. newline \<notin> set l) \<and> verifies ls \<and>
    as_last_hash s = chain_head line_hash genesis_hash ls"

lemma audit_inv_hash: "audit_inv s ls \<Longrightarrow> is_hash (as_last_hash s)"
  using chain.wf_head [of ls] by (simp add: audit_inv_def)

lemma audit_inv_lines: "audit_inv s ls \<Longrightarrow> read_lines (as_file s) = ls"
  by (simp add: audit_inv_def read_unlines)

lemma audit_inv_step:
  assumes "audit_inv s ls" and "ae_write e = Written"
  shows "\<exists>ks. audit_inv (snd (LogHandler e w r s)) (ls @ ks)"
proof (cases "request_line e r (as_last_hash s)")
  case None
  then have "snd (LogHandler e w r s) = s" by (rule LogHandler_no_line(1))
  with assms(1) show ?thesis by (intro exI [of _ "[]"]) simp
next
  case (Some d)
  note d = request_line_shape [OF Some audit_inv_hash [OF assms(1)]]
  have "audit_inv (snd (LogHandler e w r s)) (ls @ [d])"
    using assms d(1,2)
    by (auto simp: LogHandler_line [OF Some] audit_inv_def verifies_def linked_snoc)
  then show ?thesis by blast
qed

lemma audit_inv_run:
  assumes "\<forall>(e, w, r)\<in>set rs. ae_write e = Written" and "audit_inv s ls"
  shows "\<exists>ks. audit_inv (audit_run rs s) (ls @ ks)"
  using assms
proof (induction rs arbitrary: s ls)
  case Nil
  then show ?case by (intro exI [of _ "[]"]) (simp add: audit_run_def)
next
  case (Cons q rs)
  obtain e w r where q: "q = (e, w, r)" by (cases q)
  have "ae_write e = Written" using Cons.prems(1) q by simp
  from audit_inv_step [OF Cons.prems(2) this, of w r] obtain ms where
    "audit_inv (snd (LogHandler e w r s)) (ls @ ms)" ..
  from Cons.IH [OF _ this] Cons.prems(1) q obtain ks where
    "audit_inv (audit_run rs (snd (LogHandler e w r s))) (ls @ ms @ ks)"
    by auto
  then show ?case by (auto simp: audit_run_def q)
qed

lemma audit_inv_new: "audit_inv (NewAuditService []) []"
  by (simp add: audit_inv_def NewAuditService_def verifies_def)



subsection \<open>Write errors and restarts\<close>

text \<open>A write error loses the entry but keeps its hash: the next accepted entry carries the
  hash of the lost one, so the log verifies only if the lost line has the digest of the last line
  that is on disk.\<close>

theorem write_error_breaks_chain:
  assumes "audit_inv s ls"
    and "request_line e1 r1 (as_last_hash s) = Some lost" and "ae_write e1 = Write_failed 0"
    and "request_line e2 r2 (line_hash lost) = Some d" and "ae_write e2 = Written"
    and "s' = audit_run [(e1, w, r1), (e2, w, r2)] s"
  shows "read_lines (as_file s') = ls @ [d] \<and> line_link d = line_hash lost \<and>
    (verifies (read_lines (as_file s')) \<longleftrightarrow> line_hash lost = chain_head line_hash genesis_hash ls)"
proof -
  note d = request_line_shape [OF assms(4) line_hash_is_hash]
  have step1: "snd (LogHandler e1 w r1 s) = \<lparr>as_file = as_file s, as_last_hash = line_hash lost\<rparr>"
    by (simp add: LogHandler_line [OF assms(2)] assms(3))
  have "as_file s' = as_file s @ d @ [newline]"
    using assms(4,5) LogHandler_line [of e2 r2 "snd (LogHandler e1 w r1 s)" d w]
    by (simp add: audit_run_def step1 assms(6))
  then have "as_file s' = unlines (ls @ [d])" using assms(1) by (simp add: audit_inv_def)
  then have "read_lines (as_file s') = ls @ [d]"
    using assms(1) d(1) by (simp only:) (rule read_unlines, auto simp: audit_inv_def)
  moreover have "verifies (ls @ [d]) \<longleftrightarrow> line_hash lost = chain_head line_hash genesis_hash ls"
    using assms(1) d(2) by (auto simp: verifies_def linked_snoc audit_inv_def)
  ultimately show ?thesis using d(2) by simp
qed

theorem write_error_breaks_chain_witness:
  "\<exists>lost d. read_lines (as_file (audit_run
      [(ex_audit_env (Write_failed 0), ex_writer0, ex_audit_req), (ex_audit_env Written, ex_writer0, ex_audit_req)]
      (NewAuditService []))) = [d] \<and> line_link d = line_hash lost"
proof -
  obtain lost where lost: "request_line (ex_audit_env (Write_failed 0)) ex_audit_req
      (as_last_hash (NewAuditService [])) = Some lost" using ex_request_line by blast
  obtain d where d: "request_line (ex_audit_env Written) ex_audit_req (line_hash lost) = Some d"
    using ex_request_line by blast
  have w: "ae_write (ex_audit_env x) = x" for x by (simp add: ex_audit_env_def)
  from write_error_breaks_chain [OF audit_inv_new lost w d w refl, of ex_writer0]
  show ?thesis by auto
qed

text \<open>A restarted service links its first entry to the genesis hash, not to the file's last
  line: a log with entries from before the restart verifies only if its last line's digest is the
  genesis hash.\<close>

theorem restart_breaks_chain:
  assumes "audit_inv s ls" and "ls \<noteq> []"
    and "request_line e r genesis_hash = Some d" and "ae_write e = Written"
    and "s' = audit_run [(e, w, r)] (NewAuditService (as_file s))"
  shows "read_lines (as_file s') = ls @ [d] \<and>
    (verifies (read_lines (as_file s')) \<longleftrightarrow> line_hash (last ls) = genesis_hash)"
proof -
  note d = request_line_shape [OF assms(3) genesis_is_hash]
  have "as_file s' = as_file s @ d @ [newline]"
    using assms(3,4) LogHandler_line [of e r "NewAuditService (as_file s)" d w]
    by (simp add: audit_run_def assms(5) NewAuditService_def)
  then have "as_file s' = unlines (ls @ [d])" using assms(1) by (simp add: audit_inv_def)
  then have "read_lines (as_file s') = ls @ [d]"
    using assms(1) d(1) by (simp only:) (rule read_unlines, auto simp: audit_inv_def)
  moreover have "verifies (ls @ [d]) \<longleftrightarrow> line_hash (last ls) = genesis_hash"
    using assms(1,2) d(2) by (auto simp: verifies_def linked_snoc audit_inv_def chain_head_def)
  ultimately show ?thesis by simp
qed

theorem restart_breaks_chain_witness:
  "\<exists>ls d. ls \<noteq> [] \<and> read_lines (as_file (audit_run [(ex_audit_env Written, ex_writer0, ex_audit_req)]
      (NewAuditService (unlines ls)))) = ls @ [d] \<and> line_link d = genesis_hash"
proof -
  have w: "ae_write (ex_audit_env Written) = Written" by (simp add: ex_audit_env_def)
  obtain d where d: "request_line (ex_audit_env Written) ex_audit_req genesis_hash = Some d"
    using ex_request_line by blast
  note shape = request_line_shape [OF d genesis_is_hash]
  let ?s = "\<lparr>as_file = unlines [d], as_last_hash = line_hash d\<rparr>"
  have inv: "audit_inv ?s [d]"
    using shape by (simp add: audit_inv_def verifies_def chain_head_def)
  have "as_file ?s = unlines [d]" by simp
  from restart_breaks_chain [OF inv _ d w refl, of ex_writer0] shape(2) show ?thesis
    by (intro exI [of _ "[d]"] exI [of _ d]) simp
qed

end
