(* ===== verification/Base64.thy ===== *)
theory Base64
  imports GoStrings
begin

section \<open>Base64\<close>

text \<open>
  \<open>base64.RawStdEncoding\<close>: encoding, and decoding as Go does it (carriage returns and newlines
  are skipped, a padding character is an error, trailing bits are ignored).
\<close>

definition b64_alphabet :: string where
  "b64_alphabet = ''ABCDEFGHIJKLMNOPQRSTUVWXYZabcdefghijklmnopqrstuvwxyz0123456789+/''"

definition b64_char :: "nat \<Rightarrow> char" where
  "b64_char n = b64_alphabet ! n"

definition b64_value :: "char \<Rightarrow> nat option" where
  "b64_value c =
    (let n = (of_char c :: nat)
     in if 65 \<le> n \<and> n \<le> 90 then Some (n - 65)
        else if 97 \<le> n \<and> n \<le> 122 then Some (n - 71)
        else if 48 \<le> n \<and> n \<le> 57 then Some (n + 4)
        else if n = 43 then Some 62
        else if n = 47 then Some 63
        else None)"

abbreviation byte :: "char \<Rightarrow> nat" where
  "byte c \<equiv> of_char c"

fun b64_encode :: "string \<Rightarrow> string" where
  "b64_encode [] = []"
| "b64_encode [a] = [b64_char (byte a div 4), b64_char (byte a mod 4 * 16)]"
| "b64_encode [a, b] =
    [b64_char (byte a div 4), b64_char (byte a mod 4 * 16 + byte b div 16),
     b64_char (byte b mod 16 * 4)]"
| "b64_encode (a # b # c # s) =
    b64_char (byte a div 4) # b64_char (byte a mod 4 * 16 + byte b div 16)
      # b64_char (byte b mod 16 * 4 + byte c div 64) # b64_char (byte c mod 64) # b64_encode s"

fun b64_values :: "string \<Rightarrow> nat list option" where
  "b64_values [] = Some []"
| "b64_values (c # s) =
    (case b64_value c of
       None \<Rightarrow> None
     | Some v \<Rightarrow> (case b64_values s of None \<Rightarrow> None | Some vs \<Rightarrow> Some (v # vs)))"

fun b64_bytes :: "nat list \<Rightarrow> string option" where
  "b64_bytes [] = Some []"
| "b64_bytes [_] = None"
| "b64_bytes [v, w] = Some [char_of (v * 4 + w div 16)]"
| "b64_bytes [v, w, x] = Some [char_of (v * 4 + w div 16), char_of (w mod 16 * 16 + x div 4)]"
| "b64_bytes (v # w # x # y # vs) =
    (case b64_bytes vs of
       None \<Rightarrow> None
     | Some s \<Rightarrow> Some (char_of (v * 4 + w div 16) # char_of (w mod 16 * 16 + x div 4)
                        # char_of (x mod 4 * 64 + y) # s))"

definition b64_decode :: "string \<Rightarrow> string option" where
  "b64_decode s =
    (case b64_values (filter (\<lambda>c. c \<noteq> CHR 0x0A \<and> c \<noteq> CHR 0x0D) s) of
       None \<Rightarrow> None
     | Some vs \<Rightarrow> b64_bytes vs)"

text \<open>\<open>base64.StdEncoding\<close>, with padding.  Its decoder skips the same characters and takes as many padding
  characters at the end as complete a group of four.\<close>

definition b64_std :: "string \<Rightarrow> string" where
  "b64_std s = b64_encode s @ replicate ((3 - length s mod 3) mod 3) CHR ''=''"

definition std_decode :: "string \<Rightarrow> string option" where
  "std_decode s =
    (let t = filter (\<lambda>c. c \<noteq> CHR 0x0A \<and> c \<noteq> CHR 0x0D) s;
         body = takeWhile (\<lambda>c. c \<noteq> CHR ''='') t
     in if drop (length body) t = replicate ((4 - length body mod 4) mod 4) CHR ''='' then b64_decode body else None)"

lemma b64_table: "map b64_value b64_alphabet = map Some [0..<64]"
  by (simp add: b64_alphabet_def b64_value_def upt_rec)

lemma b64_char_value [simp]: assumes "n < 64" shows "b64_value (b64_char n) = Some n"
proof -
  have len: "length b64_alphabet = 64" using arg_cong [OF b64_table, of length] by simp
  have "map b64_value b64_alphabet ! n = Some n" using assms by (simp add: b64_table)
  then show ?thesis using assms len by (simp add: b64_char_def)
qed

lemma b64_char_plain: "n < 64 \<Longrightarrow> b64_value x = None \<Longrightarrow> b64_char n \<noteq> x"
  using b64_char_value [of n] by auto

lemma b64_reserved [simp]:
  "b64_value (CHR 0x0A) = None" "b64_value (CHR 0x0D) = None" "b64_value (CHR ''$'') = None"
  by (simp_all add: b64_value_def)

lemma byte_less [simp]: "byte a < 256"
  using nat_of_char_less_256 .

lemma byte_div4 [simp]: "byte a div 4 < 64" and byte_div16: "byte a div 16 < 16"
  and byte_div64: "byte a div 64 < 4"
  by (simp_all add: less_mult_imp_div_less)

lemma byte_parts [simp]:
  "16 * (byte a mod 4) < 64" "4 * (byte a mod 16) < 64"
  "16 * (byte a mod 4) + byte b div 16 < 64" "4 * (byte b mod 16) + byte c div 64 < 64"
proof -
  have "byte a mod 4 < 4" "byte a mod 16 < 16" "byte b mod 16 < 16" by simp_all
  then show "16 * (byte a mod 4) < 64" "4 * (byte a mod 16) < 64"
    "16 * (byte a mod 4) + byte b div 16 < 64" "4 * (byte b mod 16) + byte c div 64 < 64"
    using byte_div16 [of b] byte_div64 [of c] by linarith+
qed

lemma byte_join [simp]:
  "byte b div 16 div 16 = 0" "byte c div 64 div 4 = 0"
  "16 * (byte b div 16 mod 16) + byte b mod 16 = byte b"
  "64 * (byte c div 64 mod 4) + byte c mod 64 = byte c"
proof -
  show "byte b div 16 div 16 = 0" "byte c div 64 div 4 = 0"
    using byte_div16 [of b] byte_div64 [of c] by simp_all
  show "16 * (byte b div 16 mod 16) + byte b mod 16 = byte b"
    "64 * (byte c div 64 mod 4) + byte c mod 64 = byte c"
    using byte_div16 [of b] byte_div64 [of c] by simp_all
qed

lemma b64_encode_plain:
  "set (b64_encode s) \<inter> {CHR 0x0A, CHR 0x0D, CHR ''$''} = {}"
proof (induction s rule: b64_encode.induct)
  case (4 a b c s)
  then show ?case by (simp add: b64_char_plain mult.commute)
qed (simp_all add: b64_char_plain mult.commute)

lemma b64_values_encode:
  "b64_values (b64_encode s) = Some vs \<Longrightarrow> b64_bytes vs = Some s"
proof (induction s arbitrary: vs rule: b64_encode.induct)
  case (3 a b)
  then show ?case by (auto simp: mult.commute)
next
  case (4 a b c s)
  then show ?case by (auto simp: mult.commute split: option.splits)
qed auto

lemma b64_values_some: "\<exists>vs. b64_values (b64_encode s) = Some vs"
  by (induction s rule: b64_encode.induct) (auto simp: mult.commute)

lemma b64_roundtrip [simp]: "b64_decode (b64_encode s) = Some s"
proof -
  have "filter (\<lambda>c. c \<noteq> CHR 0x0A \<and> c \<noteq> CHR 0x0D) (b64_encode s) = b64_encode s"
    using b64_encode_plain [of s] by (intro filter_True) blast
  with b64_values_some [of s] b64_values_encode [of s] show ?thesis
    by (auto simp: b64_decode_def)
qed

lemma b64_encode_length: "length (b64_encode s) = (4 * length s + 2) div 3"
  by (induction s rule: b64_encode.induct) simp_all

lemma pad_length: "(4 - (4 * n + 2) div 3 mod 4) mod 4 = (3 - n mod 3) mod (3::nat)"
proof -
  obtain q r where n: "n = 3 * q + r" "r < 3" by (metis div_mult_mod_eq mod_less_divisor mult.commute zero_less_numeral)
  have "(4 * n + 2) div 3 = 4 * q + (4 * r + 2) div 3" unfolding n(1) by simp
  moreover have "r = 0 \<or> r = 1 \<or> r = 2" using n(2) by auto
  ultimately show ?thesis using n(1) by auto
qed

lemma b64_encode_values: "c \<in> set (b64_encode s) \<Longrightarrow> b64_value c \<noteq> None"
  by (induction s rule: b64_encode.induct) (auto simp: mult.commute)

lemma b64_encode_no_pad: "CHR ''='' \<notin> set (b64_encode s)"
  using b64_encode_values [of "CHR ''=''" s] by (auto simp: b64_value_def)

lemma std_roundtrip [simp]: "std_decode (b64_std s) = Some s"
proof -
  let ?Q = "\<lambda>c. c \<noteq> CHR 0x0A \<and> c \<noteq> CHR 0x0D" and ?k = "(3 - length s mod 3) mod 3"
  have "filter ?Q (b64_encode s) = b64_encode s" using b64_encode_plain [of s] by (intro filter_True) blast
  then have "filter ?Q (b64_std s) = b64_encode s @ replicate ?k (CHR ''='')"
    unfolding b64_std_def by (simp add: filter_id_conv)
  moreover have "takeWhile (\<lambda>c. c \<noteq> CHR ''='') (b64_encode s @ replicate ?k (CHR ''='')) = b64_encode s"
    using b64_encode_no_pad [of s] by (subst takeWhile_append2) (auto simp: takeWhile_eq_Nil_iff)
  ultimately show ?thesis using pad_length [of "length s"] by (simp add: std_decode_def b64_encode_length)
qed

end
