(* ===== verification/Auth.thy ===== *)
theory Auth
  imports PlatformDB Trace Base64
begin

section \<open>The auth service: passwords, registration, login\<close>

text \<open>
  \<open>services/auth/{main,crypto,token}.go\<close> over the shared database.  Argon2, bcrypt, the JWT library, the
  JSON decoders, the clock, the random source and the UUID generator are arguments (\<open>auth_env\<close>).
  A function that returns a value and an error is an option.  \<open>argon2.IDKey\<close> panics for zero rounds
  or threads; the hashes that \<open>HashPassword\<close> writes have neither, and no service writes others.
\<close>

record register_request =
  rr_username :: string
  rr_full_name :: string
  rr_password :: string
  rr_role :: string

record login_request =
  lr_username :: string
  lr_password :: string

record token_claims =
  tk_username :: string
  tk_role :: string
  tk_expires :: instant
  tk_issuer :: string

record auth_env =
  au_argon2 :: "string \<Rightarrow> string \<Rightarrow> nat \<Rightarrow> nat \<Rightarrow> nat \<Rightarrow> nat \<Rightarrow> string"
  au_argon2_version :: nat
  au_bcrypt :: "string \<Rightarrow> string \<Rightarrow> bool"
  au_salt :: "string option"
  au_sign :: "string \<Rightarrow> token_claims \<Rightarrow> string option"
  au_uuid :: string
  au_now :: instant
  au_fault :: bool
  au_decode_register :: "string \<Rightarrow> register_request option"
  au_decode_login :: "string \<Rightarrow> login_request option"

datatype auth_payload = P_Id string | P_Token string string string | P_AuthText string

subsection \<open>Decimal numbers and \<open>Sscanf\<close>\<close>

fun dec :: "nat \<Rightarrow> string" where
  "dec n = (if n < 10 then [char_of (48 + n)] else dec (n div 10) @ [char_of (48 + n mod 10)])"

declare dec.simps [simp del]

definition is_digit :: "char \<Rightarrow> bool" where
  "is_digit c \<longleftrightarrow> 48 \<le> (of_char c :: nat) \<and> (of_char c :: nat) \<le> 57"

definition digits_value :: "string \<Rightarrow> nat" where
  "digits_value ds = foldl (\<lambda>n c. n * 10 + (of_char c - 48)) 0 ds"

text \<open>\<open>%d\<close> into an unsigned variable of the given width: leading spaces are skipped, a newline is an
  error, and so is a number that does not fit.\<close>

definition scan_uint :: "nat \<Rightarrow> string \<Rightarrow> (nat \<times> string) option" where
  "scan_uint bits s =
    (let t = trim_left (takeWhile (\<lambda>c. c \<noteq> CHR 0x0A) s) @ dropWhile (\<lambda>c. c \<noteq> CHR 0x0A) s;
         ds = takeWhile is_digit t
     in if ds = [] \<or> digits_value ds \<ge> 2 ^ bits then None
        else Some (digits_value ds, dropWhile is_digit t))"

definition scan_lit :: "string \<Rightarrow> string \<Rightarrow> string option" where
  "scan_lit lit s = (if prefix lit s then Some (drop (length lit) s) else None)"

text \<open>\<open>fmt.Sscanf(s, "m=%d,t=%d,p=%d", &memory, &timeParam, &threads)\<close>.\<close>

definition scan_params :: "string \<Rightarrow> (nat \<times> nat \<times> nat) option" where
  "scan_params s =
    (case scan_lit ''m='' s of None \<Rightarrow> None | Some s1 \<Rightarrow>
     (case scan_uint 32 s1 of None \<Rightarrow> None | Some (m, s2) \<Rightarrow>
     (case scan_lit '',t='' s2 of None \<Rightarrow> None | Some s3 \<Rightarrow>
     (case scan_uint 32 s3 of None \<Rightarrow> None | Some (t, s4) \<Rightarrow>
     (case scan_lit '',p='' s4 of None \<Rightarrow> None | Some s5 \<Rightarrow>
     (case scan_uint 8 s5 of None \<Rightarrow> None | Some (p, s6) \<Rightarrow> Some (m, t, p)))))))"

subsection \<open>Passwords\<close>

record password_config =
  pc_time :: nat
  pc_memory :: nat
  pc_threads :: nat
  pc_key_len :: nat

definition defaultConfig :: password_config where
  "defaultConfig = \<lparr>pc_time = 1, pc_memory = 64 * 1024, pc_threads = 4, pc_key_len = 32\<rparr>"

definition HashPassword :: "auth_env \<Rightarrow> string \<Rightarrow> string option" where
  "HashPassword e password =
    (case au_salt e of
       None \<Rightarrow> None
     | Some salt \<Rightarrow>
         (let c = defaultConfig;
              hash = au_argon2 e password salt (pc_time c) (pc_memory c) (pc_threads c) (pc_key_len c)
          in Some (''$argon2id$v='' @ dec (au_argon2_version e) @ ''$m='' @ dec (pc_memory c)
                   @ '',t='' @ dec (pc_time c) @ '',p='' @ dec (pc_threads c)
                   @ ''$'' @ b64_encode salt @ ''$'' @ b64_encode hash)))"

definition VerifyPassword :: "auth_env \<Rightarrow> string \<Rightarrow> string \<Rightarrow> bool option" where
  "VerifyPassword e password encoded =
    (if prefix ''$2a$'' encoded \<or> prefix ''$2b$'' encoded \<or> prefix ''$2y$'' encoded
     then Some (au_bcrypt e encoded password)
     else
       (let parts = split_on CHR ''$'' encoded in
        if length parts \<noteq> 6 then None
        else (case scan_params (parts ! 3) of
                None \<Rightarrow> None
              | Some (memory, time, threads) \<Rightarrow>
                  (case b64_decode (parts ! 4) of
                     None \<Rightarrow> None
                   | Some salt \<Rightarrow>
                       (case b64_decode (parts ! 5) of
                          None \<Rightarrow> None
                        | Some decoded \<Rightarrow>
                            (let comparison =
                               au_argon2 e password salt time memory threads (length decoded mod 2 ^ 32)
                             in Some (decoded = comparison)))))))"

subsection \<open>Tokens\<close>

definition jwtKey :: string where
  "jwtKey = ''my_secret_key''"

definition GenerateToken :: "auth_env \<Rightarrow> string \<Rightarrow> string \<Rightarrow> string option" where
  "GenerateToken e username role =
    au_sign e jwtKey
      \<lparr>tk_username = username, tk_role = role, tk_expires = au_now e + 24 * 60 * minute,
       tk_issuer = ''lan-chat-auth''\<rparr>"

text \<open>\<open>ValidateToken\<close>, which nothing calls; \<open>parse\<close> is \<open>jwt.ParseWithClaims\<close> under a key: the claims, and
  whether the token is valid.\<close>

definition ValidateToken ::
  "(string \<Rightarrow> string \<Rightarrow> (token_claims \<times> bool) option) \<Rightarrow> string \<Rightarrow> token_claims option" where
  "ValidateToken parse tokenString =
    (case parse jwtKey tokenString of
       None \<Rightarrow> None
     | Some (claims, valid) \<Rightarrow> (if \<not> valid then None else Some claims))"

lemma ValidateToken_GenerateToken:
  assumes "\<And>k c t. au_sign e k c = Some t \<Longrightarrow> parse k t = Some (c, now < tk_expires c)"
    and "GenerateToken e u r = Some t"
  shows "ValidateToken parse t =
    (if now < au_now e + 24 * 60 * minute
     then Some \<lparr>tk_username = u, tk_role = r, tk_expires = au_now e + 24 * 60 * minute,
       tk_issuer = ''lan-chat-auth''\<rparr>
     else None)"
  using assms(1) [OF assms(2) [unfolded GenerateToken_def]] by (simp add: ValidateToken_def)

subsection \<open>Handlers\<close>

definition usernamePattern :: "string \<Rightarrow> bool" where
  "usernamePattern = matches_class (\<lambda>c. is_alnum c \<or> c \<in> {CHR ''_'', CHR ''.'', CHR ''-''}) 3 32"

definition RegisterHandler :: "auth_env \<Rightarrow> (platform_db, auth_payload) handler" where
  "RegisterHandler e w r db =
    (if rq_method r \<noteq> ''POST'' then (Http_Error 405 ''Method not allowed'', db)
     else (case au_decode_register e (rq_body r) of
       None \<Rightarrow> (Http_Error 400 ''Invalid request'', db)
     | Some q \<Rightarrow>
         (let username = trim_space (rr_username q);
              fullName = trim_space (rr_full_name q);
              role = trim_space (rr_role q)
          in if \<not> usernamePattern username then (Http_Error 400 ''Invalid username format'', db)
             else if length (rr_password q) < 8 \<or> length (rr_password q) > 72
             then (Http_Error 400 ''Password length must be 8-72'', db)
             else if length fullName > 80 then (Http_Error 400 ''Full name too long'', db)
             else if length role > 40 then (Http_Error 400 ''Role too long'', db)
             else (case HashPassword e (rr_password q) of
                     None \<Rightarrow> (Http_Error 500 ''Server error'', db)
                   | Some hash \<Rightarrow>
                       (let now = unix_sec (au_now e);
                            row = \<lparr>usr_id = au_uuid e, usr_username = username,
                                   usr_full_name = Some fullName, usr_password_hash = hash,
                                   usr_role_id = Some role, usr_department_id = None,
                                   usr_created_at = now, usr_updated_at = now\<rparr>
                        in case exec_insert (au_fault e) ins_user row (t_users db) of
                             None \<Rightarrow> (Http_Error 409 ''User already exists or DB error'', db)
                           | Some us \<Rightarrow>
                               (Status_Json 201 (P_Id (au_uuid e)), db\<lparr>t_users := us\<rparr>))))))"

text \<open>\<open>COALESCE(r.name, u.role_id, 'user')\<close> of the LEFT JOIN with \<open>roles\<close>.\<close>

definition role_of :: "role_row list \<Rightarrow> user_row \<Rightarrow> string" where
  "role_of rs u =
    (case usr_role_id u of
       None \<Rightarrow> ''user''
     | Some i \<Rightarrow> (case find (\<lambda>r. rol_id r = i) rs of None \<Rightarrow> i | Some r \<Rightarrow> rol_name r))"

definition LoginHandler :: "auth_env \<Rightarrow> (platform_db, auth_payload) handler" where
  "LoginHandler e w r db =
    (if rq_method r \<noteq> ''POST'' then (Http_Error 405 ''Method not allowed'', db)
     else (case au_decode_login e (rq_body r) of
       None \<Rightarrow> (Http_Error 400 ''Invalid request'', db)
     | Some q \<Rightarrow>
         (let username = trim_space (lr_username q); password = lr_password q in
          if username = [] \<or> password = [] then (Http_Error 400 ''Missing credentials'', db)
          else if length username > 64 \<or> length password > 128
          then (Http_Error 400 ''Invalid credentials format'', db)
          else (case query_row (au_fault e) (\<lambda>u. usr_username u = username) (t_users db) of
                  Inl _ \<Rightarrow> (Http_Error 401 ''Invalid credentials'', db)
                | Inr u \<Rightarrow>
                    (case query False (t_roles db) of
                       Inl _ \<Rightarrow> (Http_Error 401 ''Invalid credentials'', db)
                     | Inr rs \<Rightarrow>
                         (if VerifyPassword e password (usr_password_hash u) \<noteq> Some True
                          then (Http_Error 401 ''Invalid credentials'', db)
                          else (case GenerateToken e (usr_username u) (role_of rs u) of
                                  None \<Rightarrow> (Http_Error 500 ''Server error'', db)
                                | Some tok \<Rightarrow>
                                    (Json (P_Token tok (usr_id u) (role_of rs u)), db))))))))"

text \<open>\<open>True\<close>: no error.  The two statements can fail separately.\<close>

definition ensureDefaultUser ::
  "auth_env \<Rightarrow> bool \<Rightarrow> string \<Rightarrow> string \<Rightarrow> string \<Rightarrow> platform_db \<Rightarrow> bool \<times> platform_db" where
  "ensureDefaultUser e f0 username password role db =
    (case query_exists f0 (\<lambda>u. usr_username u = username) (t_users db) of
       Inl _ \<Rightarrow> (False, db)
     | Inr exists \<Rightarrow>
         (if exists then (True, db)
          else (case HashPassword e password of
                  None \<Rightarrow> (False, db)
                | Some hash \<Rightarrow>
                    (let now = unix_sec (au_now e);
                         row = \<lparr>usr_id = au_uuid e, usr_username = username,
                                usr_full_name = Some ''Administrator'', usr_password_hash = hash,
                                usr_role_id = Some role, usr_department_id = None,
                                usr_created_at = now, usr_updated_at = now\<rparr>
                     in case exec_insert (au_fault e) ins_user row (t_users db) of
                          None \<Rightarrow> (False, db)
                        | Some us \<Rightarrow> (True, db\<lparr>t_users := us\<rparr>)))))"

text \<open>What \<open>main\<close> does before it serves.\<close>

definition auth_main_init :: "auth_env \<Rightarrow> bool \<Rightarrow> platform_db \<Rightarrow> platform_db" where
  "auth_main_init e f0 db =
    snd (ensureDefaultUser e f0 ''admin'' ''password'' ''admin'' (auth_initDB db))"

definition auth_healthHandler :: "(platform_db, auth_payload) handler" where
  "auth_healthHandler w r db = (Status_Json 200 (P_AuthText ''Auth Service is running''), db)"

end
