(* ===== verification/AuthProps.thy ===== *)
theory AuthProps
  imports Auth
begin

section \<open>Correctness of the auth service\<close>

text \<open>
  A stored hash accepts exactly the passwords with the same Argon2 digest; a registered user can
  log in and gets a token for the registered role; a token is only issued against a verified
  password; registration never touches another user; the default account is created once.
\<close>

subsection \<open>Passwords\<close>

lemma dec_is_digit: "list_all is_digit (dec n)"
proof (induction n rule: dec.induct)
  case (1 n)
  have "is_digit (char_of (48 + m))" if "m < 10" for m :: nat
    using that by (simp add: is_digit_def take_bit_eq_mod)
  with 1 show ?case by (subst dec.simps) simp
qed

lemma dec_no_dollar: "CHR ''$'' \<notin> set (dec n)"
  using dec_is_digit [of n] by (auto simp: list_all_iff is_digit_def)

definition params_text :: string where
  "params_text = ''m='' @ dec (pc_memory defaultConfig) @ '',t='' @ dec (pc_time defaultConfig)
     @ '',p='' @ dec (pc_threads defaultConfig)"

lemma params_text_eq: "params_text = ''m=65536,t=1,p=4''"
  by (simp add: params_text_def defaultConfig_def dec.simps char_of_def bit_0)

lemma trim_left_digit: "is_digit c \<Longrightarrow> trim_left (c # s) = c # s"
  by (rule trim_left_id) (auto simp: space_encodings_def is_digit_def)

lemma scan_default_params: "scan_params params_text = Some (65536, 1, 4)"
  by (simp add: params_text_eq scan_params_def scan_lit_def scan_uint_def trim_left_digit
      is_digit_def digits_value_def)

definition digest :: "auth_env \<Rightarrow> string \<Rightarrow> string \<Rightarrow> string" where
  "digest e password salt =
    au_argon2 e password salt (pc_time defaultConfig) (pc_memory defaultConfig)
      (pc_threads defaultConfig) (pc_key_len defaultConfig)"

text \<open>The text of a hash, as five fields after dollar signs.\<close>

definition dollar_fields :: "string \<Rightarrow> string \<Rightarrow> string \<Rightarrow> string \<Rightarrow> string \<Rightarrow> string" where
  "dollar_fields a b c d e =
    CHR ''$'' # a @ CHR ''$'' # b @ CHR ''$'' # c @ CHR ''$'' # d @ CHR ''$'' # e"

lemma split_dollar_fields:
  assumes "\<forall>x\<in>{a, b, c, d, e}. CHR ''$'' \<notin> set x"
  shows "split_on CHR ''$'' (dollar_fields a b c d e) = [[], a, b, c, d, e]"
  using assms by (simp add: dollar_fields_def split_on_append split_on_no_sep)

lemma HashPassword_Some:
  "HashPassword e p = Some h \<longleftrightarrow> (\<exists>salt. au_salt e = Some salt \<and>
    h = dollar_fields ''argon2id'' (''v='' @ dec (au_argon2_version e)) params_text
          (b64_encode salt) (b64_encode (digest e p salt)))"
  by (cases "au_salt e")
     (auto simp: HashPassword_def digest_def params_text_def dollar_fields_def Let_def)

lemma b64_no_dollar: "CHR ''$'' \<notin> set (b64_encode s)"
  using b64_encode_plain [of s] by blast

lemma split_hash:
  "split_on CHR ''$'' (dollar_fields ''argon2id'' (''v='' @ dec n) params_text
      (b64_encode salt) (b64_encode hash))
    = [[], ''argon2id'', ''v='' @ dec n, params_text, b64_encode salt, b64_encode hash]"
  by (rule split_dollar_fields) (simp add: b64_no_dollar dec_no_dollar params_text_def)

definition argon2_length :: "auth_env \<Rightarrow> bool" where
  "argon2_length e \<longleftrightarrow> (\<forall>pw s t m p k. length (au_argon2 e pw s t m p k) = k)"

lemma verify_hash:
  assumes len: "argon2_length e" and h: "HashPassword e p = Some h" and salt: "au_salt e = Some salt"
    and same: "au_argon2 e' = au_argon2 e"
  shows "VerifyPassword e' p' h = Some (digest e p' salt = digest e p salt)"
proof -
  let ?d = "digest e p salt"
  have h': "h = dollar_fields ''argon2id'' (''v='' @ dec (au_argon2_version e)) params_text
          (b64_encode salt) (b64_encode ?d)"
    using h salt by (auto simp: HashPassword_Some)
  have pre: "\<not> prefix ''$2a$'' h" "\<not> prefix ''$2b$'' h" "\<not> prefix ''$2y$'' h"
    by (simp_all add: h' dollar_fields_def)
  note parts = split_hash [of "au_argon2_version e" salt ?d, folded h']
  have "length ?d = 32"
    using len by (simp add: argon2_length_def digest_def defaultConfig_def)
  then have "VerifyPassword e' p' h = Some (?d = au_argon2 e p' salt 1 65536 4 32)"
    using pre by (simp add: VerifyPassword_def parts scan_default_params same Let_def)
  then show ?thesis by (simp add: digest_def defaultConfig_def eq_commute)
qed

text \<open>A password verifies against a stored hash exactly when Argon2 gives it the digest of the
  password that was hashed, whatever salt was drawn; in particular the hashed password verifies,
  and the check of a stored hash never reports an error.\<close>

theorem password_roundtrip:
  assumes "argon2_length e" and "HashPassword e p = Some h" and "au_salt e = Some salt"
  shows "VerifyPassword e p' h = Some (digest e p' salt = digest e p salt)"
  using verify_hash [OF assms refl] .

definition ex_auth_env :: auth_env where
  "ex_auth_env = \<lparr>au_argon2 = (\<lambda>pw s t m p k. take k (pw @ replicate k CHR ''.'')),
     au_argon2_version = 19, au_bcrypt = (\<lambda>_ _. False), au_salt = Some ''0123456789abcdef'',
     au_sign = (\<lambda>k c. Some (k @ '':'' @ tk_username c @ '':'' @ tk_role c)), au_uuid = ''u1'',
     au_now = 0, au_fault = False,
     au_decode_register = (\<lambda>b. Some \<lparr>rr_username = b, rr_full_name = b, rr_password = ''s3cret-pw'',
       rr_role = ''admin''\<rparr>),
     au_decode_login = (\<lambda>b. Some \<lparr>lr_username = b, lr_password = ''s3cret-pw''\<rparr>)\<rparr>"

lemma ex_argon2_length: "argon2_length ex_auth_env"
  by (auto simp: argon2_length_def ex_auth_env_def min_def)

lemma ex_auth_env_simps:
  "au_salt ex_auth_env = Some ''0123456789abcdef''" "au_fault ex_auth_env = False"
  "au_uuid ex_auth_env = ''u1''"
  "au_decode_register ex_auth_env b = Some \<lparr>rr_username = b, rr_full_name = b,
     rr_password = ''s3cret-pw'', rr_role = ''admin''\<rparr>"
  "au_decode_login ex_auth_env b = Some \<lparr>lr_username = b, lr_password = ''s3cret-pw''\<rparr>"
  "au_sign ex_auth_env k c = Some (k @ '':'' @ tk_username c @ '':'' @ tk_role c)"
  by (simp_all add: ex_auth_env_def)

theorem password_roundtrip_witness:
  "\<exists>h. HashPassword ex_auth_env ''s3cret-pw'' = Some h \<and>
    VerifyPassword ex_auth_env ''s3cret-pw'' h = Some True \<and>
    VerifyPassword ex_auth_env ''other'' h = Some False"
proof -
  have salt: "au_salt ex_auth_env = Some ''0123456789abcdef''" by (simp add: ex_auth_env_def)
  then obtain h where h: "HashPassword ex_auth_env ''s3cret-pw'' = Some h"
    by (auto simp: HashPassword_Some)
  have "digest ex_auth_env ''other'' x \<noteq> digest ex_auth_env ''s3cret-pw'' x" for x
    by (simp add: digest_def ex_auth_env_def defaultConfig_def)
  with h password_roundtrip [OF ex_argon2_length h salt] show ?thesis by auto
qed

subsection \<open>Registration and login\<close>

lemma RegisterHandler_created:
  assumes "RegisterHandler e w r db = (Status_Json 201 x, db')"
  shows "\<exists>q hash us. au_decode_register e (rq_body r) = Some q \<and>
    usernamePattern (trim_space (rr_username q)) \<and>
    8 \<le> length (rr_password q) \<and> length (rr_password q) \<le> 72 \<and>
    HashPassword e (rr_password q) = Some hash \<and> x = P_Id (au_uuid e) \<and>
    t_users db = Some us \<and> au_uuid e \<notin> usr_id ` set us \<and>
    trim_space (rr_username q) \<notin> usr_username ` set us \<and>
    db' = db\<lparr>t_users := Some (us @ [\<lparr>usr_id = au_uuid e, usr_username = trim_space (rr_username q),
      usr_full_name = Some (trim_space (rr_full_name q)), usr_password_hash = hash,
      usr_role_id = Some (trim_space (rr_role q)), usr_department_id = None,
      usr_created_at = unix_sec (au_now e), usr_updated_at = unix_sec (au_now e)\<rparr>])\<rparr>"
proof -
  let ?row = "\<lambda>q hash. \<lparr>usr_id = au_uuid e, usr_username = trim_space (rr_username q),
      usr_full_name = Some (trim_space (rr_full_name q)), usr_password_hash = hash,
      usr_role_id = Some (trim_space (rr_role q)), usr_department_id = None,
      usr_created_at = unix_sec (au_now e), usr_updated_at = unix_sec (au_now e)\<rparr>"
  obtain q where q: "au_decode_register e (rq_body r) = Some q"
    using assms by (auto simp: RegisterHandler_def split: if_splits option.splits)
  have "usernamePattern (trim_space (rr_username q)) \<and> 8 \<le> length (rr_password q) \<and>
      length (rr_password q) \<le> 72 \<and> (\<exists>hash t. HashPassword e (rr_password q) = Some hash \<and>
        exec_insert (au_fault e) ins_user (?row q hash) (t_users db) = Some t \<and>
        x = P_Id (au_uuid e) \<and> db' = db\<lparr>t_users := t\<rparr>)"
    using assms q
    by (auto simp: RegisterHandler_def Let_def not_less split: if_splits option.splits)
  then obtain hash t where h: "usernamePattern (trim_space (rr_username q))"
      "8 \<le> length (rr_password q)" "length (rr_password q) \<le> 72"
      "HashPassword e (rr_password q) = Some hash"
      "exec_insert (au_fault e) ins_user (?row q hash) (t_users db) = Some t"
      "x = P_Id (au_uuid e)" "db' = db\<lparr>t_users := t\<rparr>"
    by blast
  from users_by_id.insertD [OF h(5)] users_by_name.insertD [OF h(5)] h q show ?thesis by auto
qed

lemma RegisterHandler_refused:
  assumes "RegisterHandler e w r db = (rep, db')" and "status_of rep \<noteq> 201"
  shows "db' = db"
  using assms by (auto simp: RegisterHandler_def Let_def split: if_splits option.splits)

lemma LoginHandler_token:
  assumes "LoginHandler e w r db = (Json p, db')"
  shows "\<exists>q u rs tok. au_decode_login e (rq_body r) = Some q \<and>
    query_row (au_fault e) (\<lambda>u. usr_username u = trim_space (lr_username q)) (t_users db) = Inr u \<and>
    t_roles db = Some rs \<and> VerifyPassword e (lr_password q) (usr_password_hash u) = Some True \<and>
    GenerateToken e (usr_username u) (role_of rs u) = Some tok \<and>
    p = P_Token tok (usr_id u) (role_of rs u) \<and> db' = db"
proof -
  obtain q where q: "au_decode_login e (rq_body r) = Some q"
    using assms by (auto simp: LoginHandler_def split: if_splits option.splits)
  from assms show ?thesis
    unfolding LoginHandler_def q Let_def
    by (auto simp: query_def [of False] split: if_splits option.splits sum.splits)
qed

lemma LoginHandler_success:
  assumes "rq_method r = ''POST''" and "au_decode_login e (rq_body r) = Some q"
    and "trim_space (lr_username q) \<noteq> []" "length (trim_space (lr_username q)) \<le> 64"
    and "lr_password q \<noteq> []" "length (lr_password q) \<le> 128"
    and "\<not> au_fault e" and "t_users db = Some us" and "t_roles db = Some rs"
    and "find (\<lambda>u. usr_username u = trim_space (lr_username q)) us = Some u"
    and "VerifyPassword e (lr_password q) (usr_password_hash u) = Some True"
    and "GenerateToken e (usr_username u) (role_of rs u) = Some tok"
  shows "LoginHandler e w r db = (Json (P_Token tok (usr_id u) (role_of rs u)), db)"
  using assms by (simp add: LoginHandler_def query_row_def query_def Let_def)

lemma find_row:
  "query_row f P t = Inr x \<Longrightarrow> \<exists>rs. t = Some rs \<and> find P rs = Some x \<and> x \<in> set rs \<and> P x"
  by (auto simp: query_row_def query_def split: if_splits option.splits sum.splits dest: find_Some_in)

text \<open>A token is issued only to a request whose password verifies against the stored hash of
  the user it names, and it carries that user's name and role; a login changes nothing.\<close>

theorem login_needs_password:
  assumes "LoginHandler e w r db = (Json p, db')"
  shows "\<exists>q us rs u tok. au_decode_login e (rq_body r) = Some q \<and> t_users db = Some us \<and> u \<in> set us \<and>
    usr_username u = trim_space (lr_username q) \<and>
    VerifyPassword e (lr_password q) (usr_password_hash u) = Some True \<and> t_roles db = Some rs \<and>
    au_sign e jwtKey \<lparr>tk_username = usr_username u, tk_role = role_of rs u,
      tk_expires = au_now e + 24 * 60 * minute, tk_issuer = ''lan-chat-auth''\<rparr> = Some tok \<and>
    p = P_Token tok (usr_id u) (role_of rs u) \<and> db' = db"
proof -
  from LoginHandler_token [OF assms] obtain q u rs tok where
    q: "au_decode_login e (rq_body r) = Some q"
    "query_row (au_fault e) (\<lambda>u. usr_username u = trim_space (lr_username q)) (t_users db) = Inr u"
    "t_roles db = Some rs" "VerifyPassword e (lr_password q) (usr_password_hash u) = Some True"
    "GenerateToken e (usr_username u) (role_of rs u) = Some tok"
    "p = P_Token tok (usr_id u) (role_of rs u)" "db' = db" by blast
  from find_row [OF q(2)] q show ?thesis unfolding GenerateToken_def by blast
qed

definition ex_auth_req :: request where
  "ex_auth_req = \<lparr>rq_method = ''POST'', rq_path = [], rq_header = (\<lambda>_. []), rq_query = (\<lambda>_. []),
     rq_remote = [], rq_body = ''mallory''\<rparr>"

definition ex_auth_db :: platform_db where
  "ex_auth_db = auth_initDB empty_db"

lemma ex_mallory: "usernamePattern ''mallory''" "trim_space ''mallory'' = ''mallory''"
  "trim_space ''admin'' = ''admin''"
  by code_simp+

lemma ex_registers:
  "\<exists>db'. RegisterHandler ex_auth_env w ex_auth_req ex_auth_db = (Status_Json 201 (P_Id ''u1''), db')"
proof -
  obtain h where "HashPassword ex_auth_env ''s3cret-pw'' = Some h"
    by (auto simp: HashPassword_Some ex_auth_env_def)
  then show ?thesis
    using ex_mallory
    by (simp add: RegisterHandler_def ex_auth_req_def ex_auth_db_def auth_initDB_def empty_db_def
        create_def exec_insert_def ins_user_def ex_auth_env_simps Let_def)
qed

lemma registered_user_logs_in:
  assumes "argon2_length e"
    and "RegisterHandler e w r db = (Status_Json 201 x, db')"
    and "au_decode_register e (rq_body r) = Some q"
    and "au_argon2 e' = au_argon2 e" and "\<not> au_fault e'" and "rq_method r' = ''POST''"
    and "au_decode_login e' (rq_body r') = Some \<lparr>lr_username = rr_username q, lr_password = rr_password q\<rparr>"
    and "t_roles db = Some rs" and "\<And>n ro. GenerateToken e' n ro \<noteq> None"
  shows "\<exists>us u tok. t_users db = Some us \<and> t_users db' = Some (us @ [u]) \<and> usr_id u = au_uuid e \<and>
    usr_username u = trim_space (rr_username q) \<and> usr_username u \<notin> usr_username ` set us \<and>
    LoginHandler e' w' r' db' = (Json (P_Token tok (au_uuid e)
      (case find (\<lambda>ro. rol_id ro = trim_space (rr_role q)) rs of
         None \<Rightarrow> trim_space (rr_role q) | Some ro \<Rightarrow> rol_name ro)), db')"
proof -
  let ?name = "trim_space (rr_username q)"
  let ?u = "\<lambda>hash. \<lparr>usr_id = au_uuid e, usr_username = ?name,
      usr_full_name = Some (trim_space (rr_full_name q)), usr_password_hash = hash,
      usr_role_id = Some (trim_space (rr_role q)), usr_department_id = None,
      usr_created_at = unix_sec (au_now e), usr_updated_at = unix_sec (au_now e)\<rparr>"
  from RegisterHandler_created [OF assms(2)] assms(3) obtain hash us where
    c: "usernamePattern ?name" "8 \<le> length (rr_password q)" "length (rr_password q) \<le> 72"
      "HashPassword e (rr_password q) = Some hash" "t_users db = Some us"
      "?name \<notin> usr_username ` set us"
    and db': "db' = db\<lparr>t_users := Some (us @ [?u hash])\<rparr>"
    by auto
  obtain salt where "au_salt e = Some salt" using c(4) by (auto simp: HashPassword_Some)
  from verify_hash [OF assms(1) c(4) this assms(4), of "rr_password q"]
  have ver: "VerifyPassword e' (rr_password q) hash = Some True" by simp
  obtain tok where tok: "GenerateToken e' ?name (role_of rs (?u hash)) = Some tok"
    using assms(9) by (meson not_None_eq)
  have name: "?name \<noteq> []" "length ?name \<le> 64"
    using c(1) by (auto simp: usernamePattern_def matches_class_def)
  have pw: "rr_password q \<noteq> []" "length (rr_password q) \<le> 128" using c(2,3) by auto
  have "find (\<lambda>u. usr_username u = ?name) (us @ [?u hash]) = Some (?u hash)"
    using users_by_name.find_snoc_fresh [of "?u hash" us ?name] c(6) by simp
  then have "LoginHandler e' w' r' db' = (Json (P_Token tok (au_uuid e) (role_of rs (?u hash))), db')"
    using LoginHandler_success [OF assms(6,7), where us = "us @ [?u hash]" and db = db' and rs = rs
        and u = "?u hash" and tok = tok and w = w']
      name pw assms(5,8) ver tok db' by simp
  then show ?thesis using c db' by (auto simp: role_of_def)
qed

text \<open>C20: A registration that is answered 201 adds exactly one user, under the new identifier and
  the trimmed name, and keeps every other user's row; the user can then log in with the same name
  and password and receives a token for the role of the registration: the name of the role with
  that identifier, or else the requested text itself, which the service does not restrict.\<close>

theorem register_then_login:
  assumes "argon2_length e"
    and "RegisterHandler e w r db = (Status_Json 201 x, db')"
    and "au_decode_register e (rq_body r) = Some q"
    and "au_argon2 e' = au_argon2 e" and "\<not> au_fault e'" and "rq_method r' = ''POST''"
    and "au_decode_login e' (rq_body r') = Some \<lparr>lr_username = rr_username q, lr_password = rr_password q\<rparr>"
    and "t_roles db = Some rs" and "\<And>n ro. GenerateToken e' n ro \<noteq> None"
  shows "\<exists>us u tok. t_users db = Some us \<and> t_users db' = Some (us @ [u]) \<and> usr_id u = au_uuid e \<and>
    usr_username u = trim_space (rr_username q) \<and> usr_username u \<notin> usr_username ` set us \<and>
    LoginHandler e' w' r' db' = (Json (P_Token tok (au_uuid e)
      (case find (\<lambda>ro. rol_id ro = trim_space (rr_role q)) rs of
         None \<Rightarrow> trim_space (rr_role q) | Some ro \<Rightarrow> rol_name ro)), db')"
  using assms by (rule registered_user_logs_in)

theorem register_then_login_witness:
  "\<exists>db' tok. fst (LoginHandler ex_auth_env \<lparr>can_hijack = True\<rparr> ex_auth_req db')
    = Json (P_Token tok ''u1'' ''admin'')"
proof -
  obtain db' where reg: "RegisterHandler ex_auth_env \<lparr>can_hijack = True\<rparr> ex_auth_req ex_auth_db
      = (Status_Json 201 (P_Id ''u1''), db')"
    using ex_registers by blast
  have q: "au_decode_register ex_auth_env (rq_body ex_auth_req) = Some \<lparr>rr_username = ''mallory'',
      rr_full_name = ''mallory'', rr_password = ''s3cret-pw'', rr_role = ''admin''\<rparr>"
    by (simp add: ex_auth_env_def ex_auth_req_def)
  have roles: "t_roles ex_auth_db = Some []"
    by (simp add: ex_auth_db_def auth_initDB_def empty_db_def create_def)
  have tok: "GenerateToken ex_auth_env n ro \<noteq> None" for n ro
    by (simp add: GenerateToken_def ex_auth_env_def)
  have "\<not> au_fault ex_auth_env" "rq_method ex_auth_req = ''POST''" "au_uuid ex_auth_env = ''u1''"
    "au_decode_login ex_auth_env (rq_body ex_auth_req)
      = Some \<lparr>lr_username = ''mallory'', lr_password = ''s3cret-pw''\<rparr>"
    by (simp_all add: ex_auth_env_def ex_auth_req_def)
  with register_then_login [OF ex_argon2_length reg q refl _ _ _ roles tok, of ex_auth_req
      "\<lparr>can_hijack = True\<rparr>"] ex_mallory
  obtain tok where "LoginHandler ex_auth_env \<lparr>can_hijack = True\<rparr> ex_auth_req db'
      = (Json (P_Token tok ''u1'' ''admin''), db')" by auto
  then show ?thesis by (intro exI [of _ db'] exI [of _ tok]) simp
qed

theorem login_needs_password_witness:
  "\<exists>u :: user_row. usr_username u = ''mallory'' \<and>
    VerifyPassword ex_auth_env ''s3cret-pw'' (usr_password_hash u) = Some True"
proof -
  obtain h where h: "HashPassword ex_auth_env ''s3cret-pw'' = Some h" and
    v: "VerifyPassword ex_auth_env ''s3cret-pw'' h = Some True"
    using verify_hash [OF ex_argon2_length _ _ refl, of "''s3cret-pw''"]
    by (auto simp: HashPassword_Some ex_auth_env_def)
  let ?u = "\<lparr>usr_id = ''u1'', usr_username = ''mallory'', usr_full_name = None, usr_password_hash = h,
      usr_role_id = None, usr_department_id = None, usr_created_at = 0, usr_updated_at = 0\<rparr>"
  let ?db = "ex_auth_db\<lparr>t_users := Some [?u]\<rparr>"
  have "LoginHandler ex_auth_env \<lparr>can_hijack = True\<rparr> ex_auth_req ?db =
      (Json (P_Token ''my_secret_key:mallory:user'' ''u1'' ''user''), ?db)"
    using v ex_mallory
    by (simp add: LoginHandler_def query_row_def query_def ex_auth_req_def ex_auth_db_def auth_initDB_def
        empty_db_def create_def role_of_def GenerateToken_def jwtKey_def ex_auth_env_simps Let_def)
  from login_needs_password [OF this] obtain q and u :: user_row where
    "au_decode_login ex_auth_env (rq_body ex_auth_req) = Some q"
    "usr_username u = trim_space (lr_username q)"
    "VerifyPassword ex_auth_env (lr_password q) (usr_password_hash u) = Some True"
    by blast
  then show ?thesis
    by (intro exI [of _ u]) (auto simp: ex_auth_env_simps ex_auth_req_def ex_mallory)
qed

text \<open>Starting the auth service a second time, with any clock, salt and identifier, keeps the
  user table as the first start left it: the default account is created once.\<close>

theorem default_user_created_once:
  assumes "\<not> au_fault e" and "au_salt e \<noteq> None"
    and "\<forall>u\<in>set us. usr_id u \<noteq> au_uuid e" and "t_users db = Some us"
  shows "\<exists>u us'. t_users (auth_main_init e False db) = Some us' \<and> u \<in> set us' \<and>
    usr_username u = ''admin'' \<and> set us \<subseteq> set us' \<and>
    t_users (auth_main_init e' f (auth_main_init e False db)) = Some us'"
proof -
  have exists: "t_users (auth_main_init e'' g d) = t_users d"
    if "t_users d = Some vs" "\<exists>u\<in>set vs. usr_username u = ''admin''" for e'' g d vs
    using that
    by (auto simp: auth_main_init_def ensureDefaultUser_def query_exists_def query_def auth_initDB_def
        list_ex_iff split: if_splits)
  show ?thesis
  proof (cases "\<exists>u\<in>set us. usr_username u = ''admin''")
    case True
    then obtain u where u: "u \<in> set us" "usr_username u = ''admin''" by blast
    have "t_users (auth_main_init e False db) = Some us"
      using exists [OF assms(4) True] assms(4) by simp
    moreover from exists [OF this True] this
    have "t_users (auth_main_init e' f (auth_main_init e False db)) = Some us" by simp
    ultimately show ?thesis using u by (intro exI [of _ u] exI [of _ us]) simp
  next
    case False
    obtain hash where hash: "HashPassword e ''password'' = Some hash"
      using assms(2) by (auto simp: HashPassword_Some)
    let ?row = "\<lparr>usr_id = au_uuid e, usr_username = ''admin'',
        usr_full_name = Some ''Administrator'', usr_password_hash = hash, usr_role_id = Some ''admin'',
        usr_department_id = None, usr_created_at = unix_sec (au_now e),
        usr_updated_at = unix_sec (au_now e)\<rparr>"
    have "ins_user ?row us = Some (us @ [?row])"
      using False assms(3) by (auto simp: ins_user_def list_ex_iff)
    with False hash assms(1,4) have first: "t_users (auth_main_init e False db) = Some (us @ [?row])"
      by (auto simp: auth_main_init_def ensureDefaultUser_def query_exists_def query_def
          auth_initDB_def exec_insert_def list_ex_iff Let_def)
    from exists [OF this] first show ?thesis by (intro exI [of _ ?row] exI [of _ "us @ [?row]"]) auto
  qed
qed

theorem default_user_created_once_witness:
  "\<exists>u us'. t_users (auth_main_init ex_auth_env False ex_auth_db) = Some us' \<and> u \<in> set us' \<and>
    usr_username u = ''admin''"
proof -
  have "t_users ex_auth_db = Some []" by (simp add: ex_auth_db_def auth_initDB_def empty_db_def create_def)
  moreover have "\<not> au_fault ex_auth_env" "au_salt ex_auth_env \<noteq> None" by (simp_all add: ex_auth_env_def)
  ultimately show ?thesis using default_user_created_once [of ex_auth_env "[]" ex_auth_db ex_auth_env False] by auto
qed

end
