(* ===== verification/FileTransfer.thy ===== *)
theory FileTransfer
  imports Trace
begin

section \<open>The file transfer service\<close>

text \<open>
  \<open>services/filetransfer/main.go\<close>.  The state is the storage directory: the names of its files and
  their contents.  AES-GCM (\<open>fe_seal\<close>), the random bytes, the UUID library, the multipart parser and the
  outcomes of the file operations are arguments.  \<open>http.ServeFile\<close> is modelled for requests without
  range and conditional headers: it answers the file's bytes.
\<close>

datatype file_write = Wrote | Wrote_only nat

record file_env =
  fe_form :: "request \<Rightarrow> (string \<times> string option) option"   \<comment> \<open>file name; content unless reading fails\<close>
  fe_uuid :: string
  fe_create_fails :: bool
  fe_key :: "string option"
  fe_iv :: "string option"
  fe_seal :: "string \<Rightarrow> string \<Rightarrow> string \<Rightarrow> string"
  fe_write_iv :: file_write
  fe_write_data :: file_write
  fe_uuid_parses :: "string \<Rightarrow> bool"

type_synonym storage = "(string \<times> string) list"

datatype file_payload = P_Upload string string | P_File string | P_FileText string

text \<open>\<open>filepath.Ext\<close>: from the last dot of the last path element.\<close>

definition file_ext :: "string \<Rightarrow> string" where
  "file_ext name =
    (let t = takeWhile (\<lambda>c. c \<noteq> CHR ''/'') (rev name)
     in if CHR ''.'' \<in> set t then CHR ''.'' # rev (takeWhile (\<lambda>c. c \<noteq> CHR ''.'') t) else [])"

text \<open>\<open>os.Create\<close> truncates; \<open>Write\<close> appends, possibly only a part.\<close>

fun put_file :: "string \<Rightarrow> string \<Rightarrow> storage \<Rightarrow> storage" where
  "put_file n d [] = [(n, d)]"
| "put_file n d ((k, v) # fs) = (if k = n then (n, d) # fs else (k, v) # put_file n d fs)"

definition written :: "file_write \<Rightarrow> string \<Rightarrow> string" where
  "written r d = (case r of Wrote \<Rightarrow> d | Wrote_only k \<Rightarrow> take k d)"

definition UploadHandler :: "file_env \<Rightarrow> (storage, file_payload) handler" where
  "UploadHandler e w r fs =
    (if rq_method r \<noteq> ''POST'' then (Http_Error 405 ''Method not allowed'', fs)
     else if \<not> contains (rq_header r ''Content-Type'') ''multipart/form-data''
     then (Http_Error 400 ''Content-Type must be multipart/form-data'', fs)
     else (case fe_form e r of
       None \<Rightarrow> (Http_Error 400 ''Invalid file'', fs)
     | Some (filename, body) \<Rightarrow>
         (let fileID = fe_uuid e; ext = file_ext filename; name = fileID @ ext @ ''.enc'' in
          if filename = [] \<or> length filename > 255 then (Http_Error 400 ''Invalid filename'', fs)
          else if length ext > 16 then (Http_Error 400 ''Invalid file extension'', fs)
          else if fe_create_fails e then (Http_Error 500 ''Failed to save file'', fs)
          else
            (let fs1 = put_file name [] fs in
             case fe_key e of
               None \<Rightarrow> (Http_Error 500 ''Crypto error'', fs1)
             | Some key \<Rightarrow>
                 (case fe_iv e of
                    None \<Rightarrow> (Http_Error 500 ''Crypto error'', fs1)
                  | Some iv \<Rightarrow>
                      (case body of
                         None \<Rightarrow> (Http_Error 500 ''Read error'', fs1)
                       | Some content \<Rightarrow>
                           (let ct = fe_seal e key iv content;
                                fs2 = put_file name (written (fe_write_iv e) iv) fs1
                            in if fe_write_iv e \<noteq> Wrote then (Http_Error 500 ''Write error'', fs2)
                               else
                                 (let fs3 = put_file name (iv @ written (fe_write_data e) ct) fs2
                                  in if fe_write_data e \<noteq> Wrote then (Http_Error 500 ''Write error'', fs3)
                                     else (Status_Json 201 (P_Upload fileID (hex_encode key)), fs3)))))))))"

text \<open>\<open>filepath.Glob(storagePath/id*.enc)\<close>, for an identifier without pattern characters: sorted
  names, the star matches anything but a separator.\<close>

definition glob_enc :: "string \<Rightarrow> storage \<Rightarrow> string list" where
  "glob_enc i fs =
    sort (map fst (filter (\<lambda>(n, d). prefix i n \<and> suffix ''.enc'' (drop (length i) n) \<and>
      CHR ''/'' \<notin> set (drop (length i) n)) fs))"

definition DownloadHandler :: "file_env \<Rightarrow> (storage, file_payload) handler" where
  "DownloadHandler e w r fs =
    (let fileID = rq_query r ''id'' in
     if fileID = [] then (Http_Error 400 ''Missing file ID'', fs)
     else if \<not> fe_uuid_parses e fileID then (Http_Error 400 ''Invalid file ID'', fs)
     else (case glob_enc fileID fs of
             [] \<Rightarrow> (Http_Error 404 ''File not found'', fs)
           | n # _ \<Rightarrow>
               (case map_of fs n of
                  None \<Rightarrow> (Http_Error 404 ''404 page not found'', fs)
                | Some d \<Rightarrow> (Json (P_File d), fs))))"

definition file_healthHandler :: "(storage, file_payload) handler" where
  "file_healthHandler w r fs = (Status_Json 200 (P_FileText ''File Transfer Service is running''), fs)"

subsection \<open>The directory\<close>

text \<open>Every file lies directly in the storage directory and has the service's suffix.\<close>

definition storage_inv :: "storage \<Rightarrow> bool" where
  [inv_simps]: "storage_inv fs \<longleftrightarrow>
    distinct (map fst fs) \<and> (\<forall>n\<in>fst ` set fs. CHR ''/'' \<notin> set n \<and> suffix ''.enc'' n)"

lemma map_of_put_file: "map_of (put_file n d fs) k = (if k = n then Some d else map_of fs k)"
  by (induction fs) auto

lemma put_file_names: "fst ` set (put_file n d fs) = insert n (fst ` set fs)"
proof (induction fs)
  case (Cons f fs)
  obtain k v where "f = (k, v)" by (cases f)
  with Cons show ?case by (simp add: insert_commute)
qed simp

lemma distinct_put_file: "distinct (map fst fs) \<Longrightarrow> distinct (map fst (put_file n d fs))"
proof (induction fs)
  case (Cons f fs)
  obtain k v where f: "f = (k, v)" by (cases f)
  have "k \<notin> fst ` set (put_file n d fs)" if "k \<noteq> n"
    using that Cons.prems f by (simp add: put_file_names)
  with Cons f show ?case by auto
qed simp

lemma put_file_twice [simp]: "put_file n d' (put_file n d fs) = put_file n d' fs"
  by (induction fs) auto

lemma file_ext_no_slash: "CHR ''/'' \<notin> set (file_ext s)"
proof -
  have "CHR ''/'' \<notin> set (takeWhile (\<lambda>c. c \<noteq> CHR ''/'') t)" for t
    by (auto dest: set_takeWhileD)
  then have "CHR ''/'' \<notin> set (takeWhile P (takeWhile (\<lambda>c. c \<noteq> CHR ''/'') t))" for t P
    using set_takeWhileD by fastforce
  then show ?thesis by (simp add: file_ext_def Let_def)
qed

definition plain_id :: "string \<Rightarrow> bool" where
  "plain_id i \<longleftrightarrow> CHR ''/'' \<notin> set i \<and> length i = 36"

lemma storage_inv_put:
  assumes "storage_inv fs" and "plain_id i"
  shows "storage_inv (put_file (i @ file_ext s @ ''.enc'') d fs)"
  using assms file_ext_no_slash [of s]
  by (auto simp: storage_inv_def distinct_put_file put_file_names plain_id_def suffix_def)

text \<open>An upload writes one file, the one named after its identifier, or none.\<close>

lemma Upload_put:
  "snd (UploadHandler e w r fs) = fs \<or>
    (\<exists>s d. snd (UploadHandler e w r fs) = put_file (fe_uuid e @ file_ext s @ ''.enc'') d fs)"
proof (cases "fe_form e r")
  case None
  then show ?thesis by (simp add: UploadHandler_def)
next
  case (Some x)
  obtain filename body where "x = (filename, body)" by (cases x)
  with Some show ?thesis
    unfolding UploadHandler_def Let_def
    by (auto split: option.splits)
qed

lemma Upload_created:
  assumes "UploadHandler e w r fs = (Status_Json 201 p, fs')"
  shows "\<exists>filename content key iv. fe_form e r = Some (filename, Some content) \<and>
    fe_key e = Some key \<and> fe_iv e = Some iv \<and> p = P_Upload (fe_uuid e) (hex_encode key) \<and>
    fs' = put_file (fe_uuid e @ file_ext filename @ ''.enc'') (iv @ fe_seal e key iv content) fs"
proof -
  obtain filename body where f: "fe_form e r = Some (filename, body)"
    using assms by (auto simp: UploadHandler_def split: if_splits option.splits)
  have "rq_method r = ''POST''" "contains (rq_header r ''Content-Type'') ''multipart/form-data''"
    using assms by (auto simp: UploadHandler_def split: if_splits)
  with assms f show ?thesis
    unfolding UploadHandler_def Let_def
    by (auto simp: written_def split: if_splits option.splits)
qed

subsection \<open>Sequences of uploads\<close>

definition upload_run :: "(file_env \<times> writer \<times> request) list \<Rightarrow> storage \<Rightarrow> storage" where
  "upload_run us fs = foldl (\<lambda>fs (e, w, r). snd (UploadHandler e w r fs)) fs us"

lemma upload_run_inv:
  assumes "storage_inv fs" and "\<forall>(e, w, r)\<in>set us. plain_id (fe_uuid e)"
  shows "storage_inv (upload_run us fs)"
  using assms unfolding upload_run_def
proof (induction us arbitrary: fs)
  case (Cons u us)
  obtain e w r where u: "u = (e, w, r)" by (cases u)
  have "storage_inv (snd (UploadHandler e w r fs))"
    using Upload_put [of e w r fs] Cons.prems u storage_inv_put by auto
  with Cons u show ?case by simp
qed simp

text \<open>Names of uploads with different identifiers of 36 bytes never clash.\<close>

lemma upload_run_other:
  assumes "\<forall>(e, w, r)\<in>set us. plain_id (fe_uuid e) \<and> fe_uuid e \<noteq> i" and "length i = 36"
    and "prefix i n"
  shows "map_of (upload_run us fs) n = map_of fs n"
  using assms(1) unfolding upload_run_def
proof (induction us arbitrary: fs)
  case (Cons u us)
  obtain e w r where u: "u = (e, w, r)" by (cases u)
  have ids: "length (fe_uuid e) = 36" "fe_uuid e \<noteq> i" using Cons.prems u by (auto simp: plain_id_def)
  have "n \<noteq> fe_uuid e @ x" for x
    using ids assms(2,3) by (auto simp: prefix_def append_eq_append_conv)
  then have "map_of (snd (UploadHandler e w r fs)) n = map_of fs n"
    using Upload_put [of e w r fs] by (auto simp: map_of_put_file)
  with Cons u show ?case by simp
qed simp

lemma glob_single:
  assumes "storage_inv fs" and "map_of fs n = Some d" and "prefix i n"
    and "suffix ''.enc'' (drop (length i) n)"
    and "\<And>k. k \<in> fst ` set fs \<Longrightarrow> prefix i k \<Longrightarrow> k = n"
  shows "glob_enc i fs = [n]"
proof -
  let ?P = "\<lambda>(k, v :: string). prefix i k \<and> suffix ''.enc'' (drop (length i) k) \<and>
      CHR ''/'' \<notin> set (drop (length i) k)"
  have n: "(n, d) \<in> set fs" using assms(2) by (rule map_of_SomeD)
  then have "CHR ''/'' \<notin> set n" using assms(1) by (force simp: storage_inv_def)
  then have "CHR ''/'' \<notin> set (drop (length i) n)" by (meson in_set_dropD)
  then have ok: "?P (n, d)" using assms(3,4) by simp
  have "set (map fst (filter ?P fs)) = {n}"
  proof -
    have "k = n" if "k \<in> fst ` {x \<in> set fs. ?P x}" for k
      using that assms(5) [of k] by fastforce
    moreover have "n \<in> fst ` {x \<in> set fs. ?P x}" using n ok by force
    ultimately have "fst ` {x \<in> set fs. ?P x} = {n}" by blast
    then show ?thesis by (simp only: set_map set_filter)
  qed
  moreover have "distinct (map fst (filter ?P fs))"
    using assms(1) distinct_map_filter [of fst fs ?P] by (simp only: storage_inv_def)
  ultimately have "map fst (filter ?P fs) = [n]"
    by (intro distinct_set_single)
  then show ?thesis by (simp add: glob_enc_def)
qed

subsection \<open>Properties\<close>

text \<open>C27: A file that was uploaded with answer 201 is what \<open>/download\<close> answers under the returned
  identifier, after any further uploads with other identifiers: the initialisation vector followed
  by the ciphertext, which the returned key opens to the uploaded content.\<close>

theorem upload_download_roundtrip:
  assumes "\<And>k v c. dec_seal k v (fe_seal e k v c) = Some c"
    and "UploadHandler e w r fs = (Status_Json 201 p, fs')" and "fe_form e r = Some (filename, body)"
    and "storage_inv fs" and "plain_id (fe_uuid e)" and "\<forall>n\<in>fst ` set fs. \<not> prefix (fe_uuid e) n"
    and "\<forall>(e', w', r')\<in>set us. plain_id (fe_uuid e') \<and> fe_uuid e' \<noteq> fe_uuid e"
    and "fe_uuid_parses e2 (fe_uuid e)" and "rq_query r2 ''id'' = fe_uuid e"
  shows "\<exists>key iv d. p = P_Upload (fe_uuid e) (hex_encode key) \<and>
    fst (DownloadHandler e2 w2 r2 (upload_run us fs')) = Json (P_File (iv @ d)) \<and>
    dec_seal key iv d = body"
proof -
  let ?i = "fe_uuid e" and ?n = "fe_uuid e @ file_ext filename @ ''.enc''"
  from Upload_created [OF assms(2)] assms(3) obtain content key iv where
    c: "body = Some content" "p = P_Upload ?i (hex_encode key)"
    and fs': "fs' = put_file ?n (iv @ fe_seal e key iv content) fs"
    by auto
  let ?d = "iv @ fe_seal e key iv content" and ?fs = "upload_run us fs'"
  have inv': "storage_inv fs'" unfolding fs' using storage_inv_put [OF assms(4,5)] .
  have inv: "storage_inv ?fs" using upload_run_inv [OF inv'] assms(7) by blast
  have i: "length ?i = 36" using assms(5) by (simp add: plain_id_def)
  have other: "map_of ?fs k = map_of fs' k" if "prefix ?i k" for k
    using upload_run_other [OF assms(7) i that] .
  have stored: "map_of ?fs ?n = Some ?d" using other by (simp add: fs' map_of_put_file)
  have only: "k = ?n" if "k \<in> fst ` set ?fs" "prefix ?i k" for k
  proof -
    have "map_of ?fs k \<noteq> None" using that(1) by (simp add: map_of_eq_None_iff)
    then have "map_of fs' k \<noteq> None" using other [OF that(2)] by simp
    then have "k \<in> fst ` set fs'" by (simp add: map_of_eq_None_iff)
    with assms(6) that(2) show ?thesis by (auto simp: fs' put_file_names)
  qed
  have "glob_enc ?i ?fs = [?n]"
    using inv stored only by (intro glob_single) (auto simp: suffix_def)
  moreover have "?i \<noteq> []" using i by auto
  ultimately have "fst (DownloadHandler e2 w2 r2 ?fs) = Json (P_File ?d)"
    using assms(8,9) stored by (simp add: DownloadHandler_def)
  with c assms(1) show ?thesis by blast
qed

definition ex_file_env :: "string \<Rightarrow> file_env" where
  "ex_file_env i = \<lparr>fe_form = (\<lambda>r. Some (''report.v2.pdf'', Some (rq_body r))), fe_uuid = i,
     fe_create_fails = False, fe_key = Some ''KEYKEYKE'', fe_iv = Some ''IVIVIVIVIVIV'',
     fe_seal = (\<lambda>k v c. rev c), fe_write_iv = Wrote, fe_write_data = Wrote,
     fe_uuid_parses = (\<lambda>s. length s = 36)\<rparr>"

definition ex_file_req :: "string \<Rightarrow> string \<Rightarrow> request" where
  "ex_file_req b i = \<lparr>rq_method = ''POST'', rq_path = [],
     rq_header = (\<lambda>_. ''multipart/form-data; boundary=x''), rq_query = (\<lambda>_. i), rq_remote = [],
     rq_body = b\<rparr>"

definition ex_id :: "char \<Rightarrow> string" where
  "ex_id c = replicate 36 c"

theorem upload_download_roundtrip_witness:
  "\<exists>iv d. fst (DownloadHandler (ex_file_env (ex_id CHR ''c'')) \<lparr>can_hijack = True\<rparr> (ex_file_req [] (ex_id CHR ''a''))
      (upload_run [(ex_file_env (ex_id CHR ''b''), \<lparr>can_hijack = True\<rparr>, ex_file_req ''other'' [])]
        (snd (UploadHandler (ex_file_env (ex_id CHR ''a'')) \<lparr>can_hijack = True\<rparr> (ex_file_req ''hello'' []) []))))
    = Json (P_File (iv @ d)) \<and> rev d = ''hello''"
proof -
  let ?e = "ex_file_env (ex_id CHR ''a'')" and ?w = "\<lparr>can_hijack = True\<rparr>" and ?r = "ex_file_req ''hello'' []"
  have ct: "contains ''multipart/form-data; boundary=x'' ''multipart/form-data''"
    by (simp add: contains_def sublist_code)
  have up: "UploadHandler ?e ?w ?r [] =
      (Status_Json 201 (P_Upload (ex_id CHR ''a'') (hex_encode ''KEYKEYKE'')), snd (UploadHandler ?e ?w ?r []))"
    using ct by (simp add: UploadHandler_def ex_file_env_def ex_file_req_def file_ext_def Let_def)
  have id: "plain_id (ex_id c)" if "c \<noteq> CHR ''/''" for c
    using that by (simp add: plain_id_def ex_id_def)
  have ids: "plain_id (fe_uuid ?e)" "fe_uuid ?e = ex_id CHR ''a''"
    "plain_id (fe_uuid (ex_file_env (ex_id CHR ''b'')))" "fe_uuid (ex_file_env (ex_id CHR ''b'')) \<noteq> fe_uuid ?e"
    using id by (simp_all add: ex_file_env_def) (simp add: ex_id_def)
  have us: "\<forall>(e', w', r')\<in>set [(ex_file_env (ex_id CHR ''b''), ?w, ex_file_req ''other'' [])].
      plain_id (fe_uuid e') \<and> fe_uuid e' \<noteq> fe_uuid ?e"
    using ids(3,4) by simp
  have inv: "storage_inv []" by (simp add: storage_inv_def)
  have form: "fe_form ?e ?r = Some (''report.v2.pdf'', Some ''hello'')"
    by (simp add: ex_file_env_def ex_file_req_def)
  have parse: "fe_uuid_parses (ex_file_env (ex_id CHR ''c'')) (fe_uuid ?e)"
    by (simp add: ex_file_env_def) (simp add: ex_id_def)
  have q: "rq_query (ex_file_req [] (ex_id CHR ''a'')) ''id'' = fe_uuid ?e"
    by (simp add: ids(2)) (simp add: ex_file_req_def)
  have "\<forall>n\<in>fst ` set ([] :: storage). \<not> prefix (fe_uuid ?e) n" by simp
  note names = this
  have dec: "(\<lambda>k v c. Some (rev c)) k v (fe_seal ?e k v c) = Some c" for k v c
    by (simp add: ex_file_env_def)
  from upload_download_roundtrip [of "\<lambda>k v c. Some (rev c)", OF dec up form inv ids(1) names us parse q]
  obtain iv d where "fst (DownloadHandler (ex_file_env (ex_id CHR ''c'')) ?w (ex_file_req [] (ex_id CHR ''a''))
      (upload_run [(ex_file_env (ex_id CHR ''b''), ?w, ex_file_req ''other'' [])]
        (snd (UploadHandler ?e ?w ?r [])))) = Json (P_File (iv @ d))" "rev d = ''hello''"
    by blast
  then show ?thesis by blast
qed

text \<open>Whatever the file names of any uploads are, every file they create lies directly in the
  storage directory, under a name that ends in \<open>.enc\<close>; no name of the storage is written twice.\<close>

theorem uploads_stay_in_storage:
  assumes "\<forall>(e, w, r)\<in>set us. plain_id (fe_uuid e)"
  shows "distinct (map fst (upload_run us [])) \<and>
    (\<forall>n\<in>fst ` set (upload_run us []). CHR ''/'' \<notin> set n \<and> suffix ''.enc'' n)"
  using upload_run_inv [of "[]" us] assms by (simp add: storage_inv_def)

theorem uploads_stay_in_storage_witness:
  "\<not> (\<exists>n\<in>fst ` set (upload_run [(ex_file_env (ex_id CHR ''a''), \<lparr>can_hijack = True\<rparr>,
      ex_file_req ''hello'' [])] []). CHR ''/'' \<in> set n)"
proof -
  have "plain_id (fe_uuid (ex_file_env (ex_id CHR ''a'')))"
    by (simp add: ex_file_env_def) (simp add: plain_id_def ex_id_def)
  with uploads_stay_in_storage
    [of "[(ex_file_env (ex_id CHR ''a''), \<lparr>can_hijack = True\<rparr>, ex_file_req ''hello'' [])]"]
  show ?thesis by (simp only: list.set case_prod_conv) blast
qed

end
