(* ===== verification/Cluster.thy ===== *)
theory Cluster
  imports Trace
begin

section \<open>The cluster service\<close>

text \<open>
  \<open>services/cluster/main.go\<close>: a node that calls itself leader five seconds after its start, and a
  join request that is checked and answered but changes nothing.
\<close>

record raft_node =
  rn_node_id :: string
  rn_raft_dir :: string
  rn_raft_bind :: string
  rn_state :: string

definition NewRaftNode :: "string \<Rightarrow> string \<Rightarrow> string \<Rightarrow> raft_node" where
  "NewRaftNode i d b = \<lparr>rn_node_id = i, rn_raft_dir = d, rn_raft_bind = b, rn_state = ''Follower''\<rparr>"

text \<open>The node at a time after \<open>Start\<close>: the goroutine sleeps five seconds.\<close>

definition started_node :: "duration \<Rightarrow> raft_node \<Rightarrow> raft_node" where
  "started_node since n = (if since < 5 * second then n else n\<lparr>rn_state := ''Leader''\<rparr>)"

definition JoinHandler :: "(raft_node, unit) handler" where
  "JoinHandler w r n =
    (if rq_method r \<noteq> ''GET'' \<and> rq_method r \<noteq> ''POST'' then (Http_Error 405 ''Method not allowed'', n)
     else
       (let nodeID = trim_space (rq_query r ''node_id''); addr = trim_space (rq_query r ''addr'') in
        if nodeID = [] \<or> length nodeID > 64 then (Http_Error 400 ''Invalid node_id'', n)
        else if addr = [] \<or> length addr > 128 then (Http_Error 400 ''Invalid addr'', n)
        else (Status_Only 200, n)))"

definition node_id_from_env :: "string \<Rightarrow> string" where
  "node_id_from_env v = (if v = [] then ''node-1'' else v)"

text \<open>A cluster in which every node was started and some asked others to join.\<close>

definition cluster_run :: "(nat \<times> writer \<times> request) list \<Rightarrow> raft_node list \<Rightarrow> raft_node list" where
  "cluster_run js ns = foldl (\<lambda>ns (i, w, r). ns[i := snd (JoinHandler w r (ns ! i))]) ns js"

lemma Join_keeps: "snd (JoinHandler w r n) = n"
  by (simp add: JoinHandler_def Let_def)

lemma cluster_run_keeps: "cluster_run js ns = ns"
  unfolding cluster_run_def by (induction js) (auto simp: Join_keeps list_update_id)

text \<open>No join request, accepted or not, changes a node, and five seconds after their starts all
  nodes are leaders, however many there are and whoever joined whom: there is no election.\<close>

theorem every_node_leads:
  assumes "5 * second \<le> t"
  shows "cluster_run js ns = ns \<and>
    (\<forall>n\<in>set (map (started_node t) (cluster_run js ns)). rn_state n = ''Leader'')"
  using assms by (auto simp: cluster_run_keeps started_node_def)

theorem every_node_leads_witness:
  "map rn_state (map (started_node (6 * second))
      (cluster_run [(0, \<lparr>can_hijack = False\<rparr>, \<lparr>rq_method = ''POST'', rq_path = ''/join'',
          rq_header = (\<lambda>_. []), rq_query = (\<lambda>k. k), rq_remote = [], rq_body = []\<rparr>)]
        [NewRaftNode ''a'' [] [], NewRaftNode ''b'' [] []])) = [''Leader'', ''Leader'']"
proof -
  have t: "5 * second \<le> 6 * second" by (simp add: second_def)
  let ?ns = "[NewRaftNode ''a'' [] [], NewRaftNode ''b'' [] []]"
  let ?js = "[(0 :: nat, \<lparr>can_hijack = False\<rparr>, \<lparr>rq_method = ''POST'', rq_path = ''/join'',
          rq_header = (\<lambda>_. []), rq_query = (\<lambda>k. k), rq_remote = [], rq_body = []\<rparr>)]"
  from every_node_leads [OF t, of ?js ?ns]
  have keep: "cluster_run ?js ?ns = ?ns" and
    led: "\<forall>n\<in>set (map (started_node (6 * second)) (cluster_run ?js ?ns)). rn_state n = ''Leader''"
    by blast+
  from led show ?thesis unfolding keep by simp
qed

end
