(* ===== verification/Discovery.thy ===== *)
theory Discovery
  imports Prelude
begin

section \<open>The discovery service\<close>

text \<open>
  \<open>services/discovery/main.go\<close>: nodes announce themselves by multicast and each keeps a table of the
  peers it heard.  The JSON codec of the packets is an argument
  here, and that of the code in \<open>Packets\<close>.  The listener reads every datagram
  into one buffer and starts a goroutine that decodes a slice of that buffer, without a copy:
  \<open>disc_step\<close> interleaves receptions and goroutines.  \<open>handle_packet\<close> is what a goroutine does
  under the mutex with the bytes it finds.
\<close>

record packet =
  pk_cluster_id :: string
  pk_node_id :: string
  pk_address :: string
  pk_priority :: int
  pk_public_key :: string

record peer_info =
  pi_node_id :: string
  pi_address :: string
  pi_last_seen :: instant
  pi_public_key :: string

record discovery =
  ds_node_id :: string
  ds_cluster_id :: string
  ds_port :: nat
  ds_peers :: "string \<Rightarrow> peer_info option"

definition NewDiscoveryService :: "string \<Rightarrow> string \<Rightarrow> nat \<Rightarrow> discovery" where
  "NewDiscoveryService n c p =
    \<lparr>ds_node_id = n, ds_cluster_id = c, ds_port = p, ds_peers = Map.empty\<rparr>"

fun nat_text :: "nat \<Rightarrow> string" where
  "nat_text n = (if n < 10 then [char_of (48 + n)] else nat_text (n div 10) @ [char_of (48 + n mod 10)])"

declare nat_text.simps [simp del]

text \<open>The packet that \<open>broadcast\<close> encodes and sends.\<close>

definition broadcast_packet :: "discovery \<Rightarrow> packet" where
  "broadcast_packet s =
    \<lparr>pk_cluster_id = ds_cluster_id s, pk_node_id = ds_node_id s,
     pk_address = '':'' @ nat_text (ds_port s), pk_priority = 1, pk_public_key = ''dummy-key''\<rparr>"

definition handlePacket ::
  "(string \<Rightarrow> packet option) \<Rightarrow> instant \<Rightarrow> string \<Rightarrow> discovery \<Rightarrow> discovery" where
  "handlePacket decode now data s =
    (case decode data of
       None \<Rightarrow> s
     | Some p \<Rightarrow>
         (if pk_node_id p = ds_node_id s then s
          else if pk_cluster_id p \<noteq> ds_cluster_id s then s
          else (case ds_peers s (pk_node_id p) of
                  None \<Rightarrow>
                    s\<lparr>ds_peers := (ds_peers s)(pk_node_id p \<mapsto>
                       \<lparr>pi_node_id = pk_node_id p, pi_address = pk_address p, pi_last_seen = now,
                        pi_public_key = pk_public_key p\<rparr>)\<rparr>
                | Some q \<Rightarrow>
                    s\<lparr>ds_peers := (ds_peers s)(pk_node_id p \<mapsto> q\<lparr>pi_last_seen := now\<rparr>)\<rparr>)))"

subsection \<open>The listener and its goroutines\<close>

text \<open>\<open>ln_pending\<close> holds, for each goroutine that has not yet decoded, the length of its slice of the
  shared buffer.\<close>

record listener =
  ln_buf :: string
  ln_pending :: "nat list"
  ln_svc :: discovery

definition bufferSize :: nat where
  "bufferSize = 4096"

definition receive :: "string \<Rightarrow> listener \<Rightarrow> listener" where
  "receive d l =
    (let n = min (length d) bufferSize
     in l\<lparr>ln_buf := take n d @ drop n (ln_buf l), ln_pending := ln_pending l @ [n]\<rparr>)"

definition run_handler ::
  "(string \<Rightarrow> packet option) \<Rightarrow> instant \<Rightarrow> nat \<Rightarrow> listener \<Rightarrow> listener" where
  "run_handler decode now i l =
    l\<lparr>ln_pending := take i (ln_pending l) @ drop (Suc i) (ln_pending l),
      ln_svc := handlePacket decode now (take (ln_pending l ! i) (ln_buf l)) (ln_svc l)\<rparr>"

datatype disc_event = Recv string | Run nat instant

inductive disc_step :: "(string \<Rightarrow> packet option) \<Rightarrow> listener \<Rightarrow> disc_event \<Rightarrow> listener \<Rightarrow> bool"
  for decode where
  ds_recv: "disc_step decode l (Recv d) (receive d l)"
| ds_run: "i < length (ln_pending l) \<Longrightarrow> disc_step decode l (Run i now) (run_handler decode now i l)"

inductive disc_reach :: "(string \<Rightarrow> packet option) \<Rightarrow> listener \<Rightarrow> disc_event list \<Rightarrow> listener \<Rightarrow> bool"
  for decode where
  dc_refl: "disc_reach decode l [] l"
| dc_step: "disc_reach decode l evs m \<Longrightarrow> disc_step decode m ev n \<Longrightarrow> disc_reach decode l (evs @ [ev]) n"

inductive_cases disc_stepE: "disc_step decode l ev m"

definition new_listener :: "discovery \<Rightarrow> listener" where
  "new_listener s = \<lparr>ln_buf = replicate bufferSize (CHR 0x00), ln_pending = [], ln_svc = s\<rparr>"

subsection \<open>The peer table\<close>

text \<open>Every peer was announced by some packet of the own cluster and is not the node itself; its
  address and key are those of a packet with its identifier.\<close>

definition peers_inv :: "discovery \<Rightarrow> bool" where
  [inv_simps]: "peers_inv s \<longleftrightarrow>
    ds_peers s (ds_node_id s) = None \<and>
    (\<forall>i p. ds_peers s i = Some p \<longrightarrow> pi_node_id p = i)"

lemma handlePacket_ids [simp]:
  "ds_node_id (handlePacket decode now d s) = ds_node_id s"
  "ds_cluster_id (handlePacket decode now d s) = ds_cluster_id s"
  by (simp_all add: handlePacket_def split: option.splits)

lemma handlePacket_inv [inv_intros]: "peers_inv s \<Longrightarrow> peers_inv (handlePacket decode now d s)"
  by (auto simp: handlePacket_def peers_inv_def split: option.splits)

lemma disc_reach_inv:
  assumes "disc_reach decode l evs m" and "peers_inv (ln_svc l)"
  shows "peers_inv (ln_svc m) \<and> ds_node_id (ln_svc m) = ds_node_id (ln_svc l)"
  using assms
proof (induction rule: disc_reach.induct)
  case (dc_step l evs m ev n)
  from dc_step.hyps(2) dc_step show ?case
    by (cases rule: disc_step.cases) (auto simp: receive_def run_handler_def Let_def intro: handlePacket_inv)
qed simp

text \<open>A known peer's address and key never change again, and its time only follows the packets.\<close>

lemma handlePacket_keeps:
  assumes "ds_peers s i = Some p"
  shows "\<exists>q. ds_peers (handlePacket decode now d s) i = Some q \<and> pi_address q = pi_address p \<and>
    pi_public_key q = pi_public_key p \<and> pi_last_seen q \<in> {pi_last_seen p, now}"
  using assms by (auto simp: handlePacket_def split: option.splits)


subsection \<open>The shared buffer\<close>

text \<open>The listener when every goroutine decodes before the next datagram arrives.\<close>

definition handled_in_turn ::
  "(string \<Rightarrow> packet option) \<Rightarrow> (string \<times> instant) list \<Rightarrow> discovery \<Rightarrow> discovery" where
  "handled_in_turn decode ds s = foldl (\<lambda>s (d, t). handlePacket decode t d s) s ds"

lemma receive_then_run:
  assumes "ln_pending l = []" and "length d \<le> bufferSize"
  shows "run_handler decode t 0 (receive d l) =
    l\<lparr>ln_buf := d @ drop (length d) (ln_buf l), ln_svc := handlePacket decode t d (ln_svc l)\<rparr>"
  using assms by (cases l) (simp add: run_handler_def receive_def min_def Let_def)

lemma in_turn_reach:
  assumes "\<forall>(d, t)\<in>set ds. length d \<le> bufferSize" and "ln_pending l = []"
  shows "\<exists>evs m. disc_reach decode l evs m \<and> ln_svc m = handled_in_turn decode ds (ln_svc l) \<and>
    ln_pending m = []"
  using assms(1)
proof (induction ds rule: rev_induct)
  case Nil
  have "disc_reach decode l [] l" by (rule dc_refl)
  with assms(2) show ?case by (fastforce simp: handled_in_turn_def)
next
  case (snoc x ds)
  obtain d t where x: "x = (d, t)" by (cases x)
  from snoc obtain evs m where m: "disc_reach decode l evs m"
    "ln_svc m = handled_in_turn decode ds (ln_svc l)" "ln_pending m = []" by auto
  have d: "length d \<le> bufferSize" using snoc.prems x by simp
  let ?k = "run_handler decode t 0 (receive d m)"
  have "disc_step decode (receive d m) (Run 0 t) ?k"
    by (rule ds_run) (simp add: receive_def Let_def)
  from dc_step [OF dc_step [OF m(1) ds_recv] this]
  have "disc_reach decode l ((evs @ [Recv d]) @ [Run 0 t]) ?k" .
  moreover have "ln_svc ?k = handled_in_turn decode (ds @ [x]) (ln_svc l)" "ln_pending ?k = []"
    using receive_then_run [OF m(3) d] m(2,3) by (simp_all add: handled_in_turn_def x)
  ultimately show ?case by blast
qed

text \<open>When each goroutine decodes its datagram before the next one is read, the table is the one
  that the announcements give one after the other; but since all goroutines decode the one shared
  buffer, two announcements of the same length from different nodes can also end with the first
  node never listed, although its announcement was received and handled.\<close>

theorem shared_buffer_loses_peer:
  assumes "decode da = Some pa" and "decode db = Some pb" and "length da = length db"
    and "length da \<le> bufferSize" and "pk_cluster_id pa = c" and "pk_cluster_id pb = c"
    and "pk_node_id pa \<noteq> pk_node_id pb" and "n \<notin> {pk_node_id pa, pk_node_id pb}"
  shows "ds_peers (handled_in_turn decode [(da, t), (db, t)] (NewDiscoveryService n c p)) (pk_node_id pa) \<noteq> None
    \<and> (\<exists>evs l. disc_reach decode (new_listener (NewDiscoveryService n c p)) evs l \<and>
        ln_svc l = handled_in_turn decode [(da, t), (db, t)] (NewDiscoveryService n c p))
    \<and> (\<exists>l. disc_reach decode (new_listener (NewDiscoveryService n c p))
           [Recv da, Recv db, Run 0 t, Run 0 t] l \<and>
         ln_pending l = [] \<and> ds_peers (ln_svc l) (pk_node_id pa) = None \<and>
         ds_peers (ln_svc l) (pk_node_id pb) \<noteq> None)"
proof (intro conjI)
  let ?s = "NewDiscoveryService n c p"
  let ?l0 = "new_listener ?s"
  show "ds_peers (handled_in_turn decode [(da, t), (db, t)] ?s) (pk_node_id pa) \<noteq> None"
    using assms by (auto simp: handled_in_turn_def handlePacket_def NewDiscoveryService_def)
  have "\<forall>(d, t)\<in>set [(da, t), (db, t)]. length d \<le> bufferSize" using assms(3,4) by simp
  from in_turn_reach [OF this, of ?l0 decode]
  show "\<exists>evs l. disc_reach decode ?l0 evs l \<and>
        ln_svc l = handled_in_turn decode [(da, t), (db, t)] ?s"
    by (auto simp: new_listener_def)
  let ?l2 = "receive db (receive da ?l0)"
  let ?l3 = "run_handler decode t 0 ?l2" let ?l4 = "run_handler decode t 0 ?l3"
  have buf: "ln_buf ?l2 = db @ drop (length db) (ln_buf ?l0)" "ln_pending ?l2 = [length db, length db]"
    "ln_svc ?l2 = ?s"
    using assms(3,4) by (simp_all add: receive_def min_def new_listener_def Let_def)
  have svc: "ln_svc ?l4 = handlePacket decode t db (handlePacket decode t db ?s)" "ln_pending ?l4 = []"
    "ln_pending ?l3 = [length db]"
    by (simp_all add: run_handler_def buf)
  have steps: "disc_step decode ?l2 (Run 0 t) ?l3" "disc_step decode ?l3 (Run 0 t) ?l4"
    by (simp_all add: ds_run buf svc(3))
  have "disc_reach decode ?l0 ((([] @ [Recv da]) @ [Recv db]) @ [Run 0 t] @ []) ?l3"
    using dc_step [OF dc_step [OF dc_step [OF dc_refl ds_recv] ds_recv] steps(1)] by simp
  from dc_step [OF this steps(2)]
  have "disc_reach decode ?l0 [Recv da, Recv db, Run 0 t, Run 0 t] ?l4" by simp
  moreover have "ds_peers (ln_svc ?l4) (pk_node_id pa) = None" "ds_peers (ln_svc ?l4) (pk_node_id pb) \<noteq> None"
    unfolding svc(1) using assms by (auto simp: handlePacket_def NewDiscoveryService_def)
  ultimately show "\<exists>l. disc_reach decode ?l0 [Recv da, Recv db, Run 0 t, Run 0 t] l \<and>
         ln_pending l = [] \<and> ds_peers (ln_svc l) (pk_node_id pa) = None \<and>
         ds_peers (ln_svc l) (pk_node_id pb) \<noteq> None"
    using svc(2) by blast
qed

text \<open>A codec of packets whose text is the node's identifier.\<close>

definition ex_packet :: "string \<Rightarrow> packet" where
  "ex_packet d = \<lparr>pk_cluster_id = ''c'', pk_node_id = d, pk_address = '':1'', pk_priority = 1,
     pk_public_key = ''k''\<rparr>"

definition ex_decode :: "string \<Rightarrow> packet option" where
  "ex_decode d = Some (ex_packet d)"

theorem shared_buffer_loses_peer_witness:
  "\<exists>l. disc_reach ex_decode (new_listener (NewDiscoveryService ''n'' ''c'' 8080))
      [Recv ''a'', Recv ''b'', Run 0 5, Run 0 5] l \<and>
    ds_peers (ln_svc l) ''a'' = None \<and> ds_peers (ln_svc l) ''b'' \<noteq> None"
proof -
  have d: "ex_decode i = Some (ex_packet i)" for i by (simp add: ex_decode_def)
  have c: "pk_cluster_id (ex_packet i) = ''c''" "pk_node_id (ex_packet i) = i" for i
    by (simp_all add: ex_packet_def)
  have "length ''a'' = length ''b''" "length ''a'' \<le> bufferSize" "''a'' \<noteq> ''b''" "''n'' \<notin> {''a'', ''b''}"
    by (simp_all add: bufferSize_def)
  from shared_buffer_loses_peer [OF d d this(1,2) c(1) c(1), unfolded c(2), OF this(3,4), of 5 8080]
  show ?thesis by blast
qed


end
