(* ===== verification/DiscoveryMain.thy ===== *)
theory DiscoveryMain
  imports Discovery
begin

section \<open>Discovery: the process, its loops, and nodes that meet or do not\<close>

text \<open>
  \<open>main\<close>, \<open>Start\<close>, \<open>broadcastLoop\<close> and \<open>listenLoop\<close> of \<open>services/discovery/main.go\<close>.  The loops consume
  the sequence of what they wait for: a tick (with the outcome of dialling and of writing), a datagram,
  a timeout or another error of the read, and the cancelled context.  The codec of the packets is an
  argument.
\<close>

subsection \<open>The broadcaster\<close>

definition broadcast :: "(packet \<Rightarrow> string option) \<Rightarrow> bool \<Rightarrow> bool \<Rightarrow> discovery \<Rightarrow> string option" where
  "broadcast encode dial_fails write_fails s =
    (case encode (broadcast_packet s) of
       None \<Rightarrow> None
     | Some data \<Rightarrow> (if dial_fails \<or> write_fails then None else Some data))"

datatype tick_event = Tick bool bool | Tick_Done

text \<open>The datagrams that leave the node.\<close>

fun broadcastLoop :: "(packet \<Rightarrow> string option) \<Rightarrow> discovery \<Rightarrow> tick_event list \<Rightarrow> string list" where
  "broadcastLoop encode s [] = []"
| "broadcastLoop encode s (Tick_Done # es) = []"
| "broadcastLoop encode s (Tick dial_fails write_fails # es) =
    (case broadcast encode dial_fails write_fails s of
       None \<Rightarrow> broadcastLoop encode s es
     | Some d \<Rightarrow> d # broadcastLoop encode s es)"

subsection \<open>The listener's loop\<close>

datatype read_event = Datagram string | Read_Timeout | Read_Error | Read_Done

fun listenLoop :: "read_event list \<Rightarrow> listener \<Rightarrow> listener" where
  "listenLoop [] l = l"
| "listenLoop (Read_Done # es) l = l"
| "listenLoop (Read_Timeout # es) l = listenLoop es l"
| "listenLoop (Read_Error # es) l = listenLoop es l"
| "listenLoop (Datagram d # es) l = listenLoop es (receive d l)"

subsection \<open>The process\<close>

definition discovery_node_id :: "string list \<Rightarrow> string" where
  "discovery_node_id args = (if length args > 1 then args ! 1 else ''node-1'')"

text \<open>\<open>Start\<close> returns an error or, once the context is cancelled, nothing; in between the loops run.\<close>

definition Start :: "bool \<Rightarrow> bool \<Rightarrow> discovery \<Rightarrow> string + listener" where
  "Start resolve_fails listen_fails s =
    (if resolve_fails then Inl ''failed to resolve UDP address: ''
     else if listen_fails then Inl ''failed to listen on multicast UDP: ''
     else Inr (new_listener s))"

definition discovery_main :: "string list \<Rightarrow> bool \<Rightarrow> bool \<Rightarrow> string + listener" where
  "discovery_main args resolve_fails listen_fails =
    (case Start resolve_fails listen_fails (NewDiscoveryService (discovery_node_id args) ''local-cluster'' 8080) of
       Inl err \<Rightarrow> Inl (''Service terminated: '' @ err)
     | Inr l \<Rightarrow> Inr l)"

lemma discovery_main_Inr:
  "discovery_main args rf lf = Inr l \<longleftrightarrow>
    \<not> rf \<and> \<not> lf \<and> l = new_listener (NewDiscoveryService (discovery_node_id args) ''local-cluster'' 8080)"
  by (auto simp: discovery_main_def Start_def)

text \<open>The loop performs receptions only, so its states are among those of \<open>disc_step\<close>.\<close>

lemma listenLoop_reach: "\<exists>ds. disc_reach decode l (map Recv ds) (listenLoop es l)"
proof -
  have "disc_reach decode m evs l \<Longrightarrow> \<exists>ds. disc_reach decode m (evs @ map Recv ds) (listenLoop es l)" for m evs
  proof (induction es l arbitrary: evs rule: listenLoop.induct)
    case (5 d es l)
    from dc_step [OF 5(2) ds_recv [of decode l d]]
    obtain ds where "disc_reach decode m ((evs @ [Recv d]) @ map Recv ds) (listenLoop es (receive d l))"
      using 5(1) by blast
    then show ?case by (intro exI [of _ "d # ds"]) simp
  next
    case (1 l)
    then show ?case by (intro exI [of _ "[]"]) simp
  next
    case (2 es l)
    then show ?case by (intro exI [of _ "[]"]) simp
  qed simp_all
  from this [OF dc_refl] show ?thesis by simp
qed

text \<open>Every tick before the end whose sending succeeds puts the node's packet on the network.\<close>

lemma broadcastLoop_ticks:
  assumes "encode (broadcast_packet s) = Some d" "Tick_Done \<notin> set es"
  shows "broadcastLoop encode s (es @ es') =
    replicate (length (filter (\<lambda>e. e = Tick False False) es)) d @ broadcastLoop encode s es'"
  using assms(2)
proof (induction es)
  case (Cons e es)
  then show ?case using assms(1) by (cases e) (auto simp: broadcast_def)
qed simp

subsection \<open>Nodes with different names\<close>

lemma disc_reach_ids:
  "disc_reach decode l evs m \<Longrightarrow>
    ds_node_id (ln_svc m) = ds_node_id (ln_svc l) \<and> ds_cluster_id (ln_svc m) = ds_cluster_id (ln_svc l)"
  by (induction rule: disc_reach.induct) (auto simp: receive_def run_handler_def Let_def elim!: disc_stepE)

lemma receive_run_reach:
  assumes "disc_reach decode l evs m"
  shows "disc_reach decode l (evs @ [Recv d, Run 0 now]) (run_handler decode now 0 (receive d m))"
proof -
  have "disc_reach decode l (evs @ [Recv d]) (receive d m)" using assms by (rule dc_step) (rule ds_recv)
  then have "disc_reach decode l ((evs @ [Recv d]) @ [Run 0 now]) (run_handler decode now 0 (receive d m))"
    by (rule dc_step) (rule ds_run, simp add: receive_def Let_def)
  then show ?thesis by simp
qed

lemma handle_announcement:
  assumes "decode d = Some (broadcast_packet s)" "ds_cluster_id t = ds_cluster_id s" "ds_node_id t \<noteq> ds_node_id s"
  shows "\<exists>q. ds_peers (handlePacket decode now d t) (ds_node_id s) = Some q \<and> pi_last_seen q = now \<and>
    (ds_peers t (ds_node_id s) = None \<longrightarrow> pi_address q = CHR '':'' # nat_text (ds_port s))"
  using assms by (auto simp: handlePacket_def broadcast_packet_def split: option.split)

text \<open>Two nodes started with different names find each other: every successful tick of one sends its
  packet, and when the other one reads it and its goroutine runs before the next datagram arrives, it lists
  the first one from then on, with the address that the packet carries and the time of the packet.\<close>

theorem named_nodes_meet:
  assumes "discovery_main args1 False False = Inr l1" "discovery_main args2 False False = Inr l2"
    and "discovery_node_id args1 \<noteq> discovery_node_id args2"
    and "encode (broadcast_packet (ln_svc l1)) = Some d" "decode d = Some (broadcast_packet (ln_svc l1))"
    and "length d \<le> bufferSize" "Tick_Done \<notin> set es" "Tick False False \<in> set es"
    and "disc_reach decode l2 evs m" "ln_pending m = []"
  shows "d \<in> set (broadcastLoop encode (ln_svc l1) (es @ es')) \<and>
    (\<exists>n q. disc_reach decode l2 (evs @ [Recv d, Run 0 now]) n \<and>
      ds_peers (ln_svc n) (discovery_node_id args1) = Some q \<and> pi_last_seen q = now \<and>
      (ds_peers (ln_svc m) (discovery_node_id args1) = None \<longrightarrow> pi_address q = '':8080''))"
proof
  have l: "ln_svc l1 = NewDiscoveryService (discovery_node_id args1) ''local-cluster'' 8080"
    "l2 = new_listener (NewDiscoveryService (discovery_node_id args2) ''local-cluster'' 8080)"
    using assms(1,2) by (simp_all add: discovery_main_Inr new_listener_def)
  have "filter (\<lambda>e. e = Tick False False) es \<noteq> []" using assms(8) by (auto simp: filter_empty_conv)
  then show "d \<in> set (broadcastLoop encode (ln_svc l1) (es @ es'))"
    using broadcastLoop_ticks [of encode "ln_svc l1" d es, OF assms(4,7)] by simp
  let ?n = "run_handler decode now 0 (receive d m)"
  have "ds_node_id (ln_svc m) = discovery_node_id args2" "ds_cluster_id (ln_svc m) = ''local-cluster''"
    using disc_reach_ids [OF assms(9)] by (simp_all add: l new_listener_def NewDiscoveryService_def)
  moreover have "ds_node_id (ln_svc l1) = discovery_node_id args1" "ds_cluster_id (ln_svc l1) = ''local-cluster''"
    "ds_port (ln_svc l1) = 8080"
    by (simp_all add: l(1) NewDiscoveryService_def)
  ultimately obtain q where q: "ds_peers (handlePacket decode now d (ln_svc m)) (discovery_node_id args1) = Some q"
    "pi_last_seen q = now"
    "ds_peers (ln_svc m) (discovery_node_id args1) = None \<longrightarrow> pi_address q = CHR '':'' # nat_text 8080"
    using handle_announcement [where decode = decode and s = "ln_svc l1", OF assms(5), of "ln_svc m" now] assms(3)
    by metis
  have "ln_svc ?n = handlePacket decode now d (ln_svc m)"
    using assms(6,10) by (simp add: run_handler_def receive_def Let_def min_def)
  moreover have "CHR '':'' # nat_text 8080 = '':8080''" by (simp add: nat_text.simps char_of_def bit_0)
  ultimately show "\<exists>n q. disc_reach decode l2 (evs @ [Recv d, Run 0 now]) n \<and>
      ds_peers (ln_svc n) (discovery_node_id args1) = Some q \<and> pi_last_seen q = now \<and>
      (ds_peers (ln_svc m) (discovery_node_id args1) = None \<longrightarrow> pi_address q = '':8080'')"
    using q receive_run_reach [OF assms(9), of d now] by (intro exI [of _ ?n] exI [of _ q]) simp
qed

subsection \<open>Nodes with the same name\<close>

definition deaf_inv :: "string \<Rightarrow> string \<Rightarrow> listener \<Rightarrow> bool" where
  "deaf_inv i d l \<longleftrightarrow> ds_peers (ln_svc l) = Map.empty \<and> ds_node_id (ln_svc l) = i \<and>
    (\<forall>n\<in>set (ln_pending l). n = length d) \<and> (ln_pending l \<noteq> [] \<longrightarrow> take (length d) (ln_buf l) = d)"

lemma deaf_step:
  assumes "disc_step decode l ev m" "deaf_inv i d l" "\<And>d'. ev = Recv d' \<Longrightarrow> d' = d"
    and "decode d = Some p" "pk_node_id p = i" "length d \<le> bufferSize"
  shows "deaf_inv i d m"
  using assms(1)
proof (cases rule: disc_step.cases)
  case (ds_recv d')
  then show ?thesis using assms(2,3,6) by (auto simp: deaf_inv_def receive_def Let_def)
next
  case (ds_run k now)
  then have "ln_pending l ! k = length d" "ln_pending l \<noteq> []"
    using assms(2) nth_mem by (fastforce simp: deaf_inv_def)+
  then show ?thesis
    using ds_run assms(2,4,5)
    by (auto simp: deaf_inv_def run_handler_def handlePacket_def dest: in_set_takeD in_set_dropD)
qed

lemma deaf_reach:
  assumes "disc_reach decode l evs m" "deaf_inv i d l" "\<forall>d'. Recv d' \<in> set evs \<longrightarrow> d' = d"
    and "decode d = Some p" "pk_node_id p = i" "length d \<le> bufferSize"
  shows "deaf_inv i d m"
  using assms(1-3)
proof (induction rule: disc_reach.induct)
  case (dc_step l evs m ev n)
  then have "deaf_inv i d m" by simp
  from deaf_step [OF dc_step.hyps(2) this _ assms(4-6)] dc_step.prems(2) show ?case by simp
qed

lemma broadcastLoop_same: "encode (broadcast_packet s) = Some d \<Longrightarrow> d' \<in> set (broadcastLoop encode s es) \<Longrightarrow> d' = d"
  by (induction encode s es rule: broadcastLoop.induct) (auto simp: broadcast_def split: if_splits)

text \<open>Nodes with the same name never meet, however their packets and goroutines interleave.\<close>

theorem same_name_never_meets:
  assumes "discovery_main args1 False False = Inr l1" "discovery_main args2 False False = Inr l2"
    and "discovery_node_id args1 = discovery_node_id args2"
    and "encode (broadcast_packet (ln_svc l1)) = Some d" "decode d = Some (broadcast_packet (ln_svc l1))"
    and "length d \<le> bufferSize"
    and "disc_reach decode l2 evs m" "\<forall>d'. Recv d' \<in> set evs \<longrightarrow> d' \<in> set (broadcastLoop encode (ln_svc l1) ticks)"
  shows "ds_peers (ln_svc m) = Map.empty"
proof -
  have l: "l1 = new_listener (NewDiscoveryService (discovery_node_id args2) ''local-cluster'' 8080)" "l2 = l1"
    using assms(1-3) by (simp_all add: discovery_main_Inr)
  have "deaf_inv (discovery_node_id args2) d l2"
    by (simp add: l deaf_inv_def new_listener_def NewDiscoveryService_def)
  moreover have "\<forall>d'. Recv d' \<in> set evs \<longrightarrow> d' = d"
    using assms(8) broadcastLoop_same [where encode = encode and s = "ln_svc l1", OF assms(4)] by blast
  moreover have "pk_node_id (broadcast_packet (ln_svc l1)) = discovery_node_id args2"
    by (simp add: l broadcast_packet_def new_listener_def NewDiscoveryService_def)
  ultimately have "deaf_inv (discovery_node_id args2) d m"
    using deaf_reach [where decode = decode, OF assms(7) _ _ assms(5) _ assms(6)] by blast
  then show ?thesis by (simp add: deaf_inv_def)
qed

abbreviation ex_node :: "string \<Rightarrow> listener" where
  "ex_node i \<equiv> new_listener (NewDiscoveryService i ''local-cluster'' 8080)"

end
