(* ===== verification/JsonDecode.thy ===== *)
theory JsonDecode
  imports Json
begin

section \<open>JSON texts as Go's decoder reads them\<close>

text \<open>
  \<open>encoding/json\<close> (Go 1.22): its scanner accepts or refuses a text, and then values are built.  Here a lexer
  turns the bytes into tokens, with the contents of strings decoded, and a machine with a stack of open arrays
  and objects, as the scanner has, builds the value.
\<close>

subsection \<open>Strings\<close>

definition replacement :: string where
  "replacement = [CHR 0xEF, CHR 0xBF, CHR 0xBD]"

text \<open>\<open>utf8.EncodeRune\<close> of a code point that is not a surrogate.\<close>

definition utf8_encode :: "nat \<Rightarrow> string" where
  "utf8_encode n =
    (if n < 128 then [char_of n]
     else if n < 2048 then [char_of (192 + n div 64), char_of (128 + n mod 64)]
     else if n < 65536 then
       [char_of (224 + n div 4096), char_of (128 + n div 64 mod 64), char_of (128 + n mod 64)]
     else
       [char_of (240 + n div 262144), char_of (128 + n div 4096 mod 64), char_of (128 + n div 64 mod 64),
        char_of (128 + n mod 64)])"

definition hex_value :: "char \<Rightarrow> nat option" where
  "hex_value c =
    (if between 48 57 c then Some (code c - 48)
     else if between 97 102 c then Some (code c - 87)
     else if between 65 70 c then Some (code c - 55)
     else None)"

text \<open>The four digits after \<open>\u\<close> and what follows them.\<close>

fun getu4 :: "string \<Rightarrow> (nat \<times> string) option" where
  "getu4 (a # b # c # d # r) =
    (case (hex_value a, hex_value b, hex_value c, hex_value d) of
       (Some i, Some j, Some k, Some l) \<Rightarrow> Some (4096 * i + 256 * j + 16 * k + l, r)
     | _ \<Rightarrow> None)"
| "getu4 _ = None"

definition surrogate :: "nat \<Rightarrow> bool" where
  "surrogate n \<longleftrightarrow> 55296 \<le> n \<and> n < 57344"

text \<open>The code of an escape \<open>\u\<close> at the front.\<close>

definition next_escape :: "string \<Rightarrow> (nat \<times> string) option" where
  "next_escape s =
    (case s of
       b # u # r \<Rightarrow> (if b = backslash \<and> u = CHR ''u'' then getu4 r else None)
     | _ \<Rightarrow> None)"

text \<open>A surrogate that does not form a pair with the next escape becomes U+FFFD.\<close>

definition unicode_escape :: "string \<Rightarrow> (string \<times> string) option" where
  "unicode_escape s =
    (case getu4 s of
       None \<Rightarrow> None
     | Some (n, r) \<Rightarrow>
         (if \<not> surrogate n then Some (utf8_encode n, r)
          else (case next_escape r of
                  None \<Rightarrow> Some (replacement, r)
                | Some (m, r') \<Rightarrow>
                    (if n < 56320 \<and> 56320 \<le> m \<and> m < 57344
                     then Some (utf8_encode (65536 + 1024 * (n - 55296) + (m - 56320)), r')
                     else Some (replacement, r)))))"

definition simple_escape :: "char \<Rightarrow> char option" where
  "simple_escape e =
    (if e = dquote \<or> e = backslash \<or> e = CHR ''/'' then Some e
     else if e = CHR ''b'' then Some (CHR 0x08) else if e = CHR ''f'' then Some (CHR 0x0C)
     else if e = CHR ''n'' then Some (CHR 0x0A) else if e = CHR ''r'' then Some (CHR 0x0D)
     else if e = CHR ''t'' then Some (CHR 0x09) else None)"

text \<open>One character or escape in a string.\<close>

fun string_char :: "string \<Rightarrow> (string \<times> string) option" where
  "string_char [] = None"
| "string_char (c # cs) =
    (if c = backslash then
       (case cs of
          [] \<Rightarrow> None
        | e # r \<Rightarrow>
            (if e = CHR ''u'' then unicode_escape r
             else (case simple_escape e of None \<Rightarrow> None | Some x \<Rightarrow> Some ([x], r))))
     else if code c < 32 then None
     else if code c < 128 then Some ([c], cs)
     else
       (let w = utf8_width (c # cs)
        in if w = 0 then Some (replacement, cs) else Some (take w (c # cs), drop w (c # cs))))"

lemma getu4_shorter: "getu4 s = Some (n, r) \<Longrightarrow> length r < length s"
  by (induction s rule: getu4.induct) (auto split: option.splits)

lemma next_escape_shorter: "next_escape s = Some (n, r) \<Longrightarrow> length r < length s"
  by (auto simp: next_escape_def split: list.splits if_splits dest: getu4_shorter)

lemma unicode_escape_shorter:
  assumes "unicode_escape s = Some (u, r)" shows "length r < length s"
proof -
  obtain n r1 where n: "getu4 s = Some (n, r1)" using assms by (auto simp: unicode_escape_def split: option.splits)
  with assms have "r = r1 \<or> (\<exists>m. next_escape r1 = Some (m, r))"
    by (auto simp: unicode_escape_def split: if_splits option.splits)
  with getu4_shorter [OF n] show ?thesis by (auto dest: next_escape_shorter)
qed

lemma string_char_shorter:
  assumes "string_char s = Some (u, r)" shows "length r < length s"
proof -
  obtain c cs where s: "s = c # cs" using assms by (cases s) auto
  show ?thesis
  proof (cases "c = backslash")
    case True
    then obtain e t where t: "cs = e # t" using assms s by (cases cs) auto
    with True assms s have "unicode_escape t = Some (u, r) \<or> r = t"
      by (auto split: if_splits option.splits)
    with s t show ?thesis by (auto dest: unicode_escape_shorter)
  next
    case False
    then show ?thesis using assms s by (auto simp: Let_def simp del: utf8_width.simps split: if_splits)
  qed
qed

text \<open>A string after its opening quote: the contents and what follows the closing one.\<close>

function lex_string :: "string \<Rightarrow> (string \<times> string) option" where
  "lex_string s =
    (case s of
       [] \<Rightarrow> None
     | c # cs \<Rightarrow>
         (if c = dquote then Some ([], cs)
          else (case string_char s of
                  None \<Rightarrow> None
                | Some (u, r) \<Rightarrow>
                    (case lex_string r of None \<Rightarrow> None | Some (v, r') \<Rightarrow> Some (u @ v, r')))))"
  by pat_completeness auto
termination
  by (relation "measure length") (auto dest: string_char_shorter simp del: string_char.simps)

declare lex_string.simps [simp del]

lemma lex_string_shorter: "lex_string s = Some (u, r) \<Longrightarrow> length r < length s"
proof (induction s arbitrary: u r rule: lex_string.induct)
  case (1 s)
  obtain c cs where s: "s = c # cs" using "1.prems" by (cases s) (auto simp: lex_string.simps [of "[]"])
  show ?case
  proof (cases "c = dquote")
    case True
    with "1.prems" s show ?thesis by (simp add: lex_string.simps [of "dquote # cs"])
  next
    case False
    with "1.prems" s obtain w r1 v where w: "string_char s = Some (w, r1)" "lex_string r1 = Some (v, r)"
      by (auto simp: lex_string.simps [of "c # cs"] simp del: string_char.simps split: option.splits)
    from "1.IH" [OF s False] w s have "length r < length r1" by simp
    with string_char_shorter [OF w(1)] show ?thesis by simp
  qed
qed

subsection \<open>Numbers\<close>

definition is_digit :: "char \<Rightarrow> bool" where
  "is_digit c \<longleftrightarrow> between 48 57 c"

text \<open>At least one digit, all of them.\<close>

definition some_digits :: "string \<Rightarrow> (string \<times> string) option" where
  "some_digits s =
    (if takeWhile is_digit s = [] then None else Some (takeWhile is_digit s, dropWhile is_digit s))"

fun int_part :: "string \<Rightarrow> (string \<times> string) option" where
  "int_part [] = None"
| "int_part (c # cs) = (if c = CHR ''0'' then Some ([c], cs) else some_digits (c # cs))"

fun frac_part :: "string \<Rightarrow> (string \<times> string) option" where
  "frac_part [] = Some ([], [])"
| "frac_part (c # cs) =
    (if c = CHR ''.'' then (case some_digits cs of None \<Rightarrow> None | Some (d, r) \<Rightarrow> Some (c # d, r))
     else Some ([], c # cs))"

fun exp_part :: "string \<Rightarrow> (string \<times> string) option" where
  "exp_part [] = Some ([], [])"
| "exp_part (c # cs) =
    (if c = CHR ''e'' \<or> c = CHR ''E'' then
       (let sign = (case cs of d # _ \<Rightarrow> if d = CHR ''+'' \<or> d = CHR ''-'' then [d] else [] | [] \<Rightarrow> [])
        in case some_digits (drop (length sign) cs) of
             None \<Rightarrow> None | Some (d, r) \<Rightarrow> Some (c # sign @ d, r))
     else Some ([], c # cs))"

definition lex_number :: "string \<Rightarrow> (string \<times> string) option" where
  "lex_number s =
    (let sign = (case s of c # _ \<Rightarrow> if c = CHR ''-'' then [c] else [] | [] \<Rightarrow> [])
     in case int_part (drop (length sign) s) of
          None \<Rightarrow> None
        | Some (i, r1) \<Rightarrow>
            (case frac_part r1 of
               None \<Rightarrow> None
             | Some (f, r2) \<Rightarrow>
                 (case exp_part r2 of None \<Rightarrow> None | Some (e, r3) \<Rightarrow> Some (sign @ i @ f @ e, r3))))"

lemma some_digits_shorter: "some_digits s = Some (d, r) \<Longrightarrow> length r < length s"
  by (cases s) (auto simp: some_digits_def length_dropWhile_le less_Suc_eq_le split: if_splits)

lemma int_part_shorter: "int_part s = Some (d, r) \<Longrightarrow> length r < length s"
  by (cases s) (auto split: if_splits dest: some_digits_shorter)

lemma frac_part_le: "frac_part s = Some (d, r) \<Longrightarrow> length r \<le> length s"
  by (cases s) (auto split: if_splits option.splits dest: some_digits_shorter)

lemma exp_part_le: "exp_part s = Some (d, r) \<Longrightarrow> length r \<le> length s"
  by (cases s) (auto simp: Let_def split: if_splits option.splits list.splits dest!: some_digits_shorter)

lemma lex_number_shorter: "lex_number s = Some (d, r) \<Longrightarrow> length r < length s"
  by (fastforce simp: lex_number_def Let_def split: option.splits
      dest: int_part_shorter frac_part_le exp_part_le)

subsection \<open>Tokens\<close>

datatype json =
  J_Null | J_Bool bool | J_Number string | J_String string
| J_Array "json list" | J_Object "(string \<times> json) list"

datatype token = T_Value json | T_Open_Object | T_Close_Object | T_Open_Array | T_Close_Array | T_Comma | T_Colon

definition is_space :: "char \<Rightarrow> bool" where
  "is_space c \<longleftrightarrow> c \<in> {CHR '' '', CHR 0x09, CHR 0x0A, CHR 0x0D}"

definition punctuation :: "char \<Rightarrow> token option" where
  "punctuation c =
    (if c = CHR ''{'' then Some T_Open_Object else if c = CHR ''}'' then Some T_Close_Object
     else if c = CHR ''['' then Some T_Open_Array else if c = CHR '']'' then Some T_Close_Array
     else if c = CHR '','' then Some T_Comma else if c = CHR '':'' then Some T_Colon else None)"

definition lex_literal :: "string \<Rightarrow> (json \<times> string) option" where
  "lex_literal s =
    (if take 4 s = ''true'' then Some (J_Bool True, drop 4 s)
     else if take 5 s = ''false'' then Some (J_Bool False, drop 5 s)
     else if take 4 s = ''null'' then Some (J_Null, drop 4 s)
     else None)"

definition lex_value :: "string \<Rightarrow> (json \<times> string) option" where
  "lex_value s =
    (case s of
       [] \<Rightarrow> None
     | c # cs \<Rightarrow>
         (if c = dquote then map_option (apfst J_String) (lex_string cs)
          else if c = CHR ''-'' \<or> is_digit c then map_option (apfst J_Number) (lex_number s)
          else lex_literal s))"

lemma lex_literal_shorter: "lex_literal s = Some (v, r) \<Longrightarrow> length r < length s"
  by (cases s) (auto simp: lex_literal_def split: if_splits)

lemma lex_value_shorter: "lex_value s = Some (v, r) \<Longrightarrow> length r < length s"
  by (cases s) (auto simp: lex_value_def split: if_splits
      dest: lex_string_shorter lex_number_shorter lex_literal_shorter)

function lex :: "string \<Rightarrow> token list option" where
  "lex [] = Some []"
| "lex (c # cs) =
    (if is_space c then lex cs
     else (case punctuation c of
             Some t \<Rightarrow> map_option ((#) t) (lex cs)
           | None \<Rightarrow>
               (case lex_value (c # cs) of
                  None \<Rightarrow> None
                | Some (v, r) \<Rightarrow> map_option ((#) (T_Value v)) (lex r))))"
  by pat_completeness auto
termination by (relation "measure length") (auto dest: lex_value_shorter)

declare lex.simps [simp del]

subsection \<open>The machine\<close>

text \<open>An open array, an open object, an object with a name that waits for its value; at the bottom of
  the stack, the finished value.\<close>

datatype frame =
  Whole json | Elements "json list" | Fields "(string \<times> json) list" | Named "(string \<times> json) list" string

datatype expecting = Value_Next | Value_Or_Close | Name_Next | Name_Or_Close | Colon_Next | After_Value

type_synonym machine = "expecting \<times> frame list"

fun put_value :: "json \<Rightarrow> frame list \<Rightarrow> frame list" where
  "put_value v [] = [Whole v]"
| "put_value v (Elements vs # fs) = Elements (vs @ [v]) # fs"
| "put_value v (Named ms k # fs) = Fields (ms @ [(k, v)]) # fs"
| "put_value v fs = fs"

definition close_top :: "token \<Rightarrow> frame list \<Rightarrow> machine option" where
  "close_top t fs =
    (case fs of
       Elements vs # fs' \<Rightarrow> (if t = T_Close_Array then Some (After_Value, put_value (J_Array vs) fs') else None)
     | Fields ms # fs' \<Rightarrow> (if t = T_Close_Object then Some (After_Value, put_value (J_Object ms) fs') else None)
     | _ \<Rightarrow> None)"

text \<open>The scanner refuses more than 10000 open brackets.\<close>

definition maxNestingDepth :: nat where
  "maxNestingDepth = 10000"

definition begin_value :: "token \<Rightarrow> frame list \<Rightarrow> machine option" where
  "begin_value t fs =
    (case t of
       T_Value v \<Rightarrow> Some (After_Value, put_value v fs)
     | T_Open_Array \<Rightarrow> (if length fs < maxNestingDepth then Some (Value_Or_Close, Elements [] # fs) else None)
     | T_Open_Object \<Rightarrow> (if length fs < maxNestingDepth then Some (Name_Or_Close, Fields [] # fs) else None)
     | _ \<Rightarrow> None)"

definition begin_name :: "token \<Rightarrow> frame list \<Rightarrow> machine option" where
  "begin_name t fs =
    (case (t, fs) of
       (T_Value (J_String k), Fields ms # fs') \<Rightarrow> Some (Colon_Next, Named ms k # fs')
     | _ \<Rightarrow> None)"

fun machine_step :: "token \<Rightarrow> machine \<Rightarrow> machine option" where
  "machine_step t (Value_Next, fs) = begin_value t fs"
| "machine_step t (Value_Or_Close, fs) = (if t = T_Close_Array then close_top t fs else begin_value t fs)"
| "machine_step t (Name_Next, fs) = begin_name t fs"
| "machine_step t (Name_Or_Close, fs) = (if t = T_Close_Object then close_top t fs else begin_name t fs)"
| "machine_step t (Colon_Next, fs) = (if t = T_Colon then Some (Value_Next, fs) else None)"
| "machine_step t (After_Value, fs) =
    (if t = T_Comma then
       (case fs of
          Elements vs # _ \<Rightarrow> Some (Value_Next, fs)
        | Fields ms # _ \<Rightarrow> Some (Name_Next, fs)
        | _ \<Rightarrow> None)
     else close_top t fs)"

fun build :: "machine \<Rightarrow> token list \<Rightarrow> json option" where
  "build m [] = (case m of (After_Value, [Whole v]) \<Rightarrow> Some v | _ \<Rightarrow> None)"
| "build m (t # ts) = (case machine_step t m of None \<Rightarrow> None | Some m' \<Rightarrow> build m' ts)"

definition json_parse :: "string \<Rightarrow> json option" where
  "json_parse s = (case lex s of None \<Rightarrow> None | Some ts \<Rightarrow> build (Value_Next, []) ts)"

lemmas machine_defs = close_top_def begin_value_def begin_name_def maxNestingDepth_def

text \<open>\<open>Decoder.Decode\<close> reads the first value of a stream and does not look at what follows it.\<close>

definition finished :: "machine \<Rightarrow> json option" where
  "finished m = (case m of (After_Value, [Whole v]) \<Rightarrow> Some v | _ \<Rightarrow> None)"

function first_value :: "machine \<Rightarrow> string \<Rightarrow> json option" where
  "first_value m s =
    (case finished m of
       Some v \<Rightarrow> Some v
     | None \<Rightarrow>
         (case s of
            [] \<Rightarrow> None
          | c # cs \<Rightarrow>
              (if is_space c then first_value m cs
               else (case punctuation c of
                       Some t \<Rightarrow> (case machine_step t m of None \<Rightarrow> None | Some m' \<Rightarrow> first_value m' cs)
                     | None \<Rightarrow>
                         (case lex_value (c # cs) of
                            None \<Rightarrow> None
                          | Some (v, r) \<Rightarrow>
                              (case machine_step (T_Value v) m of None \<Rightarrow> None | Some m' \<Rightarrow> first_value m' r))))))"
  by pat_completeness auto
termination
  by (relation "measure (length \<circ> snd)") (auto dest: lex_value_shorter)

declare first_value.simps [simp del]

definition json_decode :: "string \<Rightarrow> json option" where
  "json_decode s = first_value (Value_Next, []) s"

lemma finished_build: "finished m = Some v \<Longrightarrow> build m ts = Some u \<Longrightarrow> u = v"
proof -
  assume f: "finished m = Some v" and b: "build m ts = Some u"
  then have m: "m = (After_Value, [Whole v])"
    by (auto simp: finished_def split: prod.splits expecting.splits list.splits frame.splits)
  with b show "u = v" by (cases ts) (auto simp: close_top_def split: if_splits)
qed

lemma first_value_build: "lex s = Some ts \<Longrightarrow> build m ts = Some v \<Longrightarrow> first_value m s = Some v"
proof (induction m s arbitrary: ts rule: first_value.induct)
  case (1 m s)
  show ?case
  proof (cases "finished m")
    case (Some u)
    with finished_build [OF Some "1.prems"(2)] show ?thesis by (simp add: first_value.simps [of m s])
  next
    case None
    then obtain t ts' where ts: "ts = t # ts'"
      using "1.prems"(2) by (cases ts) (auto simp: finished_def)
    then obtain c cs where s: "s = c # cs" using "1.prems"(1) by (cases s) (auto simp: lex.simps(1))
    consider "is_space c" | "\<not> is_space c" "punctuation c \<noteq> None" | "\<not> is_space c" "punctuation c = None" by blast
    then show ?thesis
    proof cases
      case 1
      then show ?thesis
        using "1.IH"(1) [OF None s] "1.prems" None s by (simp add: first_value.simps [of m "c # cs"] lex.simps(2))
    next
      case 2
      then obtain x where x: "punctuation c = Some x" by auto
      then have "t = x" "lex cs = Some ts'" using 2 "1.prems"(1) ts s by (auto simp: lex.simps(2))
      with "1.IH"(3) [OF None s 2(1) x] "1.prems"(2) ts x 2 None s show ?thesis
        by (auto simp: first_value.simps [of m "c # cs"] split: option.splits)
    next
      case 3
      then obtain u r where u: "lex_value (c # cs) = Some (u, r)" "t = T_Value u" "lex r = Some ts'"
        using "1.prems"(1) ts s by (auto simp: lex.simps(2) split: option.splits)
      with "1.IH"(2) [OF None s 3 u(1) refl] "1.prems"(2) ts 3 None s show ?thesis
        by (auto simp: first_value.simps [of m "c # cs"] split: option.splits)
    qed
  qed
qed

lemma json_decode_parse: "json_parse s = Some v \<Longrightarrow> json_decode s = Some v"
  by (auto simp: json_parse_def json_decode_def intro: first_value_build split: option.splits)

subsection \<open>What the encoder writes is read back\<close>

text \<open>The string with every byte that is not part of a valid encoding replaced.\<close>

function to_valid :: "string \<Rightarrow> string" where
  "to_valid [] = []"
| "to_valid (c # cs) =
    (let w = utf8_width (c # cs)
     in if w = 0 then replacement @ to_valid cs else take w (c # cs) @ to_valid (drop (w - 1) cs))"
  by pat_completeness auto
termination by (relation "measure length") auto

lemma take_utf8_width:
  assumes "utf8_width s = w" "w \<noteq> 0" shows "utf8_width (take w s @ t) = w"
  using assms by (cases s) (auto split: if_splits list.splits)

lemma hex_value_hex_digit [simp]: "n < 16 \<Longrightarrow> hex_value (hex_digit n) = Some n"
  by (auto simp: hex_value_def hex_digit_def between_def take_bit_eq_mod)

lemma hex_digit_join: "code c < 128 \<Longrightarrow> 16 * (code c div 16) + code c mod 16 = code c"
  by simp

lemma escape_hex:
  assumes "code c < 128"
  shows "string_char (backslash # ''u00'' @ hex_digit (code c div 16) # hex_digit (code c mod 16) # t) = Some ([c], t)"
proof -
  have "code c div 16 < 16" "code c mod 16 < 16" using assms by auto
  moreover have "hex_value (CHR ''0'') = Some 0" by (simp add: hex_value_def between_def)
  ultimately have "getu4 (''00'' @ hex_digit (code c div 16) # hex_digit (code c mod 16) # t) = Some (code c, t)"
    by simp
  then show ?thesis using assms by (simp add: unicode_escape_def surrogate_def utf8_encode_def)
qed

lemma ascii_escape_cases:
  "(c = backslash \<or> c = dquote) \<or> code c \<in> {8, 12, 10, 13, 9} \<or>
    ascii_escape c = backslash # ''u00'' @ [hex_digit (code c div 16), hex_digit (code c mod 16)] \<or>
    (ascii_escape c = [c] \<and> c \<noteq> backslash \<and> 32 \<le> code c)"
  by (cases "code c < 32") (simp_all add: ascii_escape_def)

lemma string_char_ascii:
  assumes "code c < 128" shows "string_char (ascii_escape c @ t) = Some ([c], t)"
proof -
  consider "c = backslash \<or> c = dquote" | "code c \<in> {8, 12, 10, 13, 9}"
    | "ascii_escape c = backslash # ''u00'' @ [hex_digit (code c div 16), hex_digit (code c mod 16)]"
    | "ascii_escape c = [c]" "c \<noteq> backslash" "32 \<le> code c"
    using ascii_escape_cases [of c] by blast
  then show ?thesis
  proof cases
    case 1
    then show ?thesis by (auto simp: ascii_escape_def backslash_def dquote_def simple_escape_def)
  next
    case 2
    then have "char_of (code c) \<in> {CHR 0x08, CHR 0x0C, CHR 0x0A, CHR 0x0D, CHR 0x09}"
      by (elim insertE) (simp_all only:, simp_all add: char_of_def bit_0)
    then have "c \<in> {CHR 0x08, CHR 0x0C, CHR 0x0A, CHR 0x0D, CHR 0x09}" by (simp only: char_of_char)
    then show ?thesis
      by (elim insertE)
        (simp_all add: ascii_escape_def backslash_def dquote_def simple_escape_def del: utf8_width.simps)
  next
    case 3
    then show ?thesis using escape_hex [OF assms, of t] by auto
  next
    case 4
    then show ?thesis using assms by simp
  qed
qed

lemma ascii_escape_head: "ascii_escape c = x # y \<Longrightarrow> x \<noteq> dquote" "ascii_escape c \<noteq> []"
  by (auto simp: ascii_escape_def backslash_def dquote_def split: if_splits)

lemma lex_string_dquote [simp]: "lex_string (dquote # r) = Some ([], r)"
  by (simp add: lex_string.simps [of "dquote # r"])

lemma lex_string_char:
  assumes "string_char s = Some (u, r)" "hd s \<noteq> dquote" "lex_string r = Some (v, r')"
  shows "lex_string s = Some (u @ v, r')"
proof (cases s)
  case (Cons c cs)
  with assms show ?thesis by (simp add: lex_string.simps [of "c # cs"] del: string_char.simps)
qed (use assms in simp)

lemma string_char_multibyte:
  assumes "\<not> code c < 128" "utf8_width (c # cs) = w" "w \<noteq> 0"
  shows "string_char (take w (c # cs) @ t) = Some (take w (c # cs), t)"
proof -
  obtain k where k: "w = Suc k" using assms(3) by (cases w) auto
  have le: "w \<le> length (c # cs)" using assms(2) by (auto split: if_splits list.splits)
  have "utf8_width (c # take k cs @ t) = Suc k" using take_utf8_width [OF assms(2,3), of t] k by simp
  moreover have "c \<noteq> backslash" using assms(1) by (auto simp: backslash_def)
  ultimately show ?thesis using assms(1) k le by (simp add: Let_def del: utf8_width.simps)
qed

theorem lex_json_escape: "lex_string (json_escape s @ dquote # r) = Some (to_valid s, r)"
proof (induction s rule: to_valid.induct)
  case (2 c cs)
  let ?w = "utf8_width (c # cs)"
  let ?t = "json_escape (drop (?w - 1) cs) @ dquote # r"
  show ?case
  proof (cases "code c < 128")
    case True
    then have "?w = 1" by simp
    with True 2(2) [OF refl] lex_string_char [OF string_char_ascii [OF True], of "json_escape cs @ dquote # r"]
    show ?thesis
      using ascii_escape_head [of c] by (cases "ascii_escape c") (auto simp del: utf8_width.simps)
  next
    case high: False
    have c: "c \<noteq> dquote" using high by (auto simp: dquote_def)
    show ?thesis
    proof (cases "?w = 0")
      case True
      have "string_char (backslash # ''ufffd'' @ json_escape cs @ dquote # r) = Some (replacement, json_escape cs @ dquote # r)"
        by (simp add: unicode_escape_def hex_value_def between_def surrogate_def utf8_encode_def replacement_def char_of_def bit_0)
      from lex_string_char [OF this] 2(1) [OF refl True] True high
      show ?thesis by (simp add: Let_def backslash_def dquote_def del: utf8_width.simps)
    next
      case False
      have IH: "lex_string ?t = Some (to_valid (drop (?w - 1) cs), r)"
        using 2(2) [OF refl False] .
      have sep: "string_char (backslash # ''u2028'' @ ?t) = Some ([CHR 0xE2, CHR 0x80, CHR 0xA8], ?t)"
        "string_char (backslash # ''u2029'' @ ?t) = Some ([CHR 0xE2, CHR 0x80, CHR 0xA9], ?t)"
        by (simp_all add: unicode_escape_def hex_value_def between_def surrogate_def utf8_encode_def char_of_def bit_0 del: utf8_width.simps)
      have "hd (take ?w (c # cs) @ ?t) \<noteq> dquote" using c False by (cases ?w) (auto simp del: utf8_width.simps)
      note plain = lex_string_char [OF string_char_multibyte [OF high refl False] this IH]
      show ?thesis
        using plain lex_string_char [OF sep(1) _ IH] lex_string_char [OF sep(2) _ IH] False high
        by (simp add: Let_def backslash_def dquote_def del: utf8_width.simps)
    qed
  qed
qed simp

end
