(* ===== verification/Wire.thy ===== *)
theory Wire
  imports Discovery Base64 JsonDecode
begin

section \<open>Structs in JSON\<close>

text \<open>
  \<open>json.Marshal\<close>, \<open>json.Unmarshal\<close> and \<open>Decoder.Decode\<close> (Go 1.22) for the structs that the services exchange:
  their fields are strings, signed integers and byte slices.  A name of the object chooses the field with the same name
  up to the case of letters (the names of a struct differ in more than that); a name that occurs twice sets its
  field twice; an unknown name is skipped; a value of the wrong type makes the decoder return an error, and
  every caller then drops the result.
\<close>

text \<open>A field's value: a string; a signed integer of \<open>w\<close> bits; a slice, nil or its bytes, with the memory that
  a later write to it finds.\<close>

datatype slot = Text string | Number nat int | Bytes "string option" string

type_synonym struct = "(string \<times> slot) list"

subsection \<open>Encoding\<close>

definition int_text :: "int \<Rightarrow> string" where
  "int_text n = (if n < 0 then CHR ''-'' # nat_text (nat (- n)) else nat_text (nat n))"

fun slot_text :: "slot \<Rightarrow> string" where
  "slot_text (Text s) = json_quote s"
| "slot_text (Number w n) = int_text n"
| "slot_text (Bytes None mem) = ''null''"
| "slot_text (Bytes (Some b) mem) = [dquote] @ b64_std b @ [dquote]"

fun fields_text :: "struct \<Rightarrow> string" where
  "fields_text [] = []"
| "fields_text [(k, v)] = json_field k (slot_text v)"
| "fields_text ((k, v) # s) = json_field k (slot_text v) @ CHR '','' # fields_text s"

definition json_marshal :: "struct \<Rightarrow> string" where
  "json_marshal s = CHR ''{'' # fields_text s @ ''}''"

subsection \<open>Decoding\<close>

text \<open>\<open>foldName\<close>, as far as a comparison with an ASCII name can tell: letters become capitals, and so do the
  Kelvin sign and the long s.\<close>

fun fold_name :: "string \<Rightarrow> string" where
  "fold_name [] = []"
| "fold_name (c # cs) =
    (if c = CHR 0xE2 \<and> take 2 cs = [CHR 0x84, CHR 0xAA] then CHR ''K'' # fold_name (drop 2 cs)
     else if c = CHR 0xC5 \<and> take 1 cs = [CHR 0xBF] then CHR ''S'' # fold_name (drop 1 cs)
     else (if between 97 122 c then char_of (code c - 32) else c) # fold_name cs)"

text \<open>\<open>strconv.ParseInt\<close> and \<open>strconv.ParseUint\<close>, before their bounds, on a number of the text.\<close>

definition parse_nat :: "string \<Rightarrow> nat option" where
  "parse_nat s =
    (if s \<noteq> [] \<and> list_all is_digit s then Some (foldl (\<lambda>n c. 10 * n + (code c - 48)) 0 s) else None)"

definition parse_int :: "string \<Rightarrow> int option" where
  "parse_int s =
    (case s of
       [] \<Rightarrow> None
     | c # cs \<Rightarrow>
         (if c = CHR ''-'' then map_option (\<lambda>n. - int n) (parse_nat cs) else map_option int (parse_nat s)))"

text \<open>\<open>null\<close> leaves a string or a number as it is.\<close>

definition string_value :: "json \<Rightarrow> string \<Rightarrow> string option" where
  "string_value v old = (case v of J_String s \<Rightarrow> Some s | J_Null \<Rightarrow> Some old | _ \<Rightarrow> None)"

definition in_width :: "nat \<Rightarrow> int \<Rightarrow> bool" where
  "in_width w n \<longleftrightarrow> - (2 ^ (w - 1)) \<le> n \<and> n < 2 ^ (w - 1)"

definition int_value :: "nat \<Rightarrow> json \<Rightarrow> int \<Rightarrow> int option" where
  "int_value w v old =
    (case v of
       J_Null \<Rightarrow> Some old
     | J_Number t \<Rightarrow>
         (case parse_int t of None \<Rightarrow> None | Some n \<Rightarrow> (if in_width w n then Some n else None))
     | _ \<Rightarrow> None)"

text \<open>A slice takes a base64 string, \<open>null\<close>, or an array of numbers.  An array is written over the memory of the
  slice: \<open>null\<close> leaves a byte of it as it is, and the memory behind a shorter slice stays.\<close>

definition byte_value :: "json \<Rightarrow> char \<Rightarrow> char option" where
  "byte_value v old =
    (case v of
       J_Null \<Rightarrow> Some old
     | J_Number t \<Rightarrow>
         (case parse_nat t of None \<Rightarrow> None | Some n \<Rightarrow> (if n < 256 then Some (char_of n) else None))
     | _ \<Rightarrow> None)"

fun write_bytes :: "json list \<Rightarrow> string \<Rightarrow> string option" where
  "write_bytes [] mem = Some []"
| "write_bytes (v # vs) mem =
    (case byte_value v (case mem of [] \<Rightarrow> CHR 0x00 | c # _ \<Rightarrow> c) of
       None \<Rightarrow> None
     | Some c \<Rightarrow> map_option ((#) c) (write_bytes vs (drop 1 mem)))"

definition bytes_value :: "json \<Rightarrow> string \<Rightarrow> (string option \<times> string) option" where
  "bytes_value v mem =
    (case v of
       J_Null \<Rightarrow> Some (None, [])
     | J_String s \<Rightarrow> map_option (\<lambda>b. (Some b, b)) (std_decode s)
     | J_Array vs \<Rightarrow>
         (if vs = [] then Some (Some [], [])
          else map_option (\<lambda>b. (Some b, b @ drop (length b) mem)) (write_bytes vs mem))
     | _ \<Rightarrow> None)"

fun read_slot :: "json \<Rightarrow> slot \<Rightarrow> slot option" where
  "read_slot v (Text old) = map_option Text (string_value v old)"
| "read_slot v (Number w old) = map_option (Number w) (int_value w v old)"
| "read_slot v (Bytes b mem) = map_option (\<lambda>(b', mem'). Bytes b' mem') (bytes_value v mem)"

fun set_field :: "string \<Rightarrow> json \<Rightarrow> struct \<Rightarrow> struct option" where
  "set_field k v [] = Some []"
| "set_field k v ((n, x) # s) =
    (if fold_name k = fold_name n then map_option (\<lambda>y. (n, y) # s) (read_slot v x)
     else map_option ((#) (n, x)) (set_field k v s))"

fun set_fields :: "(string \<times> json) list \<Rightarrow> struct \<Rightarrow> struct option" where
  "set_fields [] s = Some s"
| "set_fields ((k, v) # ms) s = (case set_field k v s of None \<Rightarrow> None | Some s' \<Rightarrow> set_fields ms s')"

definition fill_struct :: "struct \<Rightarrow> json \<Rightarrow> struct option" where
  "fill_struct s v =
    (case v of J_Null \<Rightarrow> Some s | J_Object ms \<Rightarrow> set_fields ms s | _ \<Rightarrow> None)"

definition json_unmarshal :: "string \<Rightarrow> struct \<Rightarrow> struct option" where
  "json_unmarshal data s = (case json_parse data of None \<Rightarrow> None | Some v \<Rightarrow> fill_struct s v)"

definition decoder_decode :: "string \<Rightarrow> struct \<Rightarrow> struct option" where
  "decoder_decode body s = (case json_decode body of None \<Rightarrow> None | Some v \<Rightarrow> fill_struct s v)"

text \<open>The fields of a struct.\<close>

definition text_field :: "struct \<Rightarrow> string \<Rightarrow> string" where
  "text_field s k = (case map_of s k of Some (Text x) \<Rightarrow> x | _ \<Rightarrow> [])"

definition int_field :: "struct \<Rightarrow> string \<Rightarrow> int" where
  "int_field s k = (case map_of s k of Some (Number w n) \<Rightarrow> n | _ \<Rightarrow> 0)"

definition bytes_field :: "struct \<Rightarrow> string \<Rightarrow> string" where
  "bytes_field s k = (case map_of s k of Some (Bytes (Some b) mem) \<Rightarrow> b | _ \<Rightarrow> [])"

lemmas field_defs = text_field_def int_field_def bytes_field_def

lemma decoder_unmarshal: "json_unmarshal d s = Some t \<Longrightarrow> decoder_decode d s = Some t"
  by (auto simp: json_unmarshal_def decoder_decode_def dest: json_decode_parse split: option.splits)

subsection \<open>Reading what was written\<close>

definition plain :: "char \<Rightarrow> bool" where
  "plain c \<longleftrightarrow> code c < 128 \<and> ascii_escape c = [c]"

lemma plain_unescaped: "list_all plain s \<Longrightarrow> json_escape s = s \<and> to_valid s = s"
  by (induction s) (auto simp: plain_def Let_def)

lemma lex_string_plain: "list_all plain s \<Longrightarrow> lex_string (s @ dquote # r) = Some (s, r)"
  using lex_json_escape [of s r] plain_unescaped [of s] by simp

lemma lex_punctuation:
  "lex (CHR ''{'' # s) = map_option ((#) T_Open_Object) (lex s)"
  "lex (CHR ''}'' # s) = map_option ((#) T_Close_Object) (lex s)"
  "lex (CHR '','' # s) = map_option ((#) T_Comma) (lex s)"
  "lex (CHR '':'' # s) = map_option ((#) T_Colon) (lex s)"
  by (simp_all add: lex.simps(2) is_space_def punctuation_def)

lemma lex_dquote:
  "lex_string s = Some (u, r) \<Longrightarrow> lex (dquote # s) = map_option ((#) (T_Value (J_String u))) (lex r)"
  by (simp add: lex.simps(2) is_space_def punctuation_def lex_value_def dquote_def)

lemma lex_quote: "lex (json_quote s @ r) = map_option ((#) (T_Value (J_String (to_valid s)))) (lex r)"
  using lex_dquote [OF lex_json_escape [of s r]] by (simp add: json_quote_def)

lemma lex_null: "lex (''null'' @ c # r) = map_option ((#) (T_Value J_Null)) (lex (c # r))"
  by (simp add: lex.simps(2) [of "CHR ''n''"] is_space_def punctuation_def lex_value_def dquote_def is_digit_def
      between_def lex_literal_def)

lemma lex_field:
  assumes "list_all plain k"
  shows "lex (json_field k v @ r) = map_option ((#) (T_Value (J_String k)) \<circ> (#) T_Colon) (lex (v @ r))"
  using lex_dquote [OF lex_string_plain [OF assms, of "CHR '':'' # v @ r"]]
  by (simp add: json_field_def lex_punctuation option.map_comp)

lemma b64_value_plain: "b64_value c \<noteq> None \<Longrightarrow> plain c"
proof -
  assume c: "b64_value c \<noteq> None"
  then have "code c < 128" "32 \<le> code c" by (auto simp: b64_value_def Let_def split: if_splits)
  moreover have "c \<notin> {backslash, dquote, CHR ''<'', CHR ''>'', CHR ''&''}"
    using c by (auto simp: b64_value_def backslash_def dquote_def)
  ultimately show ?thesis by (simp add: plain_def ascii_escape_def)
qed

lemma b64_std_plain: "list_all plain (b64_std s)"
proof -
  have "plain (CHR ''='')" by (simp add: plain_def ascii_escape_def backslash_def dquote_def)
  then show ?thesis
    using b64_encode_values b64_value_plain unfolding list_all_iff b64_std_def by fastforce
qed

text \<open>Decimal texts.\<close>

lemma digit_code [simp]: "d < 10 \<Longrightarrow> code (char_of (48 + d)) = 48 + (d :: nat)"
  by (simp add: take_bit_eq_mod)

lemma is_digit_char [simp]: "d < 10 \<Longrightarrow> is_digit (char_of (48 + (d :: nat)))"
  by (simp only: is_digit_def between_def digit_code) simp

lemma nat_text_digits: "list_all is_digit (nat_text n) \<and> nat_text n \<noteq> []"
proof (induction n rule: nat_text.induct)
  case (1 n)
  then show ?case by (simp add: nat_text.simps [of n])
qed

lemma nat_text_value: "foldl (\<lambda>n c. 10 * n + (code c - 48)) 0 (nat_text n) = n"
proof (induction n rule: nat_text.induct)
  case (1 n)
  then show ?case by (simp add: nat_text.simps [of n] del: of_char_of)
qed

lemma nat_text_zero: "hd (nat_text n) = CHR ''0'' \<Longrightarrow> nat_text n = ''0''"
proof (induction n rule: nat_text.induct)
  case (1 n)
  show ?case
  proof (cases "n < 10")
    case True
    then show ?thesis using "1.prems" by (simp add: nat_text.simps [of n])
  next
    case False
    then have hd: "hd (nat_text (n div 10)) = CHR ''0''"
      using "1.prems" nat_text_digits [of "n div 10"] by (simp add: nat_text.simps [of n])
    with "1.IH" [OF False] have "nat_text (n div 10) = ''0''" by simp
    then have "n div 10 = 0" using nat_text_value [of "n div 10"] by simp
    with False show ?thesis by simp
  qed
qed

lemma parse_nat_text [simp]: "parse_nat (nat_text n) = Some n"
  by (simp add: parse_nat_def nat_text_digits nat_text_value)

lemma parse_int_text [simp]: "parse_int (int_text n) = Some n"
proof -
  obtain c cs where n: "nat_text (nat n) = c # cs" using nat_text_digits by (cases "nat_text (nat n)") auto
  then have "is_digit c" using nat_text_digits [of "nat n"] by simp
  then have "c \<noteq> CHR ''-''" by (auto simp: is_digit_def between_def)
  then show ?thesis using n parse_nat_text [of "nat n"] by (auto simp: parse_int_def int_text_def)
qed

lemma some_digits_append:
  assumes "list_all is_digit s" "s \<noteq> []" "\<not> is_digit c"
  shows "some_digits (s @ c # r) = Some (s, c # r)"
  using assms by (simp add: some_digits_def list_all_iff)

lemma int_part_text:
  assumes "\<not> is_digit c" shows "int_part (nat_text n @ c # r) = Some (nat_text n, c # r)"
proof -
  obtain d ds where n: "nat_text n = d # ds" using nat_text_digits by (cases "nat_text n") auto
  show ?thesis
  proof (cases "d = CHR ''0''")
    case True
    with nat_text_zero [of n] n show ?thesis by simp
  next
    case False
    with some_digits_append [OF _ _ assms, of "nat_text n" r] nat_text_digits [of n] n show ?thesis by simp
  qed
qed

text \<open>What may follow a number that the encoder wrote.\<close>

definition delimiter :: "char \<Rightarrow> bool" where
  "delimiter c \<longleftrightarrow> c = CHR '','' \<or> c = CHR ''}''"

lemma lex_int:
  assumes "delimiter c"
  shows "lex (int_text n @ c # r) = map_option ((#) (T_Value (J_Number (int_text n)))) (lex (c # r))"
proof -
  define m where "m = nat \<bar>n\<bar>"
  define sign where "sign = (if n < 0 then ''-'' else [])"
  have m: "int_text n = sign @ nat_text m" "sign = [] \<or> sign = ''-''"
    by (simp_all add: m_def sign_def int_text_def)
  obtain d ds where t: "nat_text m = d # ds" "is_digit d" using nat_text_digits [of m] by (cases "nat_text m") auto
  have d: "\<not> is_space d" "punctuation d = None" "d \<noteq> CHR ''-''" "d \<noteq> dquote"
    using t(2) by (auto simp: is_digit_def between_def is_space_def punctuation_def dquote_def)
  have c: "\<not> is_digit c" "frac_part (c # r) = Some ([], c # r)" "exp_part (c # r) = Some ([], c # r)"
    using assms by (auto simp: delimiter_def is_digit_def between_def)
  from int_part_text [OF c(1), of m r] m(2) t(1) d(3) c(2,3)
  have "lex_number (sign @ nat_text m @ c # r) = Some (sign @ nat_text m, c # r)"
    by (auto simp: lex_number_def)
  moreover have "\<not> is_space (CHR ''-'')" "punctuation (CHR ''-'') = None" "CHR ''-'' \<noteq> dquote"
    by (simp_all add: is_space_def punctuation_def dquote_def)
  ultimately show ?thesis
    using m d t by (auto simp: lex.simps(2) lex_value_def)
qed

fun slot_json :: "slot \<Rightarrow> json" where
  "slot_json (Text s) = J_String (to_valid s)"
| "slot_json (Number w n) = J_Number (int_text n)"
| "slot_json (Bytes None mem) = J_Null"
| "slot_json (Bytes (Some b) mem) = J_String (b64_std b)"

lemma lex_slot:
  assumes "delimiter c"
  shows "lex (slot_text v @ c # r) = map_option ((#) (T_Value (slot_json v))) (lex (c # r))"
proof (cases v rule: slot_text.cases)
  case (4 b mem)
  then show ?thesis using lex_dquote [OF lex_string_plain [OF b64_std_plain [of b], of "c # r"]] by simp
qed (use assms in \<open>simp_all add: lex_quote lex_int lex_null [simplified]\<close>)

fun member_tokens :: "struct \<Rightarrow> token list" where
  "member_tokens [] = []"
| "member_tokens [(k, v)] = [T_Value (J_String k), T_Colon, T_Value (slot_json v)]"
| "member_tokens ((k, v) # s) = T_Value (J_String k) # T_Colon # T_Value (slot_json v) # T_Comma # member_tokens s"

lemma lex_fields:
  "list_all (\<lambda>(k, v). list_all plain k) s \<Longrightarrow> lex (fields_text s @ ''}'') = Some (member_tokens s @ [T_Close_Object])"
proof (induction s rule: member_tokens.induct)
  case (2 k v)
  then show ?case by (simp add: lex_field lex_slot delimiter_def lex_punctuation lex.simps(1))
next
  case (3 k v m s)
  then show ?case by (simp add: lex_field lex_slot delimiter_def lex_punctuation)
qed (simp add: lex_punctuation lex.simps(1))

lemma build_members:
  assumes "s \<noteq> []" "q = Name_Next \<or> q = Name_Or_Close"
  shows "build (q, [Fields ms]) (member_tokens s @ [T_Close_Object]) =
    Some (J_Object (ms @ map (apsnd slot_json) s))"
  using assms
proof (induction s arbitrary: ms q rule: member_tokens.induct)
  case (3 k v m s)
  have "build (Name_Next, [Fields (ms @ [(k, slot_json v)])]) (member_tokens (m # s) @ [T_Close_Object]) =
      Some (J_Object ((ms @ [(k, slot_json v)]) @ map (apsnd slot_json) (m # s)))"
    using "3.IH" by blast
  then show ?case using "3.prems"(2) by (auto simp: machine_defs)
qed (auto simp: machine_defs)

lemma parse_marshal:
  assumes "list_all (\<lambda>(k, v). list_all plain k) s"
  shows "json_parse (json_marshal s) = Some (J_Object (map (apsnd slot_json) s))"
proof -
  have "build (Name_Or_Close, [Fields []]) (member_tokens s @ [T_Close_Object]) = Some (J_Object (map (apsnd slot_json) s))"
    using build_members [of s Name_Or_Close "[]"] by (cases "s = []") (simp_all add: close_top_def)
  then show ?thesis
    using lex_fields [OF assms] by (simp add: json_parse_def json_marshal_def lex_punctuation begin_value_def maxNestingDepth_def)
qed

text \<open>The same fields, and numbers that fit.\<close>

fun same_slot :: "slot \<Rightarrow> slot \<Rightarrow> bool" where
  "same_slot (Text s) (Text t) \<longleftrightarrow> True"
| "same_slot (Number w n) (Number w' n') \<longleftrightarrow> w = w' \<and> in_width w n"
| "same_slot (Bytes b mem) (Bytes b' mem') \<longleftrightarrow> True"
| "same_slot _ _ \<longleftrightarrow> False"

fun read_back :: "slot \<Rightarrow> slot" where
  "read_back (Text s) = Text (to_valid s)"
| "read_back (Number w n) = Number w n"
| "read_back (Bytes b mem) = Bytes b (case b of None \<Rightarrow> [] | Some b \<Rightarrow> b)"

lemma read_slot_json: "same_slot x y \<Longrightarrow> read_slot (slot_json x) y = Some (read_back x)"
  by (induction x y rule: same_slot.induct)
    (auto simp: string_value_def int_value_def bytes_value_def split: option.splits)

lemma set_field_skip:
  "fold_name k \<notin> fold_name ` fst ` set p \<Longrightarrow> set_field k v (p @ s) = map_option ((@) p) (set_field k v s)"
  by (induction p) (cases "set_field k v s"; auto)+

lemma set_fields_marshal:
  assumes "list_all2 (\<lambda>(k, x) (n, y). k = n \<and> same_slot x y) s z" "distinct (map (fold_name \<circ> fst) (p @ s))"
  shows "set_fields (map (apsnd slot_json) s) (p @ z) = Some (p @ map (apsnd read_back) s)"
  using assms
proof (induction s z arbitrary: p rule: list_all2_induct)
  case (Cons m s n z)
  obtain k x y where m: "m = (k, x)" "n = (k, y)" "same_slot x y" using Cons(1) by (auto split: prod.splits)
  have "fold_name k \<notin> fold_name ` fst ` set p" using Cons.prems m by (auto simp: image_image)
  then have "set_field k (slot_json x) (p @ n # z) = Some ((p @ [(k, read_back x)]) @ z)"
    using m by (simp add: set_field_skip read_slot_json)
  then show ?case using Cons.IH [of "p @ [(k, read_back x)]"] Cons.prems m by simp
qed simp

theorem struct_roundtrip:
  assumes "list_all (\<lambda>(k, v). list_all plain k) s" "distinct (map (fold_name \<circ> fst) s)"
    and "list_all2 (\<lambda>(k, x) (n, y). k = n \<and> same_slot x y) s z"
  shows "json_unmarshal (json_marshal s) z = Some (map (apsnd read_back) s)"
  using set_fields_marshal [of s z "[]"] assms
  by (simp add: json_unmarshal_def parse_marshal fill_struct_def)

lemma decoder_roundtrip:
  assumes "list_all (\<lambda>(k, v). list_all plain k) s" "distinct (map (fold_name \<circ> fst) s)"
    and "list_all2 (\<lambda>(k, x) (n, y). k = n \<and> same_slot x y) s z"
  shows "decoder_decode (json_marshal s) z = Some (map (apsnd read_back) s)"
  using decoder_unmarshal [OF struct_roundtrip [OF assms]] .

text \<open>Evaluates the conditions on the names of a struct.\<close>

lemmas name_simps = plain_def ascii_escape_def backslash_def dquote_def between_def char_of_def bit_0

end
