(* ===== verification/Packets.thy ===== *)
theory Packets
  imports DiscoveryMain Wire
begin

section \<open>Discovery packets on the wire\<close>

text \<open>
  \<open>pkg/protocol/discovery.go\<close>: \<open>Encode\<close> and \<open>DecodeDiscoveryPacket\<close>, and what the discovery service does with
  them in the place of its codec.  The public key of an encoded packet is not nil.
\<close>

definition packet_struct :: "packet \<Rightarrow> struct" where
  "packet_struct p =
    [(''cluster_id'', Text (pk_cluster_id p)), (''node_id'', Text (pk_node_id p)),
     (''address'', Text (pk_address p)), (''priority'', Number 32 (pk_priority p)),
     (''public_key'', Bytes (Some (pk_public_key p)) [])]"

definition EncodePacket :: "packet \<Rightarrow> string option" where
  "EncodePacket p = Some (json_marshal (packet_struct p))"

definition zero_packet :: struct where
  "zero_packet =
    [(''cluster_id'', Text []), (''node_id'', Text []), (''address'', Text []), (''priority'', Number 32 0),
     (''public_key'', Bytes None [])]"

definition packet_of :: "struct \<Rightarrow> packet" where
  "packet_of s =
    \<lparr>pk_cluster_id = text_field s ''cluster_id'', pk_node_id = text_field s ''node_id'',
     pk_address = text_field s ''address'', pk_priority = int_field s ''priority'',
     pk_public_key = bytes_field s ''public_key''\<rparr>"

definition DecodeDiscoveryPacket :: "string \<Rightarrow> packet option" where
  "DecodeDiscoveryPacket data = map_option packet_of (json_unmarshal data zero_packet)"

lemma unmarshal_packet:
  assumes "in_width 32 (pk_priority p)"
  shows "json_unmarshal (json_marshal (packet_struct p)) zero_packet =
    Some (map (apsnd read_back) (packet_struct p))"
proof (rule struct_roundtrip)
  show "list_all (\<lambda>(k, v). list_all plain k) (packet_struct p)"
    by (simp add: packet_struct_def name_simps)
  show "distinct (map (fold_name \<circ> fst) (packet_struct p))"
    by (simp add: packet_struct_def name_simps)
  show "list_all2 (\<lambda>(k, x) (n, y). k = n \<and> same_slot x y) (packet_struct p) zero_packet"
    using assms by (simp add: packet_struct_def zero_packet_def)
qed

text \<open>What \<open>Encode\<close> writes, \<open>DecodeDiscoveryPacket\<close> reads back: the packet itself when its strings are
  valid UTF-8, and otherwise the packet with every invalid byte replaced.\<close>

theorem packet_roundtrip:
  assumes "EncodePacket p = Some d" "- (2 ^ 31) \<le> pk_priority p" "pk_priority p < 2 ^ 31"
  shows "DecodeDiscoveryPacket d =
    Some (p\<lparr>pk_cluster_id := to_valid (pk_cluster_id p), pk_node_id := to_valid (pk_node_id p),
            pk_address := to_valid (pk_address p)\<rparr>)"
proof -
  have "in_width 32 (pk_priority p)" using assms(2,3) by (simp add: in_width_def)
  from unmarshal_packet [OF this] assms(1) show ?thesis
    by (auto simp: DecodeDiscoveryPacket_def EncodePacket_def packet_of_def packet_struct_def field_defs)
qed

subsection \<open>Nodes that meet over the wire\<close>

lemma ascii_escape_length: "length (ascii_escape c) \<le> 6"
  by (simp add: ascii_escape_def)

lemma json_escape_split:
  "\<exists>e k. k \<le> length cs \<and> json_escape (c # cs) = e @ json_escape (drop k cs) \<and> length e \<le> 6 * Suc k"
proof (cases "code c < 128 \<or> utf8_width (c # cs) = 0")
  case True
  let ?e = "if code c < 128 then ascii_escape c else backslash # ''ufffd''"
  have "json_escape (c # cs) = ?e @ json_escape (drop 0 cs)" "length ?e \<le> 6 * Suc 0"
    using True ascii_escape_length [of c] by (auto simp: Let_def simp del: utf8_width.simps)
  then show ?thesis by blast
next
  case False
  let ?w = "utf8_width (c # cs)"
  obtain k where k: "?w = Suc k" using False by (cases ?w) auto
  have "?w \<le> length (c # cs)" by (auto split: list.splits)
  then have "k \<le> length cs" using k by simp
  let ?r = "c # take k cs"
  let ?e = "if ?r = [CHR 0xE2, CHR 0x80, CHR 0xA8] then backslash # ''u2028''
    else if ?r = [CHR 0xE2, CHR 0x80, CHR 0xA9] then backslash # ''u2029'' else ?r"
  have "json_escape (c # cs) = ?e @ json_escape (drop k cs)"
    using False k by (simp add: Let_def del: utf8_width.simps)
  moreover have "length ?e \<le> 6 * Suc k" using \<open>k \<le> length cs\<close> by simp
  ultimately show ?thesis using \<open>k \<le> length cs\<close> by blast
qed

lemma json_escape_length: "length (json_escape s) \<le> 6 * length s"
proof (induction s rule: length_induct)
  case (1 s)
  show ?case
  proof (cases s)
    case (Cons c cs)
    obtain e k where e: "k \<le> length cs" "json_escape (c # cs) = e @ json_escape (drop k cs)" "length e \<le> 6 * Suc k"
      using json_escape_split [where c = c and cs = cs] by blast
    have "length (json_escape (drop k cs)) \<le> 6 * length (drop k cs)" using 1 [rule_format, of "drop k cs"] Cons by simp
    with e show ?thesis unfolding Cons by (simp del: json_escape.simps)
  qed simp
qed

text \<open>The packets of a node with a short name in valid UTF-8 fit into the receiver's buffer and are read back.\<close>

lemma node_packet:
  assumes "discovery_main args rf lf = Inr l" and "length (discovery_node_id args) \<le> 600"
    and "to_valid (discovery_node_id args) = discovery_node_id args"
  obtains d where "EncodePacket (broadcast_packet (ln_svc l)) = Some d"
    "DecodeDiscoveryPacket d = Some (broadcast_packet (ln_svc l))" "length d \<le> bufferSize"
proof -
  let ?p = "broadcast_packet (ln_svc l)"
  have p: "?p = \<lparr>pk_cluster_id = ''local-cluster'', pk_node_id = discovery_node_id args, pk_address = '':8080'',
      pk_priority = 1, pk_public_key = ''dummy-key''\<rparr>"
    using assms(1) by (simp add: discovery_main_Inr new_listener_def NewDiscoveryService_def broadcast_packet_def
        nat_text.simps char_of_def bit_0)
  obtain d where d: "EncodePacket ?p = Some d" by (simp add: EncodePacket_def)
  have "to_valid ''local-cluster'' = ''local-cluster''" "to_valid '':8080'' = '':8080''" by simp_all
  with unmarshal_packet [of ?p] d p assms(3) have "DecodeDiscoveryPacket d = Some ?p"
    by (simp add: DecodeDiscoveryPacket_def EncodePacket_def packet_of_def packet_struct_def field_defs in_width_def)
  moreover have "length d \<le> bufferSize"
  proof -
    have "length (json_escape ''local-cluster'') \<le> 78" "length (json_escape '':8080'') \<le> 30"
      using json_escape_length [of "''local-cluster''"] json_escape_length [of "'':8080''"] by simp_all
    moreover have "length (json_escape (discovery_node_id args)) \<le> 3600"
      using json_escape_length [of "discovery_node_id args"] assms(2) by linarith
    moreover have "length (b64_std ''dummy-key'') = 12" by (simp add: b64_std_def b64_encode_length)
    ultimately show ?thesis
      using d by (auto simp: p EncodePacket_def packet_struct_def json_marshal_def json_field_def json_quote_def bufferSize_def int_text_def nat_text.simps
          simp del: json_escape.simps)
  qed
  ultimately show thesis using that d by blast
qed

text \<open>C36: Two nodes, with names of at most 600 bytes in valid UTF-8, when the second one reads only what the
  first one sends, in any interleaving with its goroutines: with the same name, as when no argument is given,
  it never lists a peer; with different names, as soon as one goroutine has run before the next datagram it
  lists the first node with the time of the packet, and with its port if it was new.\<close>

theorem nodes_meet_unless_same_name:
  assumes "discovery_main args1 False False = Inr l1" "discovery_main args2 False False = Inr l2"
    and "length (discovery_node_id args1) \<le> 600" "to_valid (discovery_node_id args1) = discovery_node_id args1"
    and "disc_reach DecodeDiscoveryPacket l2 evs m"
    and "\<forall>d'. Recv d' \<in> set evs \<longrightarrow> d' \<in> set (broadcastLoop EncodePacket (ln_svc l1) ticks)"
  shows "(discovery_node_id args1 = discovery_node_id args2 \<longrightarrow> ds_peers (ln_svc m) = Map.empty) \<and>
    (discovery_node_id args1 \<noteq> discovery_node_id args2 \<and> ln_pending m = [] \<longrightarrow>
      (\<exists>d n q. broadcastLoop EncodePacket (ln_svc l1) [Tick False False] = [d] \<and>
        disc_reach DecodeDiscoveryPacket l2 (evs @ [Recv d, Run 0 now]) n \<and>
        ds_peers (ln_svc n) (discovery_node_id args1) = Some q \<and> pi_last_seen q = now \<and>
        (ds_peers (ln_svc m) (discovery_node_id args1) = None \<longrightarrow> pi_address q = '':8080'')))"
proof -
  obtain d where d: "EncodePacket (broadcast_packet (ln_svc l1)) = Some d"
    "DecodeDiscoveryPacket d = Some (broadcast_packet (ln_svc l1))" "length d \<le> bufferSize"
    using node_packet [OF assms(1,3,4)] .
  have tick: "broadcastLoop EncodePacket (ln_svc l1) [Tick False False] = [d]"
    by (simp add: broadcast_def d(1))
  show ?thesis
    using same_name_never_meets [where encode = EncodePacket and decode = DecodeDiscoveryPacket,
        OF assms(1,2) _ d assms(5,6)]
      named_nodes_meet [where encode = EncodePacket and decode = DecodeDiscoveryPacket and es = "[Tick False False]"
        and es' = "[]" and now = now, OF assms(1,2) _ d _ _ assms(5)] tick by auto
qed

theorem nodes_meet_unless_same_name_witness:
  "\<exists>d n q. broadcastLoop EncodePacket (ln_svc (ex_node ''a'')) [Tick False False] = [d] \<and>
    disc_reach DecodeDiscoveryPacket (ex_node ''b'') [Recv d, Run 0 7] n \<and>
    ds_peers (ln_svc n) ''a'' = Some q \<and> pi_last_seen q = 7 \<and> pi_address q = '':8080''"
proof -
  have start: "discovery_main [''discovery'', i] False False = Inr (ex_node i)" for i
    by (simp add: discovery_main_Inr discovery_node_id_def)
  show ?thesis
    using nodes_meet_unless_same_name [OF start [of "''a''"] start [of "''b''"] _ _ dc_refl, of "[]" 7]
    by (simp add: discovery_node_id_def new_listener_def NewDiscoveryService_def)
qed

end
