(* ===== verification/WriteLoop.thy ===== *)
theory WriteLoop
  imports MessagingExamples
begin

section \<open>The write loop of a connection\<close>

text \<open>
  The loop \<open>for data := range client.Send\<close> at the end of \<open>HandleWS\<close>, run until it blocks or ends: it
  writes what is queued in order, waits when the queue is empty, ends when the channel is closed and
  drained, and is left at the first write that fails.
\<close>

datatype loop_end = Waiting | Ended | Write_error

definition queue_of :: "nat \<Rightarrow> router \<Rightarrow> message list" where
  "queue_of n s = (case rt_heap s n of None \<Rightarrow> [] | Some c \<Rightarrow> cl_queue c)"

definition chan_closed :: "nat \<Rightarrow> router \<Rightarrow> bool" where
  "chan_closed n s = (case rt_heap s n of None \<Rightarrow> True | Some c \<Rightarrow> cl_closed c)"

lemma recv_queue:
  "write_loop_recv n s = (Some m, s') \<Longrightarrow> queue_of n s = m # queue_of n s' \<and> chan_closed n s' = chan_closed n s"
  by (auto simp: write_loop_recv_def queue_of_def chan_closed_def split: option.splits list.splits)

lemma recv_none: "write_loop_recv n s = (None, s') \<longleftrightarrow> queue_of n s = [] \<and> s' = s"
  by (auto simp: write_loop_recv_def queue_of_def split: option.splits list.splits)

text \<open>\<open>ok m\<close>: writing \<open>m\<close> to the connection succeeds.  The result is what was written, how the loop
  stands, and the state.\<close>

function write_loop :: "nat \<Rightarrow> (message \<Rightarrow> bool) \<Rightarrow> router \<Rightarrow> message list \<times> loop_end \<times> router" where
  "write_loop n ok s =
    (case write_loop_recv n s of
       (None, s') \<Rightarrow> ([], if chan_closed n s then Ended else Waiting, s')
     | (Some m, s') \<Rightarrow>
         (if ok m then (let (ms, e, t) = write_loop n ok s' in (m # ms, e, t))
          else ([], Write_error, s')))"
  by pat_completeness auto
termination
  by (relation "measure (\<lambda>(n, ok, s). length (queue_of n s))") (auto dest!: recv_queue [OF sym])

declare write_loop.simps [simp del]

lemma write_loop_steps: "router_steps s (snd (snd (write_loop n ok s)))"
proof (induction n ok s rule: write_loop.induct)
  case (1 n ok s)
  obtain m s' where r: "write_loop_recv n s = (m, s')" by (cases "write_loop_recv n s")
  have step: "router_steps s s'" using rs_recv [of s n] r by (metis r_into_rtranclp snd_conv)
  show ?case
  proof (cases m)
    case None
    with r step show ?thesis by (simp add: write_loop.simps)
  next
    case (Some x)
    show ?thesis
    proof (cases "ok x")
      case True
      with 1 [OF r [symmetric] Some True] Some r step show ?thesis
        by (subst write_loop.simps) (auto simp: case_prod_beta Let_def)
    next
      case False
      with Some r step show ?thesis by (simp add: write_loop.simps)
    qed
  qed
qed

lemma write_loop_result:
  "fst (write_loop n ok s) = takeWhile ok (queue_of n s) \<and>
   fst (snd (write_loop n ok s)) =
     (if list_all ok (queue_of n s) then (if chan_closed n s then Ended else Waiting) else Write_error) \<and>
   queue_of n (snd (snd (write_loop n ok s))) = drop (Suc (length (takeWhile ok (queue_of n s)))) (queue_of n s)"
proof (induction n ok s rule: write_loop.induct)
  case (1 n ok s)
  obtain m s' where r: "write_loop_recv n s = (m, s')" by (cases "write_loop_recv n s")
  show ?case
  proof (cases m)
    case None
    with r recv_none [of n s s'] show ?thesis by (simp add: write_loop.simps)
  next
    case (Some x)
    with r recv_queue [of n s x s'] have q: "queue_of n s = x # queue_of n s'" "chan_closed n s' = chan_closed n s"
      by auto
    show ?thesis
    proof (cases "ok x")
      case True
      with 1 [OF r [symmetric] Some True] Some r q show ?thesis
        by (subst (1 2 3) write_loop.simps) (auto simp: case_prod_beta Let_def)
    next
      case False
      with Some r q show ?thesis by (simp add: write_loop.simps)
    qed
  qed
qed



end
