(* ===== verification/Delivered.thy ===== *)
theory Delivered
  imports WriteLoop MessagingProps
begin

section \<open>From the accepted message to the connection\<close>

text \<open>
  The steps of the messaging service again, with a log of what the write loops take from the queues:
  every interleaving of handlers, read loops, write loops and other services, as in \<open>router_step\<close>.  The
  log with what is still queued shows that a connection gets the messages queued for it in
  order, none twice and none lost.
\<close>

inductive quiet_step :: "router \<Rightarrow> router \<Rightarrow> bool" where
  qs_register: "quiet_step s (snd (Register u s))"
| qs_unregister: "rt_heap s n \<noteq> None \<Longrightarrow> quiet_step s (Unregister n s)"
| qs_deliver: "quiet_step s (deliver m mt s)"
| qs_db: "quiet_step s (set_db db s)"

inductive delivery_run :: "router \<Rightarrow> (nat \<times> message) list \<Rightarrow> router \<Rightarrow> bool" where
  dr_start: "delivery_run s [] s"
| dr_take: "delivery_run s out t \<Longrightarrow> write_loop_recv n t = (Some m, u) \<Longrightarrow> delivery_run s (out @ [(n, m)]) u"
| dr_quiet: "delivery_run s out t \<Longrightarrow> quiet_step t u \<Longrightarrow> delivery_run s out u"

definition taken :: "nat \<Rightarrow> (nat \<times> message) list \<Rightarrow> message list" where
  "taken n out = map snd (filter (\<lambda>x. fst x = n) out)"

lemma taken_simps [simp]:
  "taken n [] = []" "taken n (out @ [(k, m)]) = taken n out @ (if k = n then [m] else [])"
  by (simp_all add: taken_def)

text \<open>The logged runs are the runs of the service.\<close>

lemma quiet_router_step: "quiet_step s t \<Longrightarrow> router_step s t"
  by (induction rule: quiet_step.induct) (auto intro: router_step.intros)

lemma router_step_cases:
  "router_step s t \<Longrightarrow> quiet_step s t \<or> t = s \<or> (\<exists>n m. write_loop_recv n s = (Some m, t))"
proof (induction rule: router_step.induct)
  case (rs_recv s n)
  obtain x u where r: "write_loop_recv n s = (x, u)" by (cases "write_loop_recv n s")
  show ?case
  proof (cases x)
    case None
    with r recv_none [of n s u] show ?thesis by simp
  qed (use r in auto)
qed (auto intro: quiet_step.intros)

lemma recv_router_step: "write_loop_recv n s = (x, t) \<Longrightarrow> router_step s t"
  using rs_recv [of s n] by simp

lemma delivery_run_steps: "(\<exists>out. delivery_run s out t) \<longleftrightarrow> router_steps s t"
proof
  assume "\<exists>out. delivery_run s out t"
  then obtain out where "delivery_run s out t" ..
  then show "router_steps s t"
    by (induction rule: delivery_run.induct)
       (auto intro: rtranclp.rtrancl_into_rtrancl recv_router_step quiet_router_step)
next
  assume "router_steps s t"
  then show "\<exists>out. delivery_run s out t"
  proof (induction rule: rtranclp_induct)
    case base
    show ?case using dr_start by blast
  next
    case (step t u)
    with router_step_cases [OF step(2)] show ?case by (blast intro: dr_take dr_quiet)
  qed
qed

subsection \<open>Queues only grow at the end and shrink at the front\<close>

lemma trySend_queue: "\<exists>add. queue_of n (trySend m k s) = queue_of n s @ add"
  by (auto simp: trySend_def queue_of_def split: option.splits)

lemma deliver_queue: "\<exists>add. queue_of n (deliver m mt s) = queue_of n s @ add"
proof -
  have "\<exists>add. queue_of n (foldl (\<lambda>t k. trySend m k t) s ks) = queue_of n s @ add" for ks
  proof (induction ks arbitrary: s)
    case (Cons k ks)
    from Cons [of "trySend m k s"] trySend_queue [of n m k s] show ?case by auto
  qed simp
  then show ?thesis by (simp add: deliver_def)
qed

lemma Unregister_queue: "queue_of n (Unregister k s) = queue_of n s"
  by (auto simp: Unregister_def close_chan_def queue_of_def Let_def split: option.splits)

lemma quiet_queue:
  assumes "quiet_step s t" "clients_inv s" shows "\<exists>add. queue_of n t = queue_of n s @ add"
  using assms
proof (induction rule: quiet_step.induct)
  case (qs_register s u)
  then have "rt_heap s (rt_next s) = None" using clients_invD(5) [OF qs_register] by fastforce
  then show ?case by (simp add: Register_def Let_def queue_of_def)
qed (simp_all add: deliver_queue Unregister_queue set_db_def, simp_all add: queue_of_def)

lemma take_queue:
  assumes "write_loop_recv k s = (Some m, t)"
  shows "queue_of n s = (if k = n then [m] else []) @ queue_of n t"
  using assms by (auto simp: write_loop_recv_def queue_of_def split: option.splits list.splits if_splits)

lemma delivery_fifo:
  assumes "delivery_run s out t" "clients_inv s"
  shows "clients_inv t \<and> (\<exists>later. taken n out @ queue_of n t = queue_of n s @ later)"
  using assms
proof (induction rule: delivery_run.induct)
  case (dr_take s out t k m u)
  then have "clients_inv u" using router_step_inv [OF recv_router_step] by blast
  with dr_take take_queue [OF dr_take(2), of n] show ?case by auto
next
  case (dr_quiet s out t u)
  then have "clients_inv u" using router_step_inv [OF quiet_router_step] by blast
  with dr_quiet quiet_queue [OF dr_quiet(2), of n] show ?case by (metis append.assoc)
qed simp

lemma written_after_send:
  assumes "router_reach s" and "chan_inv (rt_db s)" and "sendHandler e w r s = (Json p, s')"
    and "rt_heap s n = Some c" and "\<not> cl_closed c" and "length (cl_queue c) < 256"
    and "may_access (rt_db s') (cl_user c) (msg_channel_id (last (messages_of (rt_db s'))))"
    and "delivery_run s' out t"
  shows "\<exists>later. taken n out @ fst (write_loop n (\<lambda>_. True) t) =
      cl_queue c @ last (messages_of (rt_db s')) # later \<and>
    fst (snd (write_loop n (\<lambda>_. True) t)) \<noteq> Write_error"
proof -
  have inv: "clients_inv s" using router_reach_inv [OF assms(1)] .
  obtain m where m: "messages_of (rt_db s') = messages_of (rt_db s) @ [m]"
    and heap: "rt_heap s' n = map_option (after_broadcast (rt_db s') m) (rt_heap s n)"
    using sent_effect [OF inv assms(2,3)] by blast
  have "queue_of n s' = cl_queue c @ [m]"
    using heap m assms(4-7) by (simp add: queue_of_def after_broadcast_def sendBufferSize_def)
  moreover have "clients_inv s'"
    using router_reach_inv [OF reach_steps [OF send_steps assms(1)]] assms(3) by (metis snd_conv)
  ultimately obtain later where "taken n out @ queue_of n t = cl_queue c @ m # later"
    using delivery_fifo [OF assms(8), of n] by auto
  moreover have "fst (write_loop n (\<lambda>_. True) t) = queue_of n t"
    using write_loop_result [of n "\<lambda>_. True" t] by (simp add: takeWhile_eq_all_conv)
  moreover have "fst (snd (write_loop n (\<lambda>_. True) t)) \<noteq> Write_error"
    using write_loop_result [of n "\<lambda>_. True" t] by (simp add: list_all_iff)
  ultimately show ?thesis using m by (intro exI [of _ later]) simp
qed



end
