(* ===== verification/MessageWire.thy ===== *)
theory MessageWire
  imports Delivered Wire
begin

section \<open>Messages on the wire\<close>

text \<open>
  \<open>pkg/protocol/message.go\<close>: the JSON of \<open>Message\<close> and \<open>SendMessageRequest\<close>.  The decoders of the messaging
  service, arguments elsewhere, are here those of the code: \<open>Decoder.Decode\<close> for a body, \<open>json.Unmarshal\<close> for
  a frame.  A record of the model does not tell a nil slice from an empty one; \<open>nils\<close> says which of its empty
  byte fields are nil.
\<close>

subsection \<open>The structs\<close>

definition slice :: "bool \<Rightarrow> string \<Rightarrow> slot" where
  "slice nil b = (if b = [] \<and> nil then Bytes None [] else Bytes (Some b) [])"

definition message_struct :: "bool \<times> bool \<times> bool \<Rightarrow> message \<Rightarrow> struct" where
  "message_struct nils m =
    [(''id'', Text (msg_id m)), (''channel_id'', Text (msg_channel_id m)), (''sender_id'', Text (msg_sender_id m)),
     (''timestamp'', Number 64 (msg_timestamp m)), (''type'', Number 64 (msg_type m)),
     (''content'', slice (fst nils) (msg_content m)), (''nonce'', slice (fst (snd nils)) (msg_nonce m)),
     (''signature'', slice (snd (snd nils)) (msg_signature m))]"

definition EncodeMessage :: "bool \<times> bool \<times> bool \<Rightarrow> message \<Rightarrow> string" where
  "EncodeMessage nils m = json_marshal (message_struct nils m)"

definition zero_message :: message where
  "zero_message = \<lparr>msg_id = [], msg_channel_id = [], msg_sender_id = [], msg_timestamp = 0, msg_type = 0,
     msg_content = [], msg_nonce = [], msg_signature = []\<rparr>"

definition DecodeMessage :: "string \<Rightarrow> message option" where
  "DecodeMessage data =
    map_option (\<lambda>s. \<lparr>msg_id = text_field s ''id'', msg_channel_id = text_field s ''channel_id'',
        msg_sender_id = text_field s ''sender_id'', msg_timestamp = int_field s ''timestamp'',
        msg_type = int_field s ''type'', msg_content = bytes_field s ''content'',
        msg_nonce = bytes_field s ''nonce'', msg_signature = bytes_field s ''signature''\<rparr>)
      (json_unmarshal data (message_struct (True, True, True) zero_message))"

definition request_struct :: "bool \<times> bool \<times> bool \<Rightarrow> send_request \<Rightarrow> struct" where
  "request_struct nils q =
    [(''channel_id'', Text (sr_channel_id q)),
     (''content'', slice (fst nils) (sr_content q)), (''nonce'', slice (fst (snd nils)) (sr_nonce q)),
     (''signature'', slice (snd (snd nils)) (sr_signature q)), (''type'', Number 64 (sr_type q))]"

definition zero_request :: struct where
  "zero_request = request_struct (True, True, True)
     \<lparr>sr_channel_id = [], sr_content = [], sr_nonce = [], sr_signature = [], sr_type = 0\<rparr>"

definition request_of :: "struct \<Rightarrow> send_request" where
  "request_of s =
    \<lparr>sr_channel_id = text_field s ''channel_id'', sr_content = bytes_field s ''content'',
     sr_nonce = bytes_field s ''nonce'', sr_signature = bytes_field s ''signature'', sr_type = int_field s ''type''\<rparr>"

definition decode_send_body :: "string \<Rightarrow> send_request option" where
  "decode_send_body body = map_option request_of (decoder_decode body zero_request)"

definition decode_send_frame :: "string \<Rightarrow> send_request option" where
  "decode_send_frame frame = map_option request_of (json_unmarshal frame zero_request)"

subsection \<open>Round trips\<close>

lemma slice_simps [simp]:
  "same_slot (slice a x) (slice b y)" "read_back (slice a x) = (if x = [] \<and> a then Bytes None [] else Bytes (Some x) x)"
  by (simp_all add: slice_def)

lemma slot_kinds [simp]:
  "same_slot (Text x) (Text y)" "same_slot (Number w n) (Number w k) \<longleftrightarrow> in_width w n"
  by simp_all

lemma message_names:
  "list_all (\<lambda>(k, v). list_all plain k) (message_struct nils m)"
  "distinct (map (fold_name \<circ> fst) (message_struct nils m))"
  "list_all (\<lambda>(k, v). list_all plain k) (request_struct nils q)"
  "distinct (map (fold_name \<circ> fst) (request_struct nils q))"
  by (simp_all add: message_struct_def request_struct_def name_simps)

lemma message_decodes:
  assumes "in_width 64 (msg_timestamp m)" "in_width 64 (msg_type m)"
  shows "DecodeMessage (EncodeMessage nils m) =
    Some (m\<lparr>msg_id := to_valid (msg_id m), msg_channel_id := to_valid (msg_channel_id m),
            msg_sender_id := to_valid (msg_sender_id m)\<rparr>)"
proof -
  have "list_all2 (\<lambda>(k, x) (n, y). k = n \<and> same_slot x y) (message_struct nils m)
      (message_struct (True, True, True) zero_message)"
    using assms by (simp add: message_struct_def)
  from struct_roundtrip [OF message_names(1,2) this] show ?thesis
    by (simp add: DecodeMessage_def EncodeMessage_def) (simp add: message_struct_def field_defs)
qed

lemma request_decodes:
  assumes "in_width 64 (sr_type q)"
  shows "decode_send_frame (json_marshal (request_struct nils q)) =
      Some (q\<lparr>sr_channel_id := to_valid (sr_channel_id q)\<rparr>)"
    and "decode_send_body (json_marshal (request_struct nils q)) =
      Some (q\<lparr>sr_channel_id := to_valid (sr_channel_id q)\<rparr>)"
proof -
  have "list_all2 (\<lambda>(k, x) (n, y). k = n \<and> same_slot x y) (request_struct nils q) zero_request"
    using assms by (simp add: request_struct_def zero_request_def)
  note r = struct_roundtrip [OF message_names(3,4) this]
  have "request_of (map (apsnd read_back) (request_struct nils q)) = q\<lparr>sr_channel_id := to_valid (sr_channel_id q)\<rparr>"
    by (simp add: request_struct_def request_of_def field_defs)
  then show "decode_send_frame (json_marshal (request_struct nils q)) =
      Some (q\<lparr>sr_channel_id := to_valid (sr_channel_id q)\<rparr>)"
    and "decode_send_body (json_marshal (request_struct nils q)) =
      Some (q\<lparr>sr_channel_id := to_valid (sr_channel_id q)\<rparr>)"
    using r decoder_unmarshal [OF r] by (simp_all add: decode_send_frame_def decode_send_body_def)
qed

subsection \<open>From the sender's JSON to the receivers' JSON\<close>

text \<open>C5: The encrypted payload travels unchanged.  When a client posts the JSON of a request to \<open>/send\<close> and
  the answer is 200, the bytes that every open connection with room, whose user has access to the channel,
  gets for this message decode to a message with the content, nonce, signature and type of the request and
  the authenticated user as its sender, whichever goroutines run meanwhile.\<close>

theorem payload_travels_unchanged:
  assumes "me_decode_send e = decode_send_body" "rq_body r = json_marshal (request_struct nils q)"
    and "in_width 64 (sr_type q)" "in_width 64 (unix_milli (me_now e))"
    and "router_reach s" "chan_inv (rt_db s)" "sendHandler e w r s = (Json p, s')"
    and "rt_heap s n = Some c" "\<not> cl_closed c" "length (cl_queue c) < 256"
    and "may_access (rt_db s') (cl_user c) (msg_channel_id (last (messages_of (rt_db s'))))"
    and "delivery_run s' out t"
  shows "\<exists>u m later d. authenticate e (rt_db s) r = Inr u \<and>
    taken n out @ fst (write_loop n (\<lambda>_. True) t) = cl_queue c @ m # later \<and>
    DecodeMessage (EncodeMessage nils' m) = Some d \<and>
    msg_content d = sr_content q \<and> msg_nonce d = sr_nonce q \<and> msg_signature d = sr_signature q \<and>
    msg_type d = sr_type q \<and> msg_sender_id d = to_valid u"
proof -
  obtain q' u ch db1 m db2 where s: "me_decode_send e (rq_body r) = Some q'" "authenticate e (rt_db s) r = Inr u"
    "SaveMessage (at (me_fault e) C_Save) (me_now e) (me_uuid e) db1 q' u ch = (Inr m, db2)"
    "Broadcast (at (me_fault e) C_Broadcast) m (set_db db2 (set_db db1 s)) = (None, s')"
    using assms(7) by (rule send_Json_cases)
  have q': "q' = q\<lparr>sr_channel_id := to_valid (sr_channel_id q)\<rparr>"
    using s(1) request_decodes(2) [OF assms(3), of nils] by (simp add: assms(1,2))
  have m: "m = \<lparr>msg_id = me_uuid e, msg_channel_id = ch, msg_sender_id = u, msg_timestamp = unix_milli (me_now e),
      msg_type = sr_type q, msg_content = sr_content q, msg_nonce = sr_nonce q, msg_signature = sr_signature q\<rparr>"
    using s(3) by (auto simp: SaveMessage_def Let_def q' split: option.splits)
  have "rt_db s' = db2"
    using Broadcast_db [of "at (me_fault e) C_Broadcast" m "set_db db2 (set_db db1 s)"] s(4) by simp
  then have "last (messages_of (rt_db s')) = m" using SaveMessage_Inr [OF s(3)] by (auto simp: messages_of_def)
  with written_after_send [OF assms(5-12)] obtain later where
    "taken n out @ fst (write_loop n (\<lambda>_. True) t) = cl_queue c @ m # later" by auto
  moreover have "in_width 64 (msg_timestamp m)" "in_width 64 (msg_type m)" using assms(3,4) by (simp_all add: m)
  note message_decodes [OF this, of nils']
  ultimately show ?thesis using s(2) by (auto simp: m)
qed

definition ex_json_env :: msg_env where
  "ex_json_env = ex_env\<lparr>me_decode_send := decode_send_body, me_decode_frame := decode_send_frame\<rparr>"

definition ex_send_json :: string where
  "ex_send_json = json_marshal (request_struct (False, True, True)
     \<lparr>sr_channel_id = ''g'', sr_content = ''hi'', sr_nonce = [], sr_signature = [], sr_type = 0\<rparr>)"

lemma ex_json_send:
  "sendHandler ex_json_env w (ex_req ''POST'' ''alice'' ex_send_json) s =
    sendHandler ex_env w (ex_req ''POST'' ''alice'' ''g'') s"
  "authenticate ex_json_env db (ex_req ''POST'' ''alice'' ex_send_json) =
    authenticate ex_env db (ex_req ''POST'' ''alice'' ''g'')"
proof -
  let ?r = "ex_req ''POST'' ''alice'' ex_send_json"
  have "to_valid ''g'' = ''g''" by simp
  then have "decode_send_body ex_send_json = me_decode_send ex_env ''g''"
    by (simp add: ex_send_json_def request_decodes(2) in_width_def ex_env_def)
  then have q: "me_decode_send ex_json_env (rq_body ?r) = me_decode_send ex_env (rq_body (ex_req ''POST'' ''alice'' ''g''))"
    by (simp add: ex_json_env_def ex_req_def)
  have e: "me_fault ex_json_env = me_fault ex_env" "me_now ex_json_env = me_now ex_env" "me_uuid ex_json_env = me_uuid ex_env"
    "rq_method ?r = rq_method (ex_req ''POST'' ''alice'' ''g'')"
    by (simp_all add: ex_json_env_def ex_req_def)
  have b: "bearerToken ?r = bearerToken (ex_req ''POST'' ''alice'' ''g'')" "validateToken ex_json_env = validateToken ex_env"
    by (simp add: bearerToken_def ex_req_def Let_def) (simp add: fun_eq_iff validateToken_def ex_json_env_def)
  show a: "authenticate ex_json_env db ?r = authenticate ex_env db (ex_req ''POST'' ''alice'' ''g'')" for db
    unfolding authenticate_def e b ..
  show "sendHandler ex_json_env w ?r s = sendHandler ex_env w (ex_req ''POST'' ''alice'' ''g'') s"
    unfolding sendHandler_def q e a ..
qed

theorem payload_travels_unchanged_witness:
  "\<exists>s' m later d. sendHandler ex_json_env ex_writer (ex_req ''POST'' ''alice'' ex_send_json) ex_router =
      (Json (P_Send ''m1'' True), s') \<and>
    fst (write_loop 0 (\<lambda>_. True) (Unregister 0 s')) = m # later \<and>
    DecodeMessage (EncodeMessage (False, True, True) m) = Some d \<and> msg_content d = ''hi'' \<and> msg_sender_id d = ''a''"
proof -
  let ?r = "ex_req ''POST'' ''alice'' ex_send_json"
  let ?h = "sendHandler ex_json_env ex_writer ?r ex_router"
  let ?c = "\<lparr>cl_user = ''b'', cl_queue = [], cl_closed = False\<rparr>"
  have "fst ?h = Json (P_Send ''m1'' True)" unfolding ex_json_send by code_simp
  then have send: "?h = (Json (P_Send ''m1'' True), snd ?h)" by (simp add: prod_eq_iff)
  have env: "me_decode_send ex_json_env = decode_send_body" "in_width 64 (unix_milli (me_now ex_json_env))"
    by (simp_all add: ex_json_env_def ex_env_def in_width_def unix_milli_def duration_defs)
  have body: "rq_body ?r = json_marshal (request_struct (False, True, True)
      \<lparr>sr_channel_id = ''g'', sr_content = ''hi'', sr_nonce = [], sr_signature = [], sr_type = 0\<rparr>)"
    by (simp add: ex_req_def ex_send_json_def)
  have heap: "rt_heap ex_router 0 = Some ?c" "\<not> cl_closed ?c" "length (cl_queue ?c) < 256"
    by (simp_all add: ex_router_def Register_def NewMessageRouter_def)
  have reach: "router_reach ex_router" unfolding ex_router_def by (rule rr_step [OF rr_init rs_register])
  have access: "may_access (rt_db (snd ?h)) (cl_user ?c) (msg_channel_id (last (messages_of (rt_db (snd ?h)))))"
    unfolding ex_json_send by code_simp
  have "rt_heap (snd ?h) 0 \<noteq> None" unfolding ex_json_send by code_simp
  then have run: "delivery_run (snd ?h) [] (Unregister 0 (snd ?h))" by (blast intro: dr_start dr_quiet qs_unregister)
  have auth: "authenticate ex_json_env (rt_db ex_router) ?r = Inr ''a''" unfolding ex_json_send by code_simp
  have "to_valid ''a'' = ''a''" by simp
  with payload_travels_unchanged [OF env(1) body _ env(2) reach ex_router_inv(2) send heap access run,
      of "(False, True, True)"] auth
  obtain m later d where "fst (write_loop 0 (\<lambda>_. True) (Unregister 0 (snd ?h))) = m # later"
    "DecodeMessage (EncodeMessage (False, True, True) m) = Some d" "msg_content d = ''hi''" "msg_sender_id d = ''a''"
    by (auto simp: in_width_def)
  with send show ?thesis
    by (intro exI [of _ "snd ?h"] exI [of _ m] exI [of _ later] exI [of _ d] conjI)
qed

end
