(* ===== verification/Requests.thy ===== *)
theory Requests
  imports AuthProps Wire
begin

section \<open>The JSON of the other requests\<close>

text \<open>
  The request bodies of \<open>auth\<close>, \<open>presence\<close> and \<open>/dm\<close>, read by \<open>Decoder.Decode\<close>, and what they give in the
  place of the arguments that the handlers have for their decoders.
\<close>

definition register_struct :: "register_request \<Rightarrow> struct" where
  "register_struct q =
    [(''username'', Text (rr_username q)), (''full_name'', Text (rr_full_name q)),
     (''password'', Text (rr_password q)), (''role'', Text (rr_role q))]"

definition decode_register :: "string \<Rightarrow> register_request option" where
  "decode_register body =
    map_option (\<lambda>s. \<lparr>rr_username = text_field s ''username'', rr_full_name = text_field s ''full_name'',
        rr_password = text_field s ''password'', rr_role = text_field s ''role''\<rparr>)
      (decoder_decode body [(''username'', Text []), (''full_name'', Text []), (''password'', Text []), (''role'', Text [])])"

definition login_struct :: "login_request \<Rightarrow> struct" where
  "login_struct q = [(''username'', Text (lr_username q)), (''password'', Text (lr_password q))]"

definition decode_login :: "string \<Rightarrow> login_request option" where
  "decode_login body =
    map_option (\<lambda>s. \<lparr>lr_username = text_field s ''username'', lr_password = text_field s ''password''\<rparr>)
      (decoder_decode body [(''username'', Text []), (''password'', Text [])])"

definition decode_dm :: "string \<Rightarrow> string option" where
  "decode_dm body = map_option (\<lambda>s. text_field s ''target_user_id'') (decoder_decode body [(''target_user_id'', Text [])])"

definition decode_heartbeat :: "string \<Rightarrow> (string \<times> int) option" where
  "decode_heartbeat body =
    map_option (\<lambda>s. (text_field s ''user_id'', int_field s ''status''))
      (decoder_decode body [(''user_id'', Text []), (''status'', Number 64 0)])"

lemma register_decodes:
  "decode_register (json_marshal (register_struct q)) =
    Some \<lparr>rr_username = to_valid (rr_username q), rr_full_name = to_valid (rr_full_name q),
          rr_password = to_valid (rr_password q), rr_role = to_valid (rr_role q)\<rparr>"
  by (subst decode_register_def, subst decoder_roundtrip)
    (simp_all add: register_struct_def field_defs name_simps)

lemma login_decodes:
  "decode_login (json_marshal (login_struct q)) =
    Some \<lparr>lr_username = to_valid (lr_username q), lr_password = to_valid (lr_password q)\<rparr>"
  by (subst decode_login_def, subst decoder_roundtrip) (simp_all add: login_struct_def field_defs name_simps)

lemma dm_decodes: "decode_dm (json_marshal [(''target_user_id'', Text u)]) = Some (to_valid u)"
  by (subst decode_dm_def, subst decoder_roundtrip) (simp_all add: field_defs name_simps)

lemma heartbeat_decodes:
  "in_width 64 st \<Longrightarrow>
    decode_heartbeat (json_marshal [(''user_id'', Text u), (''status'', Number 64 st)]) = Some (to_valid u, st)"
  by (subst decode_heartbeat_def, subst decoder_roundtrip) (simp_all add: field_defs name_simps)

text \<open>A user who registers with the JSON of a request logs in with the JSON of the same name and password,
  whatever bytes these consist of: the decoder replaces the same ones in both.\<close>

theorem register_then_login_over_json:
  assumes "au_decode_register e = decode_register" "rq_body r = json_marshal (register_struct q)"
    and "au_decode_login e' = decode_login"
    and "rq_body r' = json_marshal (login_struct \<lparr>lr_username = rr_username q, lr_password = rr_password q\<rparr>)"
    and "argon2_length e" "RegisterHandler e w r db = (Status_Json 201 x, db')"
    and "au_argon2 e' = au_argon2 e" "\<not> au_fault e'" "rq_method r' = ''POST''"
    and "t_roles db = Some rs" "\<And>n ro. GenerateToken e' n ro \<noteq> None"
  shows "\<exists>tok role. LoginHandler e' w' r' db' = (Json (P_Token tok (au_uuid e) role), db')"
  using registered_user_logs_in [OF assms(5,6) _ assms(7-9) _ assms(10,11), of
      "\<lparr>rr_username = to_valid (rr_username q), rr_full_name = to_valid (rr_full_name q),
        rr_password = to_valid (rr_password q), rr_role = to_valid (rr_role q)\<rparr>" w']
  by (simp add: assms(1-4) register_decodes login_decodes) blast

end
