(* ===== verification/AdminCore.thy ===== *)
theory AdminCore
  imports PlatformDB Http
begin

section \<open>The admin API: accounts, tokens, access control, audit trail\<close>

text \<open>
  \<open>admin-api/internal/{auth,middleware,audit}\<close>.  A handler gets the surroundings of the request
  (\<open>admin_env\<close>: token library, bcrypt, clock, identifiers, binder, faults), the claims that
  \<open>JWTAuth\<close> put into the context, and the shared database.  Every reply is \<open>c.JSON(code, ...)\<close>.
  \<open>ad_fault\<close> names the failing statements; the audit insert is \<open>[C_Audit, Stmt k]\<close>.
\<close>

record admin_claims =
  ac_user_id :: string
  ac_username :: string
  ac_role :: string

record admin_user =
  au_id :: string
  au_username :: string
  au_role :: string
  au_created :: int
  au_updated :: int

record user_view =
  uv_id :: string
  uv_username :: string
  uv_full_name :: string
  uv_role_id :: string
  uv_department_id :: string
  uv_created :: int
  uv_updated :: int

record channel_info =
  ci_id :: string
  ci_name :: string
  ci_type :: string
  ci_department_id :: string
  ci_created :: int
  ci_updated :: int
  ci_created_by :: string

record member_info =
  mi_id :: string
  mi_username :: string
  mi_full_name :: string
  mi_role :: string
  mi_joined :: int

record role_view =
  rv_id :: string
  rv_name :: string
  rv_permissions :: "string list"
  rv_created :: int
  rv_updated :: int

record log_view =
  lv_id :: nat
  lv_time :: instant
  lv_actor_id :: string
  lv_actor_username :: string
  lv_action :: string
  lv_target :: string
  lv_details :: string
  lv_ip :: string

datatype admin_payload =
    A_Error string
  | A_Err
  | A_Login string admin_user int
  | A_Claims admin_claims
  | A_Created string string
  | A_CreatedAs string string string
  | A_Ok
  | A_Users "user_view list"
  | A_Roles "role_view list"
  | A_Departments "department_row list"
  | A_Devices "device_row list"
  | A_Channels "channel_info list"
  | A_Members "member_info list"
  | A_Logs "log_view list"

record admin_user_request =
  aq_username :: string
  aq_full_name :: string
  aq_password :: string
  aq_role :: string
  aq_department :: string

record role_request =
  rq_name :: string
  rq_permissions :: "string list"

record channel_request =
  cq_name :: string
  cq_type :: string
  cq_department :: string

record member_request =
  mq_user_id :: string
  mq_role :: string

text \<open>The binders are the decoding half of \<open>ShouldBindJSON\<close>; the required fields are checked in the
  handlers.\<close>

record admin_env =
  ad_secret_var :: string
  ad_parse :: "string \<Rightarrow> string \<Rightarrow> (admin_claims \<times> bool) option"
  ad_sign :: "string \<Rightarrow> admin_claims \<Rightarrow> instant \<Rightarrow> instant \<Rightarrow> string option"
  ad_bcrypt_hash :: "string \<Rightarrow> string option"
  ad_bcrypt_check :: "string \<Rightarrow> string \<Rightarrow> bool"
  ad_uuid :: string
  ad_now :: instant
  ad_fault :: fault
  ad_client_ip :: "request \<Rightarrow> string"
  ad_get_query :: "request \<Rightarrow> string \<Rightarrow> string option"
  ad_bind_user :: "string \<Rightarrow> admin_user_request option"
  ad_bind_role :: "string \<Rightarrow> role_request option"
  ad_bind_channel :: "string \<Rightarrow> channel_request option"
  ad_bind_member :: "string \<Rightarrow> member_request option"
  ad_bind_name :: "string \<Rightarrow> string option"
  ad_json_strings :: "string \<Rightarrow> string list"
  ad_json_of_strings :: "string list \<Rightarrow> string"

type_synonym admin_handler =
  "admin_env \<Rightarrow> admin_claims \<Rightarrow> request \<Rightarrow> platform_db \<Rightarrow> admin_payload reply \<times> platform_db"

abbreviation bad_request :: "admin_payload reply" where
  "bad_request \<equiv> Status_Json 400 (A_Error ''invalid request'')"

subsection \<open>Accounts and tokens\<close>

definition getSecret :: "string \<Rightarrow> string" where
  "getSecret v = (if v = [] then ''change-me-in-production-local-only'' else v)"

definition AdminGenerateToken :: "admin_env \<Rightarrow> admin_user \<Rightarrow> duration \<Rightarrow> string option" where
  "AdminGenerateToken e u expires =
    ad_sign e (getSecret (ad_secret_var e))
      \<lparr>ac_user_id = au_id u, ac_username = au_username u, ac_role = au_role u\<rparr>
      (ad_now e + expires) (ad_now e)"

definition ParseToken :: "admin_env \<Rightarrow> string \<Rightarrow> admin_claims option" where
  "ParseToken e tok =
    (case ad_parse e (getSecret (ad_secret_var e)) tok of
       None \<Rightarrow> None
     | Some (c, valid) \<Rightarrow> (if valid then Some c else None))"

definition CheckPassword :: "admin_env \<Rightarrow> string \<Rightarrow> string \<Rightarrow> bool" where
  "CheckPassword e hash password = ad_bcrypt_check e hash password"

definition admin_of_row :: "admin_user_row \<Rightarrow> admin_user" where
  "admin_of_row r =
    \<lparr>au_id = adm_id r, au_username = adm_username r, au_role = adm_role r,
     au_created = adm_created_at r, au_updated = adm_updated_at r\<rparr>"

definition Login :: "admin_env \<Rightarrow> platform_db \<Rightarrow> string \<Rightarrow> string \<Rightarrow> admin_user option" where
  "Login e db username password =
    (case query_row (ad_fault e [Stmt 0]) (\<lambda>r. adm_username r = username) (t_admin_users db) of
       Inl _ \<Rightarrow> None
     | Inr r \<Rightarrow> (if CheckPassword e (adm_password_hash r) password then Some (admin_of_row r) else None))"

definition CreateAdminUser ::
  "admin_env \<Rightarrow> platform_db \<Rightarrow> string \<Rightarrow> string \<Rightarrow> string \<Rightarrow> admin_user option \<times> platform_db" where
  "CreateAdminUser e db username password role =
    (case ad_bcrypt_hash e password of
       None \<Rightarrow> (None, db)
     | Some hash \<Rightarrow>
         (let now = unix_sec (ad_now e);
              row = \<lparr>adm_id = ad_uuid e, adm_username = username, adm_password_hash = hash,
                     adm_role = role, adm_created_at = now, adm_updated_at = now\<rparr>
          in case exec_insert (ad_fault e [Stmt 1]) ins_admin_user row (t_admin_users db) of
               None \<Rightarrow> (None, db)
             | Some t \<Rightarrow> (Some (admin_of_row row), db\<lparr>t_admin_users := t\<rparr>)))"

text \<open>The count stays 0 when its query fails.\<close>

definition EnsureSuperAdmin :: "admin_env \<Rightarrow> string \<Rightarrow> string \<Rightarrow> platform_db \<Rightarrow> platform_db" where
  "EnsureSuperAdmin e username password db =
    (case query (ad_fault e [Stmt 0]) (t_admin_users db) of
       Inr (r # rs) \<Rightarrow> db
     | _ \<Rightarrow> snd (CreateAdminUser e db username password ''super_admin''))"

definition AdminLoginHandler ::
  "admin_env \<Rightarrow> request \<Rightarrow> platform_db \<Rightarrow> admin_payload reply \<times> platform_db" where
  "AdminLoginHandler e r db =
    (case ad_bind_user e (rq_body r) of
       None \<Rightarrow> (bad_request, db)
     | Some q \<Rightarrow>
         (if aq_username q = [] \<or> aq_password q = [] then (bad_request, db)
          else (case Login e db (aq_username q) (aq_password q) of
                  None \<Rightarrow> (Status_Json 401 (A_Error ''invalid credentials''), db)
                | Some u \<Rightarrow>
                    (case AdminGenerateToken e u (24 * 60 * minute) of
                       None \<Rightarrow> (Status_Json 500 (A_Error ''token generation failed''), db)
                     | Some tok \<Rightarrow>
                         (Status_Json 200 (A_Login tok u (unix_sec (ad_now e + 24 * 60 * minute))), db)))))"

definition MeHandler :: admin_handler where
  "MeHandler e c r db = (Status_Json 200 (A_Claims c), db)"

definition CreateAdminHandler :: admin_handler where
  "CreateAdminHandler e c r db =
    (case ad_bind_user e (rq_body r) of
       None \<Rightarrow> (bad_request, db)
     | Some q \<Rightarrow>
         (if aq_username q = [] \<or> aq_password q = [] then (bad_request, db)
          else
            (let role = (if aq_role q = [] then ''admin'' else aq_role q);
                 (x, db') = CreateAdminUser e db (aq_username q) (aq_password q) role
             in case x of
                  None \<Rightarrow> (Status_Json 409 (A_Error ''username already exists''), db')
                | Some u \<Rightarrow> (Status_Json 201 (A_CreatedAs (au_id u) (au_username u) (au_role u)), db'))))"

subsection \<open>The audit trail\<close>

text \<open>\<open>audit.Log\<close>, whose error every caller ignores; the identifier is the AUTOINCREMENT counter.\<close>

definition audit_Log ::
  "admin_env \<Rightarrow> nat \<Rightarrow> admin_claims \<Rightarrow> string \<Rightarrow> string \<Rightarrow> string \<Rightarrow> request \<Rightarrow> platform_db \<Rightarrow> platform_db"
where
  "audit_Log e k c action target details r db =
    (if ad_fault e [C_Audit, Stmt k] then db
     else (case t_audit_logs db of
             None \<Rightarrow> db
           | Some rs \<Rightarrow>
               db\<lparr>t_audit_logs := Some (rs @ [\<lparr>aud_id = Suc (t_audit_seq db),
                    aud_timestamp = unix_sec (ad_now e), aud_actor_id = ac_user_id c,
                    aud_actor_username = ac_username c, aud_action = action, aud_target = target,
                    aud_details = details, aud_ip = ad_client_ip e r\<rparr>]),
                  t_audit_seq := Suc (t_audit_seq db)\<rparr>))"

text \<open>\<open>GetList\<close>: a negative limit means no limit for SQLite, a negative offset none.\<close>

definition log_view_of :: "audit_row \<Rightarrow> log_view" where
  "log_view_of a =
    \<lparr>lv_id = aud_id a, lv_time = time_unix (aud_timestamp a), lv_actor_id = aud_actor_id a,
     lv_actor_username = aud_actor_username a, lv_action = aud_action a, lv_target = aud_target a,
     lv_details = aud_details a, lv_ip = aud_ip a\<rparr>"

definition sql_page :: "int \<Rightarrow> int \<Rightarrow> 'a list \<Rightarrow> 'a list" where
  "sql_page offset limit xs =
    (let ys = drop (nat offset) xs in if limit < 0 then ys else take (nat limit) ys)"

definition GetList ::
  "bool \<Rightarrow> platform_db \<Rightarrow> int \<Rightarrow> int \<Rightarrow> string \<Rightarrow> string \<Rightarrow> log_view list option" where
  "GetList f db offset limit actor action =
    (case query f (t_audit_logs db) of
       Inl _ \<Rightarrow> None
     | Inr rs \<Rightarrow>
         Some (map log_view_of (sql_page offset limit
           (sort_key (\<lambda>a. - aud_timestamp a)
             (filter (\<lambda>a. (actor = [] \<or> aud_actor_id a = actor) \<and> (action = [] \<or> aud_action a = action)) rs)))))"

text \<open>\<open>strconv.Atoi\<close>: the value that is used when the error is ignored (0 for a syntax error, the
  nearest 64-bit bound when out of range).\<close>

definition atoi_digits :: "string \<Rightarrow> int option" where
  "atoi_digits s =
    (if s \<noteq> [] \<and> list_all (\<lambda>c. 48 \<le> (of_char c :: nat) \<and> (of_char c :: nat) \<le> 57) s
     then Some (foldl (\<lambda>n c. n * 10 + (of_char c - 48)) 0 s) else None)"

definition atoi :: "string \<Rightarrow> int" where
  "atoi s =
    (let (neg, t) = (case s of
           [] \<Rightarrow> (False, [])
         | c # cs \<Rightarrow> if c = CHR ''-'' then (True, cs) else if c = CHR ''+'' then (False, cs) else (False, s))
     in case atoi_digits t of
          None \<Rightarrow> 0
        | Some n \<Rightarrow> (if neg then max (- (2 ^ 63)) (- n) else min (2 ^ 63 - 1) n))"

definition default_query :: "admin_env \<Rightarrow> request \<Rightarrow> string \<Rightarrow> string \<Rightarrow> string" where
  "default_query e r k d = (case ad_get_query e r k of None \<Rightarrow> d | Some v \<Rightarrow> v)"

definition AuditListHandler :: admin_handler where
  "AuditListHandler e c r db =
    (let offset = atoi (default_query e r ''offset'' ''0'');
         limit0 = atoi (default_query e r ''limit'' ''50'');
         limit = (if limit0 > 200 then 200 else limit0)
     in case GetList (ad_fault e [Stmt 0]) db offset limit (rq_query r ''actor_id'') (rq_query r ''action'') of
          None \<Rightarrow> (Status_Json 500 A_Err, db)
        | Some ls \<Rightarrow> (Status_Json 200 (A_Logs ls), db))"

subsection \<open>Middleware\<close>

definition adminRoles :: "string \<Rightarrow> bool" where
  "adminRoles role \<longleftrightarrow> role = ''super_admin'' \<or> role = ''admin''"

text \<open>\<open>JWTAuth\<close>: the claims, or the abort reply.\<close>

definition JWTAuth :: "admin_env \<Rightarrow> request \<Rightarrow> admin_payload reply + admin_claims" where
  "JWTAuth e r =
    (let raw = rq_header r ''Authorization''; parts = split_n2 CHR '' '' raw in
     if raw = [] then Inl (Status_Json 401 (A_Error ''missing authorization''))
     else if length parts \<noteq> 2 \<or> parts ! 0 \<noteq> ''Bearer''
     then Inl (Status_Json 401 (A_Error ''invalid authorization''))
     else (case ParseToken e (parts ! 1) of
             None \<Rightarrow> Inl (Status_Json 401 (A_Error ''invalid token''))
           | Some c \<Rightarrow> Inr c))"

definition RequireAdmin :: "admin_claims \<Rightarrow> admin_payload reply option" where
  "RequireAdmin c =
    (if adminRoles (ac_role c) then None
     else Some (Status_Json 403 (A_Error ''admin access required'')))"

text \<open>\<open>Audit(action, target)\<close> around a handler: the entry is written afterwards, whatever the handler
  answered.\<close>

definition Audit :: "string \<Rightarrow> string \<Rightarrow> admin_handler \<Rightarrow> admin_handler" where
  "Audit action target h e c r db =
    (let (rep, db') = h e c r db in (rep, audit_Log e 9 c action target (rq_path r) r db'))"

definition protected ::
  "admin_handler \<Rightarrow> admin_env \<Rightarrow> request \<Rightarrow> platform_db \<Rightarrow> admin_payload reply \<times> platform_db" where
  "protected h e r db =
    (case JWTAuth e r of
       Inl rep \<Rightarrow> (rep, db)
     | Inr c \<Rightarrow> (case RequireAdmin c of Some rep \<Rightarrow> (rep, db) | None \<Rightarrow> h e c r db))"

end
