(* ===== verification/AdminCrud.thy ===== *)
theory AdminCrud
  imports AdminCore
begin

section \<open>The admin API: users, roles, departments, devices, channels\<close>

text \<open>
  \<open>admin-api/internal/{users,roles,departments,devices,channels}/handler.go\<close>.  A list handler scans
  each row column by column and ignores a scan error, so a NULL leaves that field and the ones after
  it at their zero values.
\<close>

subsection \<open>Users\<close>

definition scan_user :: "user_row \<Rightarrow> user_view" where
  "scan_user u =
    (let v0 = \<lparr>uv_id = usr_id u, uv_username = usr_username u, uv_full_name = [], uv_role_id = [],
               uv_department_id = [], uv_created = 0, uv_updated = 0\<rparr>
     in case usr_full_name u of
          None \<Rightarrow> v0
        | Some fn \<Rightarrow>
            (case usr_role_id u of
               None \<Rightarrow> v0\<lparr>uv_full_name := fn\<rparr>
             | Some ro \<Rightarrow>
                 (case usr_department_id u of
                    None \<Rightarrow> v0\<lparr>uv_full_name := fn, uv_role_id := ro\<rparr>
                  | Some d \<Rightarrow>
                      v0\<lparr>uv_full_name := fn, uv_role_id := ro, uv_department_id := d,
                         uv_created := usr_created_at u, uv_updated := usr_updated_at u\<rparr>)))"

definition users_List :: "admin_env \<Rightarrow> platform_db \<Rightarrow> admin_payload reply" where
  "users_List e db =
    (case query (ad_fault e [Stmt 0]) (t_users db) of
       Inl _ \<Rightarrow> Status_Json 500 A_Err
     | Inr us \<Rightarrow> Status_Json 200 (A_Users (map scan_user (sort_key (\<lambda>u. - usr_created_at u) us))))"

definition users_Create :: admin_handler where
  "users_Create e c r db =
    (case ad_bind_user e (rq_body r) of
       None \<Rightarrow> (bad_request, db)
     | Some q \<Rightarrow>
         (if aq_username q = [] \<or> aq_password q = [] then (bad_request, db)
          else (case ad_bcrypt_hash e (aq_password q) of
                  None \<Rightarrow> (Status_Json 500 (A_Error ''hash failed''), db)
                | Some hash \<Rightarrow>
                    (let i = ad_uuid e; now = unix_sec (ad_now e);
                         row = \<lparr>usr_id = i, usr_username = aq_username q,
                                usr_full_name = Some (aq_full_name q), usr_password_hash = hash,
                                usr_role_id = Some (aq_role q), usr_department_id = Some (aq_department q),
                                usr_created_at = now, usr_updated_at = now\<rparr>
                     in case exec_insert (ad_fault e [Stmt 1]) ins_user row (t_users db) of
                          None \<Rightarrow> (Status_Json 409 (A_Error ''user exists or db error''), db)
                        | Some t \<Rightarrow>
                            (Status_Json 201 (A_Created i (aq_username q)),
                             audit_Log e 0 c ''user.create'' (''users/'' @ i) (aq_username q) r
                               (db\<lparr>t_users := t\<rparr>))))))"

text \<open>The password of the request is not used.\<close>

definition apply_user_update :: "int \<Rightarrow> admin_user_request \<Rightarrow> user_row \<Rightarrow> user_row" where
  "apply_user_update now q u =
    (let u1 = u\<lparr>usr_updated_at := now\<rparr>;
         u2 = (if aq_username q \<noteq> [] then u1\<lparr>usr_username := aq_username q\<rparr> else u1);
         u3 = (if aq_full_name q \<noteq> [] then u2\<lparr>usr_full_name := Some (aq_full_name q)\<rparr> else u2);
         u4 = (if aq_role q \<noteq> [] then u3\<lparr>usr_role_id := Some (aq_role q)\<rparr> else u3)
     in (if aq_department q \<noteq> [] then u4\<lparr>usr_department_id := Some (aq_department q)\<rparr> else u4))"

definition unique_usernames :: "user_row list \<Rightarrow> bool" where
  "unique_usernames us \<longleftrightarrow> distinct (map usr_username us)"

definition users_Update :: "string \<Rightarrow> admin_handler" where
  "users_Update i e c r db =
    (case ad_bind_user e (rq_body r) of
       None \<Rightarrow> (bad_request, db)
     | Some q \<Rightarrow>
         (case exec_update (ad_fault e [Stmt 0]) unique_usernames (\<lambda>u. usr_id u = i)
                 (apply_user_update (unix_sec (ad_now e)) q) (t_users db) of
            None \<Rightarrow> (Status_Json 500 A_Err, db)
          | Some t \<Rightarrow>
              (Status_Json 200 A_Ok,
               audit_Log e 0 c ''user.update'' (''users/'' @ i) [] r (db\<lparr>t_users := t\<rparr>))))"

definition users_ResetPassword :: "string \<Rightarrow> admin_handler" where
  "users_ResetPassword i e c r db =
    (case ad_bcrypt_hash e ''123456789'' of
       None \<Rightarrow> (Status_Json 500 (A_Error ''hash failed''), db)
     | Some hash \<Rightarrow>
         (case exec_update (ad_fault e [Stmt 0]) unique_usernames (\<lambda>u. usr_id u = i)
                 (\<lambda>u. u\<lparr>usr_password_hash := hash, usr_updated_at := unix_sec (ad_now e)\<rparr>) (t_users db) of
            None \<Rightarrow> (Status_Json 500 A_Err, db)
          | Some t \<Rightarrow>
              (Status_Json 200 A_Ok,
               audit_Log e 0 c ''user.reset_password'' (''users/'' @ i) [] r (db\<lparr>t_users := t\<rparr>))))"

text \<open>The common shape of the delete handlers: an error, no row, or the row and a log entry.\<close>

definition delete_reply ::
  "('r table \<times> nat) option \<Rightarrow> string \<Rightarrow> ('r table \<Rightarrow> platform_db) \<Rightarrow> (platform_db \<Rightarrow> platform_db) \<Rightarrow>
    platform_db \<Rightarrow> admin_payload reply \<times> platform_db" where
  "delete_reply x missing put log db =
    (case x of
       None \<Rightarrow> (Status_Json 500 A_Err, db)
     | Some (t, n) \<Rightarrow>
         (if n = 0 then (Status_Json 404 (A_Error missing), put t)
          else (Status_Json 200 A_Ok, log (put t))))"

definition users_Delete :: "string \<Rightarrow> admin_handler" where
  "users_Delete i e c r db =
    delete_reply (exec_delete (ad_fault e [Stmt 0]) (\<lambda>u. usr_id u = i) (t_users db)) ''not found''
      (\<lambda>t. db\<lparr>t_users := t\<rparr>) (audit_Log e 0 c ''user.delete'' (''users/'' @ i) [] r) db"

subsection \<open>Roles\<close>

definition permEncode :: "admin_env \<Rightarrow> string list \<Rightarrow> string" where
  "permEncode e p = (if p = [] then ''[]'' else ad_json_of_strings e p)"

definition permDecode :: "admin_env \<Rightarrow> string \<Rightarrow> string list" where
  "permDecode e s = (if s = [] \<or> s = ''[]'' then [] else ad_json_strings e s)"

definition scan_role :: "admin_env \<Rightarrow> role_row \<Rightarrow> role_view" where
  "scan_role e ro =
    \<lparr>rv_id = rol_id ro, rv_name = rol_name ro, rv_permissions = permDecode e (rol_permissions ro),
     rv_created = rol_created_at ro, rv_updated = rol_updated_at ro\<rparr>"

definition roles_List :: admin_handler where
  "roles_List e c r db =
    (case query (ad_fault e [Stmt 0]) (t_roles db) of
       Inl _ \<Rightarrow> (Status_Json 500 A_Err, db)
     | Inr rs \<Rightarrow> (Status_Json 200 (A_Roles (map (scan_role e) (sort_key rol_name rs))), db))"

definition roles_Create :: admin_handler where
  "roles_Create e c r db =
    (case ad_bind_role e (rq_body r) of
       None \<Rightarrow> (bad_request, db)
     | Some q \<Rightarrow>
         (if rq_name q = [] then (bad_request, db)
          else
            (let i = ad_uuid e; now = unix_sec (ad_now e);
                 row = \<lparr>rol_id = i, rol_name = rq_name q, rol_permissions = permEncode e (rq_permissions q),
                        rol_created_at = now, rol_updated_at = now\<rparr>
             in case exec_insert (ad_fault e [Stmt 0]) ins_role row (t_roles db) of
                  None \<Rightarrow> (Status_Json 409 (A_Error ''role exists or db error''), db)
                | Some t \<Rightarrow>
                    (Status_Json 201 (A_Created i (rq_name q)),
                     audit_Log e 0 c ''role.create'' (''roles/'' @ i) (rq_name q) r (db\<lparr>t_roles := t\<rparr>)))))"

definition unique_role_names :: "role_row list \<Rightarrow> bool" where
  "unique_role_names rs \<longleftrightarrow> distinct (map rol_name rs)"

text \<open>Both statements' errors are ignored.\<close>

definition update_roles :: "bool \<Rightarrow> string \<Rightarrow> (role_row \<Rightarrow> role_row) \<Rightarrow> platform_db \<Rightarrow> platform_db" where
  "update_roles f i g db =
    (case exec_update f unique_role_names (\<lambda>ro. rol_id ro = i) g (t_roles db) of
       None \<Rightarrow> db
     | Some t \<Rightarrow> db\<lparr>t_roles := t\<rparr>)"

definition roles_Update :: "string \<Rightarrow> admin_handler" where
  "roles_Update i e c r db =
    (case ad_bind_role e (rq_body r) of
       None \<Rightarrow> (bad_request, db)
     | Some q \<Rightarrow>
         (let now = unix_sec (ad_now e);
              db1 = (if rq_name q \<noteq> []
                     then update_roles (ad_fault e [Stmt 0]) i
                            (\<lambda>ro. ro\<lparr>rol_name := rq_name q, rol_updated_at := now\<rparr>) db
                     else db);
              db2 = (if rq_permissions q \<noteq> []
                     then update_roles (ad_fault e [Stmt 1]) i
                            (\<lambda>ro. ro\<lparr>rol_permissions := permEncode e (rq_permissions q),
                                     rol_updated_at := now\<rparr>) db1
                     else db1)
          in (Status_Json 200 A_Ok, audit_Log e 0 c ''role.update'' (''roles/'' @ i) [] r db2)))"

definition roles_Delete :: "string \<Rightarrow> admin_handler" where
  "roles_Delete i e c r db =
    delete_reply (exec_delete (ad_fault e [Stmt 0]) (\<lambda>ro. rol_id ro = i) (t_roles db)) ''not found''
      (\<lambda>t. db\<lparr>t_roles := t\<rparr>) (audit_Log e 0 c ''role.delete'' (''roles/'' @ i) [] r) db"

subsection \<open>Departments and devices\<close>

definition departments_List :: admin_handler where
  "departments_List e c r db =
    (case query (ad_fault e [Stmt 0]) (t_departments db) of
       Inl _ \<Rightarrow> (Status_Json 500 A_Err, db)
     | Inr ds \<Rightarrow> (Status_Json 200 (A_Departments (sort_key dep_name ds)), db))"

definition departments_Create :: admin_handler where
  "departments_Create e c r db =
    (case ad_bind_name e (rq_body r) of
       None \<Rightarrow> (bad_request, db)
     | Some n \<Rightarrow>
         (if n = [] then (bad_request, db)
          else
            (let i = ad_uuid e; now = unix_sec (ad_now e);
                 row = \<lparr>dep_id = i, dep_name = n, dep_created_at = now, dep_updated_at = now\<rparr>
             in case exec_insert (ad_fault e [Stmt 0]) ins_department row (t_departments db) of
                  None \<Rightarrow> (Status_Json 409 (A_Error ''department exists or db error''), db)
                | Some t \<Rightarrow>
                    (Status_Json 201 (A_Created i n),
                     audit_Log e 0 c ''department.create'' (''departments/'' @ i) n r
                       (db\<lparr>t_departments := t\<rparr>)))))"

text \<open>The count stays 0 when its query fails.\<close>

definition users_in_department :: "bool \<Rightarrow> string \<Rightarrow> platform_db \<Rightarrow> nat" where
  "users_in_department f i db =
    (case query f (t_users db) of
       Inl _ \<Rightarrow> 0
     | Inr us \<Rightarrow> length (filter (\<lambda>u. usr_department_id u = Some i) us))"

definition departments_Delete :: "string \<Rightarrow> admin_handler" where
  "departments_Delete i e c r db =
    (if users_in_department (ad_fault e [Stmt 0]) i db > 0
     then (Status_Json 400 (A_Error ''department is not empty (has users)''), db)
     else delete_reply (exec_delete (ad_fault e [Stmt 1]) (\<lambda>d. dep_id d = i) (t_departments db)) ''not found''
            (\<lambda>t. db\<lparr>t_departments := t\<rparr>) (audit_Log e 0 c ''department.delete'' (''departments/'' @ i) [] r) db)"

text \<open>\<open>ORDER BY last_seen DESC\<close>: NULL is the least value.\<close>

definition by_last_seen :: "device_row list \<Rightarrow> device_row list" where
  "by_last_seen ds =
    sort_key (\<lambda>d. - the (dev_last_seen d)) (filter (\<lambda>d. dev_last_seen d \<noteq> None) ds)
      @ filter (\<lambda>d. dev_last_seen d = None) ds"

text \<open>In the answer a missing time is 0.\<close>

definition scan_device :: "device_row \<Rightarrow> device_row" where
  "scan_device d = d\<lparr>dev_last_seen := Some (case dev_last_seen d of None \<Rightarrow> 0 | Some t \<Rightarrow> t)\<rparr>"

definition devices_List :: admin_handler where
  "devices_List e c r db =
    (case query (ad_fault e [Stmt 0]) (t_devices db) of
       Inl _ \<Rightarrow> (Status_Json 500 A_Err, db)
     | Inr ds \<Rightarrow> (Status_Json 200 (A_Devices (map scan_device (by_last_seen ds))), db))"

definition devices_Delete :: "string \<Rightarrow> admin_handler" where
  "devices_Delete i e c r db =
    delete_reply (exec_delete (ad_fault e [Stmt 0]) (\<lambda>d. dev_id d = i) (t_devices db)) ''not found''
      (\<lambda>t. db\<lparr>t_devices := t\<rparr>) (audit_Log e 0 c ''device.delete'' (''devices/'' @ i) [] r) db"

subsection \<open>Channels\<close>

text \<open>Where the messaging service declared the tables, the admin columns do not exist and a statement
  that names them is an error.\<close>

definition no_admin_columns :: "platform_db \<Rightarrow> bool" where
  "no_admin_columns db \<longleftrightarrow> chan_ddl db = DDL_Messaging"

definition scan_channel :: "channel_row \<Rightarrow> channel_info" where
  "scan_channel c =
    (let v0 = \<lparr>ci_id = ch_id c, ci_name = ch_name c, ci_type = ch_type c, ci_department_id = [],
               ci_created = 0, ci_updated = 0, ci_created_by = []\<rparr>
     in case ch_department_id c of
          None \<Rightarrow> v0
        | Some d \<Rightarrow>
            (case ch_created_at c of
               None \<Rightarrow> v0\<lparr>ci_department_id := d\<rparr>
             | Some t \<Rightarrow>
                 (case ch_updated_at c of
                    None \<Rightarrow> v0\<lparr>ci_department_id := d, ci_created := t\<rparr>
                  | Some t' \<Rightarrow>
                      v0\<lparr>ci_department_id := d, ci_created := t, ci_updated := t',
                         ci_created_by := (case ch_created_by c of None \<Rightarrow> [] | Some b \<Rightarrow> b)\<rparr>)))"

definition list_channels ::
  "bool \<Rightarrow> (channel_row \<Rightarrow> bool) \<Rightarrow> platform_db \<Rightarrow> admin_payload reply" where
  "list_channels f P db =
    (case query (f \<or> no_admin_columns db) (t_channels db) of
       Inl _ \<Rightarrow> Status_Json 500 A_Err
     | Inr cs \<Rightarrow> Status_Json 200 (A_Channels (map scan_channel (sort_key ch_name (filter P cs)))))"

definition channels_List :: admin_handler where
  "channels_List e c r db = (list_channels (ad_fault e [Stmt 0]) (\<lambda>_. True) db, db)"

definition channels_ListPublic :: "admin_env \<Rightarrow> platform_db \<Rightarrow> admin_payload reply" where
  "channels_ListPublic e db = list_channels (ad_fault e [Stmt 0]) (\<lambda>c. ch_type c = ''public'') db"

definition channels_Create :: admin_handler where
  "channels_Create e c r db =
    (case ad_bind_channel e (rq_body r) of
       None \<Rightarrow> (bad_request, db)
     | Some q \<Rightarrow>
         (if cq_name q = [] then (bad_request, db)
          else
            (let ty = (if cq_type q = [] then ''public'' else cq_type q);
                 i = ad_uuid e; now = unix_sec (ad_now e); d = chan_ddl db; f = ad_fault e;
                 ch = \<lparr>ch_id = i, ch_name = cq_name q, ch_type = ty,
                       ch_department_id = Some (cq_department q), ch_created_at = Some now,
                       ch_updated_at = Some now, ch_created_by = Some (ac_user_id c)\<rparr>;
                 m = \<lparr>mem_channel_id = i, mem_user_id = ac_user_id c, mem_role = Some ''owner'',
                      mem_joined_at = Some now\<rparr>
             in if f [Stmt 0] then (Status_Json 500 (A_Error ''db error''), db)
                else (case exec_insert (f [Stmt 1] \<or> no_admin_columns db) (ins_channel d) ch (t_channels db) of
                  None \<Rightarrow> (Status_Json 409 (A_Error ''channel exists or db error''), db)
                | Some cs \<Rightarrow>
                    (case exec_insert (f [Stmt 2]) (ins_member d) m (t_members db) of
                       None \<Rightarrow> (Status_Json 500 (A_Error ''failed to add member''), db)
                     | Some ms \<Rightarrow>
                         (if f [Stmt 3] then (Status_Json 500 (A_Error ''commit error''), db)
                          else
                            (Status_Json 201 (A_CreatedAs i (cq_name q) ty),
                             audit_Log e 0 c ''channel.create'' (''channels/'' @ i) (cq_name q) r
                               (db\<lparr>t_channels := cs, t_members := ms\<rparr>))))))))"

text \<open>The members stay: no cascade is active.\<close>

definition channels_Delete :: "string \<Rightarrow> admin_handler" where
  "channels_Delete i e c r db =
    delete_reply (exec_delete (ad_fault e [Stmt 0]) (\<lambda>ch. ch_id ch = i) (t_channels db)) ''not found''
      (\<lambda>t. db\<lparr>t_channels := t\<rparr>) (audit_Log e 0 c ''channel.delete'' (''channels/'' @ i) [] r) db"

definition scan_member :: "user_row \<times> member_row \<Rightarrow> member_info" where
  "scan_member um =
    (let (u, m) = um;
         v0 = \<lparr>mi_id = usr_id u, mi_username = usr_username u, mi_full_name = [], mi_role = [],
               mi_joined = 0\<rparr>
     in case usr_full_name u of
          None \<Rightarrow> v0
        | Some fn \<Rightarrow>
            (case mem_role m of
               None \<Rightarrow> v0\<lparr>mi_full_name := fn\<rparr>
             | Some ro \<Rightarrow>
                 v0\<lparr>mi_full_name := fn, mi_role := ro,
                    mi_joined := (case mem_joined_at m of None \<Rightarrow> 0 | Some t \<Rightarrow> t)\<rparr>))"

definition channels_ListMembers :: "string \<Rightarrow> admin_handler" where
  "channels_ListMembers i e c r db =
    (case query (ad_fault e [Stmt 0] \<or> no_admin_columns db) (t_members db) of
       Inl _ \<Rightarrow> (Status_Json 500 A_Err, db)
     | Inr ms \<Rightarrow>
         (case query False (t_users db) of
            Inl _ \<Rightarrow> (Status_Json 500 A_Err, db)
          | Inr us \<Rightarrow>
              (Status_Json 200 (A_Members (map scan_member
                (concat (map (\<lambda>m. map (\<lambda>u. (u, m)) (filter (\<lambda>u. mem_user_id m = usr_id u) us))
                  (filter (\<lambda>m. mem_channel_id m = i) ms))))), db)))"

definition channels_AddMember :: "string \<Rightarrow> admin_handler" where
  "channels_AddMember i e c r db =
    (case ad_bind_member e (rq_body r) of
       None \<Rightarrow> (bad_request, db)
     | Some q \<Rightarrow>
         (if mq_user_id q = [] then (bad_request, db)
          else
            (let role = (if mq_role q = [] then ''member'' else mq_role q);
                 m = \<lparr>mem_channel_id = i, mem_user_id = mq_user_id q, mem_role = Some role,
                      mem_joined_at = Some (unix_sec (ad_now e))\<rparr>
             in case exec_insert (ad_fault e [Stmt 0] \<or> no_admin_columns db) (ins_member (chan_ddl db)) m
                       (t_members db) of
                  None \<Rightarrow> (Status_Json 409 (A_Error ''user already in channel or database error''), db)
                | Some t \<Rightarrow>
                    (Status_Json 200 A_Ok,
                     audit_Log e 0 c ''channel.member.add''
                       (''channels/'' @ i @ ''/members/'' @ mq_user_id q) role r (db\<lparr>t_members := t\<rparr>)))))"

definition channels_RemoveMember :: "string \<Rightarrow> string \<Rightarrow> admin_handler" where
  "channels_RemoveMember i u e c r db =
    delete_reply (exec_delete (ad_fault e [Stmt 0]) (\<lambda>m. mem_channel_id m = i \<and> mem_user_id m = u) (t_members db))
      ''member not found'' (\<lambda>t. db\<lparr>t_members := t\<rparr>)
      (audit_Log e 0 c ''channel.member.remove'' (''channels/'' @ i @ ''/members/'' @ u) [] r) db"

end
