(* ===== verification/AdminRoutes.thy ===== *)
theory AdminRoutes
  imports AdminCrud
begin

section \<open>The admin API: routes, constraints, the audit trail of every route\<close>

text \<open>
  \<open>admin-api/cmd/server/main.go\<close>: the routes of the group \<open>/admin\<close> that work on the database, each
  with its handler and its \<open>Audit\<close> tag.  The matching of method and path is the router library's; a
  request is given with its route.  The lemmas state, once for every route, that the constraints of
  the shared database are kept and what the audit trail gains.
\<close>

datatype admin_route =
    R_Me | R_Create_Admin
  | R_Users | R_Create_User | R_Update_User string | R_Delete_User string | R_Reset_Password string
  | R_Departments | R_Create_Department | R_Delete_Department string
  | R_Roles | R_Create_Role | R_Update_Role string | R_Delete_Role string
  | R_Devices | R_Delete_Device string
  | R_Channels | R_Create_Channel | R_Delete_Channel string
  | R_Members string | R_Add_Member string | R_Remove_Member string string
  | R_Audit_Log

fun handler_of :: "admin_route \<Rightarrow> admin_handler" where
  "handler_of R_Me = MeHandler"
| "handler_of R_Create_Admin = CreateAdminHandler"
| "handler_of R_Users = (\<lambda>e c r db. (users_List e db, db))"
| "handler_of R_Create_User = users_Create"
| "handler_of (R_Update_User i) = users_Update i"
| "handler_of (R_Delete_User i) = users_Delete i"
| "handler_of (R_Reset_Password i) = users_ResetPassword i"
| "handler_of R_Departments = departments_List"
| "handler_of R_Create_Department = departments_Create"
| "handler_of (R_Delete_Department i) = departments_Delete i"
| "handler_of R_Roles = roles_List"
| "handler_of R_Create_Role = roles_Create"
| "handler_of (R_Update_Role i) = roles_Update i"
| "handler_of (R_Delete_Role i) = roles_Delete i"
| "handler_of R_Devices = devices_List"
| "handler_of (R_Delete_Device i) = devices_Delete i"
| "handler_of R_Channels = channels_List"
| "handler_of R_Create_Channel = channels_Create"
| "handler_of (R_Delete_Channel i) = channels_Delete i"
| "handler_of (R_Members i) = channels_ListMembers i"
| "handler_of (R_Add_Member i) = channels_AddMember i"
| "handler_of (R_Remove_Member i u) = channels_RemoveMember i u"
| "handler_of R_Audit_Log = AuditListHandler"

fun audit_tag :: "admin_route \<Rightarrow> (string \<times> string) option" where
  "audit_tag R_Create_Admin = Some (''admin.create'', ''admins'')"
| "audit_tag R_Users = Some (''users.list'', ''users'')"
| "audit_tag R_Create_User = Some (''user.create'', ''users'')"
| "audit_tag (R_Update_User i) = Some (''user.update'', ''users'')"
| "audit_tag (R_Delete_User i) = Some (''user.delete'', ''users'')"
| "audit_tag (R_Reset_Password i) = Some (''user.reset_password'', ''users'')"
| "audit_tag R_Departments = Some (''departments.list'', ''departments'')"
| "audit_tag R_Create_Department = Some (''department.create'', ''departments'')"
| "audit_tag (R_Delete_Department i) = Some (''department.delete'', ''departments'')"
| "audit_tag R_Roles = Some (''roles.list'', ''roles'')"
| "audit_tag R_Create_Role = Some (''role.create'', ''roles'')"
| "audit_tag (R_Update_Role i) = Some (''role.update'', ''roles'')"
| "audit_tag (R_Delete_Role i) = Some (''role.delete'', ''roles'')"
| "audit_tag R_Devices = Some (''devices.list'', ''devices'')"
| "audit_tag (R_Delete_Device i) = Some (''device.delete'', ''devices'')"
| "audit_tag R_Channels = Some (''channels.list'', ''channels'')"
| "audit_tag R_Create_Channel = Some (''channel.create'', ''channels'')"
| "audit_tag (R_Delete_Channel i) = Some (''channel.delete'', ''channels'')"
| "audit_tag _ = None"

definition route_handler :: "admin_route \<Rightarrow> admin_handler" where
  "route_handler ro =
    (case audit_tag ro of
       None \<Rightarrow> handler_of ro
     | Some (action, target) \<Rightarrow> Audit action target (handler_of ro))"

definition admin_serve ::
  "admin_route \<Rightarrow> admin_env \<Rightarrow> request \<Rightarrow> platform_db \<Rightarrow> admin_payload reply \<times> platform_db" where
  "admin_serve ro = protected (route_handler ro)"

subsection \<open>The constraints of the shared database\<close>

definition table_ok :: "('r list \<Rightarrow> bool) \<Rightarrow> 'r table \<Rightarrow> bool" where
  "table_ok P t = (case t of None \<Rightarrow> True | Some rs \<Rightarrow> P rs)"

definition unique :: "('r \<Rightarrow> 'k) \<Rightarrow> 'r table \<Rightarrow> bool" where
  "unique f = table_ok (\<lambda>rs. distinct (map f rs))"

definition users_ok :: "user_row table \<Rightarrow> bool" where
  [inv_simps]: "users_ok t \<longleftrightarrow> unique usr_id t \<and> unique usr_username t"

definition admins_ok :: "admin_user_row table \<Rightarrow> bool" where
  [inv_simps]: "admins_ok t \<longleftrightarrow> unique adm_id t \<and> unique adm_username t"

definition roles_ok :: "role_row table \<Rightarrow> bool" where
  [inv_simps]: "roles_ok t \<longleftrightarrow> unique rol_id t \<and> unique rol_name t"

definition departments_ok :: "department_row table \<Rightarrow> bool" where
  [inv_simps]: "departments_ok t \<longleftrightarrow> unique dep_id t \<and> unique dep_name t"

text \<open>Under the admin service's declaration the times are NOT NULL.\<close>

definition channels_ok :: "ddl \<Rightarrow> channel_row table \<Rightarrow> bool" where
  [inv_simps]: "channels_ok d t \<longleftrightarrow> unique ch_id t \<and>
    table_ok (list_all (\<lambda>c. d = DDL_Admin \<longrightarrow> ch_created_at c \<noteq> None \<and> ch_updated_at c \<noteq> None)) t"

definition members_ok :: "ddl \<Rightarrow> member_row table \<Rightarrow> bool" where
  [inv_simps]: "members_ok d t \<longleftrightarrow> unique mem_key t \<and>
    table_ok (list_all (\<lambda>m. d = DDL_Admin \<longrightarrow> mem_joined_at m \<noteq> None)) t"

text \<open>AUTOINCREMENT: identifiers grow and are never reused.\<close>

definition audit_ok :: "nat \<Rightarrow> audit_row table \<Rightarrow> bool" where
  [inv_simps]: "audit_ok n = table_ok (\<lambda>rs. sorted_wrt (<) (map aud_id rs) \<and> list_all (\<lambda>a. aud_id a \<le> n) rs)"

definition platform_inv :: "platform_db \<Rightarrow> bool" where
  "platform_inv db \<longleftrightarrow> users_ok (t_users db) \<and> admins_ok (t_admin_users db) \<and> roles_ok (t_roles db) \<and>
    departments_ok (t_departments db) \<and> channels_ok (chan_ddl db) (t_channels db) \<and>
    members_ok (chan_ddl db) (t_members db) \<and> unique dev_id (t_devices db) \<and>
    audit_ok (t_audit_seq db) (t_audit_logs db) \<and> unique msg_id (t_messages db) \<and>
    unique pr_user_id (t_presence db)"

lemma table_ok_simps [simp]: "table_ok P None" "table_ok P (Some rs) = P rs"
  by (simp_all add: table_ok_def)

lemma unique_simps [simp]: "unique f None" "unique f (Some rs) \<longleftrightarrow> distinct (map f rs)"
  by (simp_all add: unique_def)

lemma unique_delete: "exec_delete f P t = Some (t', n) \<Longrightarrow> unique k t \<Longrightarrow> unique k t'"
  by (cases t) (auto simp: exec_delete_def distinct_map_filter split: if_splits)

lemma all_delete:
  "exec_delete f P t = Some (t', n) \<Longrightarrow> table_ok (list_all Q) t \<Longrightarrow> table_ok (list_all Q) t'"
  by (cases t) (auto simp: exec_delete_def list_all_iff split: if_splits)

lemma unique_update:
  assumes "exec_update f ok P g t = Some t'" and "unique k t" and "\<And>r. k (g r) = k r"
  shows "unique k t'"
proof (cases t)
  case (Some rs)
  have "map (k \<circ> (\<lambda>r. if P r then g r else r)) rs = map k rs" using assms(3) by simp
  with assms Some show ?thesis
    by (auto simp: exec_update_def Let_def split: if_splits simp del: map_eq_conv)
qed (use assms in \<open>auto simp: exec_update_def split: if_splits\<close>)

lemma update_checked: "exec_update f ok P g t = Some t' \<Longrightarrow> table_ok ok t'"
  by (cases t) (auto simp: exec_update_def Let_def split: if_splits)

lemmas delete_ok = unique_delete all_delete

lemma insert_ok:
  "exec_insert f ins_user u t = Some t' \<Longrightarrow> users_ok t \<Longrightarrow> users_ok t'"
  "exec_insert f ins_admin_user a ta = Some ta' \<Longrightarrow> admins_ok ta \<Longrightarrow> admins_ok ta'"
  "exec_insert f ins_role ro tr = Some tr' \<Longrightarrow> roles_ok tr \<Longrightarrow> roles_ok tr'"
  "exec_insert f ins_department de td = Some td' \<Longrightarrow> departments_ok td \<Longrightarrow> departments_ok td'"
  "exec_insert f (ins_channel d) c tc = Some tc' \<Longrightarrow> channels_ok d tc \<Longrightarrow> channels_ok d tc'"
  "exec_insert f (ins_member d) m tm = Some tm' \<Longrightarrow> members_ok d tm \<Longrightarrow> members_ok d tm'"
  by (force simp: exec_insert_def inv_simps ins_user_def ins_admin_user_def ins_role_def
      ins_department_def ins_channel_def ins_member_def list_ex_iff
      split: if_splits option.splits)+

lemma users_update_ok:
  assumes "exec_update f unique_usernames P g t = Some t'" and "users_ok t" and "\<And>u. usr_id (g u) = usr_id u"
  shows "users_ok t'"
  using unique_update [OF assms(1), of usr_id] update_checked [OF assms(1)] assms(2,3)
  by (cases t') (auto simp: users_ok_def unique_usernames_def)

lemma roles_update_ok:
  assumes "exec_update f unique_role_names P g t = Some t'" and "roles_ok t" and "\<And>u. rol_id (g u) = rol_id u"
  shows "roles_ok t'"
  using unique_update [OF assms(1), of rol_id] update_checked [OF assms(1)] assms(2,3)
  by (cases t') (auto simp: roles_ok_def unique_role_names_def)

subsection \<open>Every route keeps the constraints\<close>

lemma platform_inv_put [inv_intros]:
  "platform_inv db \<Longrightarrow> users_ok t \<Longrightarrow> platform_inv (db\<lparr>t_users := t\<rparr>)"
  "platform_inv db \<Longrightarrow> admins_ok ta \<Longrightarrow> platform_inv (db\<lparr>t_admin_users := ta\<rparr>)"
  "platform_inv db \<Longrightarrow> roles_ok tr \<Longrightarrow> platform_inv (db\<lparr>t_roles := tr\<rparr>)"
  "platform_inv db \<Longrightarrow> departments_ok td \<Longrightarrow> platform_inv (db\<lparr>t_departments := td\<rparr>)"
  "platform_inv db \<Longrightarrow> channels_ok (chan_ddl db) tc \<Longrightarrow> platform_inv (db\<lparr>t_channels := tc\<rparr>)"
  "platform_inv db \<Longrightarrow> members_ok (chan_ddl db) tm \<Longrightarrow> platform_inv (db\<lparr>t_members := tm\<rparr>)"
  "platform_inv db \<Longrightarrow> unique dev_id tv \<Longrightarrow> platform_inv (db\<lparr>t_devices := tv\<rparr>)"
  "platform_inv db \<Longrightarrow> unique msg_id tg \<Longrightarrow> platform_inv (db\<lparr>t_messages := tg\<rparr>)"
  "platform_inv db \<Longrightarrow> unique pr_user_id tp \<Longrightarrow> platform_inv (db\<lparr>t_presence := tp\<rparr>)"
  by (simp_all add: platform_inv_def)

lemma platform_inv_parts:
  assumes "platform_inv db"
  shows "users_ok (t_users db)" "admins_ok (t_admin_users db)" "roles_ok (t_roles db)"
    "departments_ok (t_departments db)" "channels_ok (chan_ddl db) (t_channels db)"
    "members_ok (chan_ddl db) (t_members db)" "unique dev_id (t_devices db)"
    "unique msg_id (t_messages db)" "unique pr_user_id (t_presence db)"
  using assms by (simp_all add: platform_inv_def)

lemma platform_inv_log [inv_intros]: "platform_inv db \<Longrightarrow> platform_inv (audit_Log e k c a g d r db)"
  by (cases "t_audit_logs db")
    (auto simp: audit_Log_def platform_inv_def audit_ok_def sorted_wrt_append list_all_iff
      dest: le_imp_less_Suc intro: le_SucI)

lemma platform_inv_delete:
  assumes "platform_inv db" and "\<And>t n. x = Some (t, n) \<Longrightarrow> platform_inv (put t)"
    and "\<And>d. platform_inv d \<Longrightarrow> platform_inv (log d)"
  shows "platform_inv (snd (delete_reply x missing put log db))"
  using assms by (auto simp: delete_reply_def split: option.splits)

lemma platform_inv_deletes [inv_intros]:
  assumes "platform_inv db"
  shows "platform_inv (snd (users_Delete i e c r db))" "platform_inv (snd (roles_Delete i e c r db))"
    "platform_inv (snd (departments_Delete i e c r db))" "platform_inv (snd (devices_Delete i e c r db))"
    "platform_inv (snd (channels_Delete i e c r db))"
    "platform_inv (snd (channels_RemoveMember i u e c r db))"
  unfolding users_Delete_def roles_Delete_def departments_Delete_def devices_Delete_def
    channels_Delete_def channels_RemoveMember_def
  using assms platform_inv_parts [OF assms]
  by (auto simp: inv_simps intro!: platform_inv_delete inv_intros elim: delete_ok)

lemma platform_inv_creates [inv_intros]:
  assumes "platform_inv db"
  shows "platform_inv (snd (users_Create e c r db))" "platform_inv (snd (roles_Create e c r db))"
    "platform_inv (snd (departments_Create e c r db))" "platform_inv (snd (channels_AddMember i e c r db))"
    "platform_inv (snd (CreateAdminHandler e c r db))" "platform_inv (snd (CreateAdminUser e db n p g))"
  unfolding users_Create_def roles_Create_def departments_Create_def channels_AddMember_def
    CreateAdminHandler_def CreateAdminUser_def
  using assms platform_inv_parts [OF assms]
  by (auto simp: Let_def split: option.splits intro!: inv_intros elim: insert_ok)

lemma platform_inv_channel [inv_intros]:
  assumes "platform_inv db"
  shows "platform_inv (snd (channels_Create e c r db))"
proof -
  have "platform_inv (db\<lparr>t_channels := cs, t_members := ms\<rparr>)"
    if "exec_insert f (ins_channel (chan_ddl db)) ch (t_channels db) = Some cs"
      "exec_insert f' (ins_member (chan_ddl db)) m (t_members db) = Some ms" for f f' ch m cs ms
    using that platform_inv_parts [OF assms] by (auto intro!: inv_intros assms elim: insert_ok)
  with assms show ?thesis
    by (auto simp: channels_Create_def Let_def split: option.splits intro!: platform_inv_log)
qed

lemma user_update_id: "usr_id (apply_user_update now q u) = usr_id u"
  by (simp add: apply_user_update_def Let_def)

lemma platform_inv_updates [inv_intros]:
  assumes "platform_inv db"
  shows "platform_inv (snd (users_Update i e c r db))" "platform_inv (snd (users_ResetPassword i e c r db))"
  unfolding users_Update_def users_ResetPassword_def
  using assms platform_inv_parts [OF assms]
  by (auto split: option.splits intro!: inv_intros elim: users_update_ok simp: user_update_id)

lemma platform_inv_update_roles [inv_intros]:
  assumes "platform_inv db" and "\<And>ro. rol_id (g ro) = rol_id ro"
  shows "platform_inv (update_roles f i g db)"
  using assms platform_inv_parts [OF assms(1)]
  by (auto simp: update_roles_def split: option.splits intro!: inv_intros elim: roles_update_ok)

lemma handler_inv:
  assumes "platform_inv db"
  shows "platform_inv (snd (handler_of ro e c r db))"
proof (cases ro)
  case (R_Update_Role i)
  with assms show ?thesis
    by (auto simp: roles_Update_def Let_def split: option.splits intro!: inv_intros)
next
  case (R_Members i)
  with assms show ?thesis
    by (auto simp: channels_ListMembers_def split: sum.splits)
qed (use assms in \<open>auto simp: MeHandler_def roles_List_def departments_List_def devices_List_def
      channels_List_def AuditListHandler_def Let_def split: sum.splits option.splits intro!: inv_intros\<close>)

lemma serve_inv [inv_intros]:
  assumes "platform_inv db"
  shows "platform_inv (snd (admin_serve ro e r db))"
  using assms handler_inv [OF assms]
  by (auto simp: admin_serve_def protected_def route_handler_def Audit_def Let_def case_prod_beta
      split: sum.splits option.splits intro: platform_inv_log)

end
