(* ===== verification/AdminTrail.thy ===== *)
theory AdminTrail
  imports AdminRoutes
begin

section \<open>The admin API: what a route adds to the audit trail\<close>

text \<open>\<open>trail a c d db db'\<close>: the trail of \<open>db'\<close> is the one of \<open>db\<close> followed by entries with the next
  identifiers, for action \<open>a\<close> of the admin \<open>c\<close>; and when the rest of the database differs, there is
  such an entry, unless inserts into the trail fail (\<open>d\<close>).\<close>

definition without_trail :: "platform_db \<Rightarrow> platform_db" where
  "without_trail db = db\<lparr>t_audit_logs := None, t_audit_seq := 0\<rparr>"

definition trail_faults :: "admin_env \<Rightarrow> platform_db \<Rightarrow> bool" where
  "trail_faults e db \<longleftrightarrow> t_audit_logs db = None \<or> ad_fault e [C_Audit, Stmt 0] \<or> ad_fault e [C_Audit, Stmt 9]"

definition entry_of :: "string \<Rightarrow> admin_claims \<Rightarrow> audit_row \<Rightarrow> bool" where
  "entry_of a c x \<longleftrightarrow>
    aud_action x = a \<and> aud_actor_id x = ac_user_id c \<and> aud_actor_username x = ac_username c"

definition trail_grows :: "string \<Rightarrow> admin_claims \<Rightarrow> platform_db \<Rightarrow> platform_db \<Rightarrow> audit_row list \<Rightarrow> bool" where
  "trail_grows a c db db' es \<longleftrightarrow>
    t_audit_logs db' = map_option (\<lambda>rs. rs @ es) (t_audit_logs db) \<and>
    map aud_id es = [Suc (t_audit_seq db)..<Suc (t_audit_seq db + length es)] \<and>
    t_audit_seq db' = t_audit_seq db + length es \<and> list_all (entry_of a c) es"

lemma trail_grows_refl: "trail_grows a c db db []"
  by (cases "t_audit_logs db") (simp_all add: trail_grows_def)

lemma trail_grows_trans:
  assumes "trail_grows a c d1 d2 es" and "trail_grows a c d2 d3 fs"
  shows "trail_grows a c d1 d3 (es @ fs)"
proof -
  have "[Suc (t_audit_seq d1)..<Suc (t_audit_seq d1 + length es)] @
      [Suc (t_audit_seq d1 + length es)..<Suc (t_audit_seq d1 + length es + length fs)]
      = [Suc (t_audit_seq d1)..<Suc (t_audit_seq d1 + length es + length fs)]"
    using upt_add_eq_append [of "Suc (t_audit_seq d1)" "Suc (t_audit_seq d1 + length es)" "length fs"]
    by simp
  with assms show ?thesis
    by (cases "t_audit_logs d1") (auto simp: trail_grows_def add.assoc)
qed

text \<open>A change of another table leaves the trail as it is.\<close>

lemma trail_grows_other:
  "t_audit_logs d2 = t_audit_logs d1 \<Longrightarrow> t_audit_seq d2 = t_audit_seq d1 \<Longrightarrow>
    trail_grows a c d2 d3 es \<Longrightarrow> trail_grows a c d1 d3 es"
  by (simp add: trail_grows_def)

lemma trail_grows_log:
  "\<exists>es. trail_grows a c db (audit_Log e k c a g d r db) es \<and>
     (es = [] \<longleftrightarrow> t_audit_logs db = None \<or> ad_fault e [C_Audit, Stmt k])"
proof (cases "t_audit_logs db")
  case None
  with trail_grows_refl [of a c db] show ?thesis by (auto simp: audit_Log_def)
next
  case (Some rs)
  with trail_grows_refl [of a c db] show ?thesis
    by (cases "ad_fault e [C_Audit, Stmt k]") (auto simp: audit_Log_def trail_grows_def entry_of_def)
qed

lemma without_trail_log [simp]: "without_trail (audit_Log e k c a g d r db) = without_trail db"
  by (cases "t_audit_logs db") (simp_all add: audit_Log_def without_trail_def)

text \<open>What every handler that logs one action satisfies.\<close>

definition trail :: "admin_env \<Rightarrow> string \<Rightarrow> admin_claims \<Rightarrow> platform_db \<Rightarrow> platform_db \<Rightarrow> bool" where
  "trail e a c db db' \<longleftrightarrow>
    (\<exists>es. trail_grows a c db db' es \<and>
      (without_trail db' \<noteq> without_trail db \<longrightarrow> es = [] \<longrightarrow> trail_faults e db))"

lemma trail_refl [intro]: "trail e a c db db"
  using trail_grows_refl by (auto simp: trail_def)

lemma trail_log [intro]:
  assumes "t_audit_logs d = t_audit_logs db" and "t_audit_seq d = t_audit_seq db"
  shows "trail e a c db (audit_Log e 0 c a g x r d)"
proof -
  obtain es where es: "trail_grows a c d (audit_Log e 0 c a g x r d) es"
    "es = [] \<longleftrightarrow> t_audit_logs d = None \<or> ad_fault e [C_Audit, Stmt 0]"
    using trail_grows_log [of a c d e 0 g x r] by blast
  have "trail_grows a c db (audit_Log e 0 c a g x r d) es"
    using trail_grows_other [OF assms es(1)] .
  with es(2) assms show ?thesis by (auto simp: trail_def trail_faults_def)
qed

lemma trail_delete:
  assumes "\<And>t n. x = Some (t, n) \<Longrightarrow> n = 0 \<Longrightarrow> put t = db"
    and "\<And>t. t_audit_logs (put t) = t_audit_logs db" and "\<And>t. t_audit_seq (put t) = t_audit_seq db"
  shows "trail e a c db (snd (delete_reply x missing put (audit_Log e 0 c a g y r) db))"
  using assms by (auto simp: delete_reply_def split: option.splits)

lemma delete_none: "exec_delete f P t = Some (t', 0) \<Longrightarrow> t' = t"
  by (cases t) (auto simp: exec_delete_def filter_empty_conv filter_id_conv split: if_splits)

fun route_action :: "admin_route \<Rightarrow> string" where
  "route_action (R_Add_Member i) = ''channel.member.add''"
| "route_action (R_Remove_Member i u) = ''channel.member.remove''"
| "route_action ro = (case audit_tag ro of None \<Rightarrow> [] | Some (a, t) \<Rightarrow> a)"

lemma trail_deletes:
  "trail e ''user.delete'' c db (snd (users_Delete i e c r db))"
  "trail e ''role.delete'' c db (snd (roles_Delete i e c r db))"
  "trail e ''department.delete'' c db (snd (departments_Delete i e c r db))"
  "trail e ''device.delete'' c db (snd (devices_Delete i e c r db))"
  "trail e ''channel.delete'' c db (snd (channels_Delete i e c r db))"
  "trail e ''channel.member.remove'' c db (snd (channels_RemoveMember i u e c r db))"
  unfolding users_Delete_def roles_Delete_def departments_Delete_def devices_Delete_def
    channels_Delete_def channels_RemoveMember_def
  by (auto intro!: trail_delete dest: delete_none)

lemma trail_writes:
  "trail e ''user.create'' c db (snd (users_Create e c r db))"
  "trail e ''user.update'' c db (snd (users_Update i e c r db))"
  "trail e ''user.reset_password'' c db (snd (users_ResetPassword i e c r db))"
  "trail e ''role.create'' c db (snd (roles_Create e c r db))"
  "trail e ''department.create'' c db (snd (departments_Create e c r db))"
  "trail e ''channel.create'' c db (snd (channels_Create e c r db))"
  "trail e ''channel.member.add'' c db (snd (channels_AddMember i e c r db))"
  unfolding users_Create_def users_Update_def users_ResetPassword_def roles_Create_def
    departments_Create_def channels_Create_def channels_AddMember_def
  by (auto simp: Let_def split: option.splits)

lemma update_roles_trail [simp]:
  "t_audit_logs (update_roles f i g db) = t_audit_logs db"
  "t_audit_seq (update_roles f i g db) = t_audit_seq db"
  by (simp_all add: update_roles_def split: option.splits)

lemma trail_role_update: "trail e ''role.update'' c db (snd (roles_Update i e c r db))"
  unfolding roles_Update_def by (auto simp: Let_def split: option.splits)

lemma read_only:
  "snd (MeHandler e c r db) = db" "snd (roles_List e c r db) = db" "snd (departments_List e c r db) = db"
  "snd (devices_List e c r db) = db" "snd (channels_List e c r db) = db"
  "snd (channels_ListMembers i e c r db) = db" "snd (AuditListHandler e c r db) = db"
  by (simp_all add: MeHandler_def roles_List_def departments_List_def devices_List_def channels_List_def
      channels_ListMembers_def AuditListHandler_def Let_def split: sum.splits option.splits)

lemma handler_trail:
  assumes "ro \<noteq> R_Create_Admin"
  shows "trail e (route_action ro) c db (snd (handler_of ro e c r db))"
  using assms by (cases ro) (auto simp: trail_writes trail_deletes trail_role_update read_only)

end
