(* ===== verification/AdminProps.thy ===== *)
theory AdminProps
  imports AdminTrail
begin

section \<open>Correctness of the admin API\<close>

text \<open>
  Only the bearer of a valid token with an admin role reaches a handler; every change made through
  the API leaves an entry in the trail, which only grows; a login gives a token that serves until it
  expires; listings of the trail.
\<close>

subsection \<open>Access\<close>

lemma split_bearer:
  "length (split_n2 CHR '' '' s) = 2 \<and> split_n2 CHR '' '' s ! 0 = ''Bearer'' \<and> split_n2 CHR '' '' s ! 1 = tok
    \<longleftrightarrow> s = ''Bearer '' @ tok"
proof
  assume *: "length (split_n2 CHR '' '' s) = 2 \<and> split_n2 CHR '' '' s ! 0 = ''Bearer'' \<and>
    split_n2 CHR '' '' s ! 1 = tok"
  then have sp: "CHR '' '' \<in> set s" and tw: "takeWhile (\<lambda>x. x \<noteq> CHR '' '') s = ''Bearer''"
    and dw: "drop 1 (dropWhile (\<lambda>x. x \<noteq> CHR '' '') s) = tok"
    by (auto simp: split_n2_def split: if_splits)
  have ne: "dropWhile (\<lambda>x. x \<noteq> CHR '' '') s \<noteq> []" using sp by (simp add: dropWhile_eq_Nil_conv)
  then have "hd (dropWhile (\<lambda>x. x \<noteq> CHR '' '') s) = CHR '' ''"
    using hd_dropWhile [of "\<lambda>x. x \<noteq> CHR '' ''" s] by simp
  with ne dw have "dropWhile (\<lambda>x. x \<noteq> CHR '' '') s = CHR '' '' # tok"
    by (cases "dropWhile (\<lambda>x. x \<noteq> CHR '' '') s") auto
  with tw takeWhile_dropWhile_id [of "\<lambda>x. x \<noteq> CHR '' ''" s] show "s = ''Bearer '' @ tok" by simp
next
  assume "s = ''Bearer '' @ tok"
  then have "s = ''Bearer'' @ CHR '' '' # tok" by simp
  then show "length (split_n2 CHR '' '' s) = 2 \<and> split_n2 CHR '' '' s ! 0 = ''Bearer'' \<and>
    split_n2 CHR '' '' s ! 1 = tok"
    using split_n2_append [of "CHR '' ''" "''Bearer''" tok] by simp
qed

lemma JWTAuth_iff:
  "JWTAuth e r = Inr c \<longleftrightarrow>
    (\<exists>tok. rq_header r ''Authorization'' = ''Bearer '' @ tok \<and> ParseToken e tok = Some c)"
proof -
  let ?s = "rq_header r ''Authorization''" let ?p = "split_n2 CHR '' '' ?s"
  have "JWTAuth e r = Inr c \<longleftrightarrow>
      ?s \<noteq> [] \<and> length ?p = 2 \<and> ?p ! 0 = ''Bearer'' \<and> ParseToken e (?p ! 1) = Some c"
    by (auto simp: JWTAuth_def Let_def split: option.splits)
  also have "\<dots> \<longleftrightarrow> (\<exists>tok. ?s = ''Bearer '' @ tok \<and> ParseToken e tok = Some c)"
    using split_bearer [of ?s] by (metis append_is_Nil_conv list.distinct(1))
  finally show ?thesis .
qed

lemma JWTAuth_refuses: "JWTAuth e r = Inl rep \<Longrightarrow> status_of rep = 401"
  by (auto simp: JWTAuth_def Let_def split: if_splits option.splits)

text \<open>No handler answers 401 or 403 itself.\<close>

lemma delete_status: "status_of (fst (delete_reply x m put log db)) \<in> {200, 404, 500}"
  by (auto simp: delete_reply_def split: option.splits)

lemma list_channels_status: "status_of (list_channels f P db) \<in> {200, 500}"
  by (auto simp: list_channels_def split: sum.splits)

lemmas write_defs = CreateAdminHandler_def users_Create_def users_Update_def users_ResetPassword_def
  departments_Create_def roles_Create_def roles_Update_def channels_AddMember_def channels_Create_def

lemmas read_defs = MeHandler_def users_List_def roles_List_def departments_List_def devices_List_def
  channels_List_def channels_ListMembers_def AuditListHandler_def

lemmas delete_defs = users_Delete_def roles_Delete_def departments_Delete_def devices_Delete_def
  channels_Delete_def channels_RemoveMember_def

lemma handler_status: "status_of (fst (handler_of ro e c r db)) \<in> {200, 201, 400, 404, 409, 500}"
proof -
  have w: "status_of (fst (h e c r db)) \<in> {200, 201, 400, 404, 409, 500}"
    if "h \<in> {CreateAdminHandler, users_Create, departments_Create, roles_Create, channels_Create}" for h
    using that by (auto simp: write_defs Let_def split: option.splits prod.splits if_splits)
  have u: "status_of (fst (h i e c r db)) \<in> {200, 201, 400, 404, 409, 500}"
    if "h \<in> {users_Update, users_ResetPassword, roles_Update, channels_AddMember}" for h i
    using that by (auto simp: write_defs Let_def split: option.splits if_splits)
  have d: "status_of (fst (h i e c r db)) \<in> {200, 201, 400, 404, 409, 500}"
    if "h \<in> {users_Delete, roles_Delete, departments_Delete, devices_Delete, channels_Delete}" for h i
    using that by (auto simp: delete_defs delete_reply_def split: option.splits if_splits)
  show ?thesis
    using w u d list_channels_status [of "ad_fault e [Stmt 0]" "\<lambda>_. True" db]
    by (cases ro) (auto simp: read_defs channels_RemoveMember_def delete_reply_def Let_def
        split: option.splits sum.splits)
qed

lemma route_fst: "fst (route_handler ro e c r db) = fst (handler_of ro e c r db)"
  by (auto simp: route_handler_def Audit_def case_prod_beta Let_def split: option.splits)

text \<open>The bearer of the request is an admin.\<close>

definition admin_bearer :: "admin_env \<Rightarrow> request \<Rightarrow> admin_claims \<Rightarrow> bool" where
  "admin_bearer e r c \<longleftrightarrow>
    (\<exists>tok. rq_header r ''Authorization'' = ''Bearer '' @ tok \<and> ParseToken e tok = Some c) \<and>
    ac_role c \<in> {''super_admin'', ''admin''}"

lemma serve_admin: "admin_bearer e r c \<Longrightarrow> admin_serve ro e r db = route_handler ro e c r db"
  using JWTAuth_iff [of e r c]
  by (auto simp: admin_bearer_def admin_serve_def protected_def RequireAdmin_def adminRoles_def)

lemma serve_refused:
  assumes "\<nexists>c. admin_bearer e r c"
  shows "status_of (fst (admin_serve ro e r db)) \<in> {401, 403} \<and> snd (admin_serve ro e r db) = db"
proof (cases "JWTAuth e r")
  case (Inl rep)
  then show ?thesis by (simp add: admin_serve_def protected_def JWTAuth_refuses)
next
  case (Inr c)
  then have "\<not> adminRoles (ac_role c)"
    using assms JWTAuth_iff [of e r c] by (auto simp: admin_bearer_def adminRoles_def)
  with Inr show ?thesis by (simp add: admin_serve_def protected_def RequireAdmin_def)
qed

text \<open>A route of the admin group answers 401 or 403 exactly when the request does not carry a
  bearer token that the token library accepts with the role admin or super_admin; such a request
  changes nothing, and the answer does not depend on the database.\<close>

theorem admin_access:
  "(status_of (fst (admin_serve ro e r db)) \<in> {401, 403}) = (\<nexists>c. admin_bearer e r c) \<and>
   ((\<exists>c. admin_bearer e r c) \<or>
     snd (admin_serve ro e r db) = db \<and> fst (admin_serve ro e r db) = fst (admin_serve ro' e r db2))"
proof (cases "\<exists>c. admin_bearer e r c")
  case True
  then obtain c where c: "admin_bearer e r c" by blast
  have "status_of (fst (admin_serve ro e r db)) \<notin> {401, 403}"
    using handler_status [of ro e c r db] by (auto simp: serve_admin [OF c] route_fst)
  with True show ?thesis by blast
next
  case False
  have "fst (admin_serve ro e r db) = fst (admin_serve ro' e r db2)"
  proof (cases "JWTAuth e r")
    case (Inr c)
    with False JWTAuth_iff [of e r c] have "\<not> adminRoles (ac_role c)"
      by (auto simp: admin_bearer_def adminRoles_def)
    with Inr show ?thesis by (simp add: admin_serve_def protected_def RequireAdmin_def)
  qed (simp add: admin_serve_def protected_def)
  with False serve_refused [OF False] show ?thesis by simp
qed

subsection \<open>The audit trail\<close>

lemma route_trail: "trail e (route_action ro) c db (snd (route_handler ro e c r db))"
proof (cases "audit_tag ro")
  case None
  then have "ro \<noteq> R_Create_Admin" by auto
  from handler_trail [OF this] None show ?thesis by (simp add: route_handler_def)
next
  case (Some at)
  obtain a t where at: "at = (a, t)" by (cases at)
  let ?d = "snd (handler_of ro e c r db)" and ?d' = "snd (route_handler ro e c r db)"
  have d': "?d' = audit_Log e 9 c a t (rq_path r) r ?d"
    using Some at by (simp add: route_handler_def Audit_def case_prod_beta Let_def)
  have act: "route_action ro = a" using Some at by (cases ro) auto
  obtain fs where fs: "trail_grows a c ?d ?d' fs"
    "fs = [] \<longleftrightarrow> t_audit_logs ?d = None \<or> ad_fault e [C_Audit, Stmt 9]"
    using trail_grows_log [of a c ?d e 9 t "rq_path r" r] d' by auto
  obtain es where es: "trail_grows a c db ?d es"
  proof (cases "ro = R_Create_Admin")
    case True
    have "t_audit_logs ?d = t_audit_logs db" "t_audit_seq ?d = t_audit_seq db"
      using True by (auto simp: CreateAdminHandler_def CreateAdminUser_def Let_def split: option.splits)
    then have "trail_grows a c db ?d []" using trail_grows_refl trail_grows_other by metis
    then show ?thesis by (rule that)
  next
    case False
    from handler_trail [OF False, of e c db r] act that show ?thesis by (auto simp: trail_def)
  qed
  have grows: "trail_grows a c db ?d' (es @ fs)" using trail_grows_trans [OF es fs(1)] .
  have "trail_faults e db" if "es @ fs = []"
  proof -
    from that es have "t_audit_logs ?d = t_audit_logs db"
      by (cases "t_audit_logs db") (auto simp: trail_grows_def)
    with that fs(2) show ?thesis by (auto simp: trail_faults_def)
  qed
  with grows act show ?thesis by (auto simp: trail_def)
qed


text \<open>A successful creation leaves two entries of the same action, a refused one leaves one.\<close>

lemma create_user_entries:
  assumes "ad_fault e = no_faults" and "t_audit_logs db = Some rs"
  shows "\<exists>es. t_audit_logs (snd (route_handler R_Create_User e c r db)) = Some (rs @ es) \<and>
    map aud_action es = replicate (if status_of (fst (users_Create e c r db)) = 201 then 2 else 1) ''user.create''"
  using assms
  by (auto simp: route_handler_def Audit_def users_Create_def audit_Log_def Let_def numeral_2_eq_2
      split: option.splits)

subsection \<open>Sessions\<close>

lemma Login_Some:
  "Login e db n p = Some u \<Longrightarrow>
    \<exists>rs row. t_admin_users db = Some rs \<and> row \<in> set rs \<and> adm_username row = n \<and>
      ad_bcrypt_check e (adm_password_hash row) p \<and> u = admin_of_row row"
  by (auto simp: Login_def query_row_def query_def CheckPassword_def dest: find_Some_in
      split: if_splits option.splits sum.splits)

lemma AdminLogin_200:
  assumes "AdminLoginHandler e r db = (rep, db')"
  shows "db' = db \<and> (status_of rep = 200 \<longrightarrow> (\<exists>q u tok.
    ad_bind_user e (rq_body r) = Some q \<and> Login e db (aq_username q) (aq_password q) = Some u \<and>
    AdminGenerateToken e u (24 * 60 * minute) = Some tok \<and>
    rep = Status_Json 200 (A_Login tok u (unix_sec (ad_now e + 24 * 60 * minute)))))"
  using assms by (auto simp: AdminLoginHandler_def split: option.splits if_splits)


subsection \<open>The listing of the trail\<close>

definition log_matches :: "request \<Rightarrow> audit_row \<Rightarrow> bool" where
  "log_matches r a \<longleftrightarrow>
    (rq_query r ''actor_id'' = [] \<or> aud_actor_id a = rq_query r ''actor_id'') \<and>
    (rq_query r ''action'' = [] \<or> aud_action a = rq_query r ''action'')"

lemma length_sql_page:
  "length (sql_page offset limit xs) =
    (if limit < 0 then length xs - nat offset else min (nat limit) (length xs - nat offset))"
  by (auto simp: sql_page_def Let_def min_def)

lemma sorted_sql_page: "sorted_wrt P xs \<Longrightarrow> sorted_wrt P (sql_page offset limit xs)"
  by (simp add: sql_page_def Let_def sorted_wrt_drop sorted_wrt_take)

lemma set_sql_page: "set (sql_page offset limit xs) \<subseteq> set xs"
  by (auto simp: sql_page_def Let_def dest: in_set_takeD in_set_dropD)

lemma AuditList_answers:
  "ad_fault e = no_faults \<Longrightarrow> t_audit_logs db = Some rs \<Longrightarrow>
    \<exists>ls. AuditListHandler e c r db = (Status_Json 200 (A_Logs ls), db)"
  by (simp add: AuditListHandler_def GetList_def query_def Let_def)

text \<open>\<open>/admin/audit\<close> lists matching entries only, latest first, and of a limit between 0 and 200
  at most that many; a larger limit counts as 200, but a negative one lifts the bound: then all the
  matching entries after the offset are listed.\<close>

theorem audit_listing_bounds:
  assumes "AuditListHandler e c r db = (Status_Json 200 (A_Logs ls), db')"
  shows "\<exists>rs. t_audit_logs db = Some rs \<and> db' = db \<and>
    set ls \<subseteq> log_view_of ` {a \<in> set rs. log_matches r a} \<and>
    sorted_wrt (\<ge>) (map lv_time ls) \<and>
    (let lim = atoi (default_query e r ''limit'' ''50''); off = atoi (default_query e r ''offset'' ''0'');
         n = length (filter (log_matches r) rs) - nat off
     in length ls = (if lim < 0 then n else min (nat (min lim 200)) n))"
proof -
  let ?lim = "atoi (default_query e r ''limit'' ''50'')" and ?off = "atoi (default_query e r ''offset'' ''0'')"
  let ?l = "if ?lim > 200 then 200 else ?lim"
  have m: "(\<lambda>a. (rq_query r ''actor_id'' = [] \<or> aud_actor_id a = rq_query r ''actor_id'') \<and>
      (rq_query r ''action'' = [] \<or> aud_action a = rq_query r ''action'')) = log_matches r"
    by (simp add: fun_eq_iff log_matches_def)
  obtain ls' where g: "GetList (ad_fault e [Stmt 0]) db ?off ?l (rq_query r ''actor_id'') (rq_query r ''action'')
      = Some ls'" and db: "db' = db" and ls': "ls' = ls"
    using assms unfolding AuditListHandler_def Let_def by (auto split: option.splits)
  obtain rs where rs: "t_audit_logs db = Some rs"
    using g by (auto simp: GetList_def query_def split: option.splits sum.splits if_splits)
  have ls: "ls = map log_view_of (sql_page ?off ?l
      (sort_key (\<lambda>a. - aud_timestamp a) (filter (log_matches r) rs)))"
    using g rs ls' unfolding GetList_def m by (simp add: query_def split: if_splits)
  let ?xs = "sort_key (\<lambda>a. - aud_timestamp a) (filter (log_matches r) rs)"
  have "sorted_wrt (\<lambda>x y. aud_timestamp y \<le> aud_timestamp x) ?xs"
    using sorted_sort_key [of "\<lambda>a. - aud_timestamp a" "filter (log_matches r) rs"]
    by (simp add: sorted_map)
  from sorted_sql_page [OF this, of ?off ?l]
  have "sorted_wrt (\<lambda>x y. aud_timestamp y \<le> aud_timestamp x) (sql_page ?off ?l ?xs)" .
  then have "sorted_wrt (\<ge>) (map lv_time ls)"
    unfolding ls by (auto simp: sorted_wrt_map log_view_of_def time_unix_def elim!: sorted_wrt_mono_rel [rotated])
  moreover have "set ls \<subseteq> log_view_of ` {a \<in> set rs. log_matches r a}"
    using set_sql_page [of ?off ?l ?xs] by (auto simp: ls)
  moreover have "length ls = (if ?lim < 0 then length (filter (log_matches r) rs) - nat ?off
      else min (nat (min ?lim 200)) (length (filter (log_matches r) rs) - nat ?off))"
    by (simp add: ls length_sql_page min_def)
  ultimately show ?thesis using rs db by (auto simp: Let_def)
qed

subsection \<open>A concrete installation\<close>

text \<open>A token library that signs and accepts one token, the hash that is the password itself, and the
  database after the first start of the admin service.\<close>

definition ex_claims :: admin_claims where
  "ex_claims = \<lparr>ac_user_id = ''root'', ac_username = ''admin'', ac_role = ''super_admin''\<rparr>"

definition ex_admin_env :: "instant \<Rightarrow> admin_env" where
  "ex_admin_env now = \<lparr>ad_secret_var = [],
     ad_parse = (\<lambda>s t. if t = s @ '':tok'' \<and> now < 24 * 60 * minute then Some (ex_claims, True) else None),
     ad_sign = (\<lambda>s c exp iat. if c = ex_claims \<and> exp = 24 * 60 * minute then Some (s @ '':tok'') else None),
     ad_bcrypt_hash = Some, ad_bcrypt_check = (\<lambda>h p. h = p), ad_uuid = ''root'', ad_now = now,
     ad_fault = no_faults, ad_client_ip = rq_remote, ad_get_query = (\<lambda>r k. None),
     ad_bind_user = (\<lambda>b. Some \<lparr>aq_username = b, aq_full_name = [], aq_password = b, aq_role = [],
        aq_department = []\<rparr>),
     ad_bind_role = (\<lambda>b. Some \<lparr>rq_name = b, rq_permissions = []\<rparr>),
     ad_bind_channel = (\<lambda>b. Some \<lparr>cq_name = b, cq_type = [], cq_department = []\<rparr>),
     ad_bind_member = (\<lambda>b. Some \<lparr>mq_user_id = b, mq_role = []\<rparr>), ad_bind_name = Some,
     ad_json_strings = (\<lambda>s. [s]), ad_json_of_strings = concat\<rparr>"

definition ex_admin_db :: platform_db where
  "ex_admin_db = EnsureSuperAdmin (ex_admin_env 0) ''admin'' ''admin'' (admin_migrate empty_db)"

definition ex_admin_req :: "string \<Rightarrow> request" where
  "ex_admin_req body = \<lparr>rq_method = ''POST'', rq_path = ''/admin/users'',
     rq_header = (\<lambda>k. ''Bearer change-me-in-production-local-only:tok''), rq_query = (\<lambda>_. []),
     rq_remote = ''10.0.0.9:1'', rq_body = body\<rparr>"

lemma ex_bearer: "admin_bearer (ex_admin_env 5) (ex_admin_req b) ex_claims"
  by (simp add: admin_bearer_def ex_admin_req_def ParseToken_def ex_admin_env_def getSecret_def
      ex_claims_def duration_defs)

lemma ex_admin_db_eq:
  "t_audit_logs ex_admin_db = Some []" "t_users ex_admin_db = Some []"
  "t_admin_users ex_admin_db = Some [\<lparr>adm_id = ''root'', adm_username = ''admin'',
     adm_password_hash = ''admin'', adm_role = ''super_admin'', adm_created_at = 0, adm_updated_at = 0\<rparr>]"
  by code_simp+



text \<open>Three entries at times 1, 2, 3; the client asks for one with a negative limit.\<close>

definition ex_trail_db :: platform_db where
  "ex_trail_db = ex_admin_db\<lparr>t_audit_logs := Some (map (\<lambda>t. \<lparr>aud_id = t, aud_timestamp = int t,
     aud_actor_id = ''root'', aud_actor_username = ''admin'', aud_action = ''users.list'',
     aud_target = ''users'', aud_details = [], aud_ip = []\<rparr>) [1, 2, 3])\<rparr>"

definition ex_limit_env :: "string \<Rightarrow> admin_env" where
  "ex_limit_env l = (ex_admin_env 5)\<lparr>ad_get_query := (\<lambda>r k. if k = ''limit'' then Some l else None)\<rparr>"

theorem audit_listing_bounds_witness:
  "\<exists>ls. AuditListHandler (ex_limit_env ''-1'') ex_claims (ex_admin_req []) ex_trail_db =
      (Status_Json 200 (A_Logs ls), ex_trail_db) \<and> length ls = 3"
proof -
  obtain ls where ls: "AuditListHandler (ex_limit_env ''-1'') ex_claims (ex_admin_req []) ex_trail_db =
      (Status_Json 200 (A_Logs ls), ex_trail_db)"
    using AuditList_answers [of "ex_limit_env ''-1''" ex_trail_db _ ex_claims "ex_admin_req []"]
    by (auto simp: ex_limit_env_def ex_admin_env_def ex_trail_db_def)
  have rs: "t_audit_logs ex_trail_db = Some (the (t_audit_logs ex_trail_db))"
    by (simp add: ex_trail_db_def)
  have n: "length (filter (log_matches (ex_admin_req [])) (the (t_audit_logs ex_trail_db))) = 3"
    by (simp add: ex_trail_db_def log_matches_def ex_admin_req_def)
  have lim: "atoi (default_query (ex_limit_env ''-1'') (ex_admin_req []) ''limit'' ''50'') < 0"
    "atoi (default_query (ex_limit_env ''-1'') (ex_admin_req []) ''offset'' ''0'') = 0"
    by (simp_all add: atoi_def atoi_digits_def default_query_def ex_limit_env_def ex_admin_env_def)
  from n have n': "length (filter (log_matches (ex_admin_req [])) rs) = 3"
    if "t_audit_logs ex_trail_db = Some rs" for rs
    using that by simp
  from audit_listing_bounds [OF ls] have "length ls = 3" by (auto simp: Let_def lim n')
  with ls show ?thesis by blast
qed

end
