(* ===== verification/Hub.thy ===== *)
theory Hub
  imports AdminProps
begin

section \<open>The admin API: the WebSocket hub\<close>

text \<open>
  \<open>admin-api/internal/websocket/{hub,handler}.go\<close>.  The goroutine \<open>Run\<close> is the only receiver of the
  three channels: the unbuffered \<open>register\<close> and \<open>unregister\<close> (clients that wait in them are lists) and
  the buffered \<open>broadcast\<close>.  After a registration it sends an event to \<open>broadcast\<close> itself: \<open>hb_run\<close> is
  its program point.  A client is a number; its \<open>Send\<close> channel is a queue with a closed flag.  Closing
  a closed channel or sending on one is a panic, which stays recorded.
\<close>

datatype hub_event = User_Connected string nat | User_Disconnected string nat | Emitted string string

datatype run_state = Idle | Sending hub_event

record hub_client =
  hc_user :: string
  hc_queue :: "hub_event list"
  hc_closed :: bool
  hc_done :: bool   \<comment> \<open>the writing goroutine has left its loop\<close>

record hub =
  hb_clients :: "nat list"
  hb_broadcast :: "hub_event list"
  hb_register :: "nat list"
  hb_unregister :: "nat list"
  hb_run :: run_state
  hb_chan :: "nat \<Rightarrow> hub_client"
  hb_next :: nat
  hb_panic :: bool

definition broadcast_size :: nat where "broadcast_size = 256"

definition send_size :: nat where "send_size = 256"

definition NewHub :: hub where
  "NewHub =
    \<lparr>hb_clients = [], hb_broadcast = [], hb_register = [], hb_unregister = [], hb_run = Idle,
     hb_chan = (\<lambda>_. \<lparr>hc_user = [], hc_queue = [], hc_closed = False, hc_done = False\<rparr>), hb_next = 0, hb_panic = False\<rparr>"

subsection \<open>The cases of \<open>Run\<close>\<close>

definition close_send :: "nat \<Rightarrow> hub \<Rightarrow> hub" where
  "close_send c s =
    (if hc_closed (hb_chan s c) then s\<lparr>hb_panic := True\<rparr>
     else s\<lparr>hb_chan := (hb_chan s)(c := (hb_chan s c)\<lparr>hc_closed := True\<rparr>)\<rparr>)"

definition run_register :: "nat \<Rightarrow> hub \<Rightarrow> hub" where
  "run_register c s =
    s\<lparr>hb_register := remove1 c (hb_register s),
      hb_clients := (if c \<in> set (hb_clients s) then hb_clients s else hb_clients s @ [c]),
      hb_run := Sending (User_Connected (hc_user (hb_chan s c)) c)\<rparr>"

definition run_unregister :: "nat \<Rightarrow> hub \<Rightarrow> hub" where
  "run_unregister c s =
    (let s1 = s\<lparr>hb_unregister := remove1 c (hb_unregister s)\<rparr>;
         s2 = (if c \<in> set (hb_clients s1)
               then close_send c (s1\<lparr>hb_clients := filter (\<lambda>d. d \<noteq> c) (hb_clients s1)\<rparr>) else s1)
     in s2\<lparr>hb_run := Sending (User_Disconnected (hc_user (hb_chan s c)) c)\<rparr>)"

text \<open>\<open>select { case c.Send <- msg: default: close(c.Send); delete(h.clients, c) }\<close>.\<close>

definition offer :: "hub_event \<Rightarrow> nat \<Rightarrow> hub \<Rightarrow> hub" where
  "offer m c s =
    (let ch = hb_chan s c in
     if hc_closed ch then s\<lparr>hb_panic := True\<rparr>
     else if length (hc_queue ch) < send_size
     then s\<lparr>hb_chan := (hb_chan s)(c := ch\<lparr>hc_queue := hc_queue ch @ [m]\<rparr>)\<rparr>
     else close_send c (s\<lparr>hb_clients := filter (\<lambda>d. d \<noteq> c) (hb_clients s)\<rparr>))"

definition run_broadcast :: "hub \<Rightarrow> hub" where
  "run_broadcast s =
    (case hb_broadcast s of
       [] \<Rightarrow> s
     | m # ms \<Rightarrow> foldl (\<lambda>s c. offer m c s) (s\<lparr>hb_broadcast := ms\<rparr>) (hb_clients s))"

text \<open>\<open>BroadcastEvent\<close>: the send, when the buffer has room.\<close>

definition BroadcastEvent :: "hub_event \<Rightarrow> hub \<Rightarrow> hub" where
  "BroadcastEvent m s = s\<lparr>hb_broadcast := hb_broadcast s @ [m]\<rparr>"

subsection \<open>Clients\<close>

text \<open>\<open>HandleWS\<close>: the user of the claims that \<open>JWTAuth\<close> stored, else of the token in the query.\<close>

definition ws_user :: "admin_env \<Rightarrow> admin_claims option \<Rightarrow> request \<Rightarrow> string option" where
  "ws_user e claims r =
    (case claims of
       Some c \<Rightarrow> Some (ac_user_id c)
     | None \<Rightarrow>
         (let tok = rq_query r ''token'' in
          if tok = [] then None else map_option ac_user_id (ParseToken e tok)))"

text \<open>A connection that was upgraded: a new client, which waits in \<open>register\<close>.\<close>

definition connect :: "string \<Rightarrow> hub \<Rightarrow> hub" where
  "connect u s =
    s\<lparr>hb_chan := (hb_chan s)(hb_next s := \<lparr>hc_user = u, hc_queue = [], hc_closed = False, hc_done = False\<rparr>),
      hb_register := hb_register s @ [hb_next s], hb_next := Suc (hb_next s)\<rparr>"

text \<open>The route of the API: behind \<open>JWTAuth\<close> and \<open>RequireAdmin\<close>.\<close>

definition admin_HandleWS ::
  "admin_env \<Rightarrow> (request \<Rightarrow> nat option) \<Rightarrow> request \<Rightarrow> hub \<Rightarrow> admin_payload reply \<times> hub" where
  "admin_HandleWS e upgrade r s =
    (case JWTAuth e r of
       Inl rep \<Rightarrow> (rep, s)
     | Inr c \<Rightarrow>
         (case RequireAdmin c of
            Some rep \<Rightarrow> (rep, s)
          | None \<Rightarrow>
              (case ws_user e (Some c) r of
                 None \<Rightarrow> (Status_Only 401, s)
               | Some u \<Rightarrow> (case upgrade r of Some code \<Rightarrow> (Http_Err code, s) | None \<Rightarrow> (No_Write, connect u s)))))"

text \<open>The writing goroutine takes a message off the queue; a failed write ends the loop, as does the
  closed and drained channel; then it waits in \<open>unregister\<close>.\<close>

definition writer_end :: "nat \<Rightarrow> hub \<Rightarrow> hub" where
  "writer_end c s =
    s\<lparr>hb_unregister := hb_unregister s @ [c], hb_chan := (hb_chan s)(c := (hb_chan s c)\<lparr>hc_done := True\<rparr>)\<rparr>"

definition writer_take :: "nat \<Rightarrow> bool \<Rightarrow> hub \<Rightarrow> hub" where
  "writer_take c ok s =
    (let s1 = s\<lparr>hb_chan := (hb_chan s)(c := (hb_chan s c)\<lparr>hc_queue := tl (hc_queue (hb_chan s c))\<rparr>)\<rparr>
     in if ok then s1 else writer_end c s1)"

subsection \<open>Interleavings\<close>

inductive run_step :: "hub \<Rightarrow> hub \<Rightarrow> bool" where
  rs_register: "hb_run s = Idle \<Longrightarrow> c \<in> set (hb_register s) \<Longrightarrow> run_step s (run_register c s)"
| rs_unregister: "hb_run s = Idle \<Longrightarrow> c \<in> set (hb_unregister s) \<Longrightarrow> run_step s (run_unregister c s)"
| rs_broadcast: "hb_run s = Idle \<Longrightarrow> hb_broadcast s \<noteq> [] \<Longrightarrow> run_step s (run_broadcast s)"
| rs_event: "hb_run s = Sending m \<Longrightarrow> length (hb_broadcast s) < broadcast_size \<Longrightarrow>
    run_step s ((BroadcastEvent m s)\<lparr>hb_run := Idle\<rparr>)"

inductive hub_step :: "hub \<Rightarrow> hub \<Rightarrow> bool" where
  hs_run: "run_step s s' \<Longrightarrow> hub_step s s'"
| hs_connect: "hub_step s (connect u s)"
| hs_emit: "length (hb_broadcast s) < broadcast_size \<Longrightarrow> hub_step s (BroadcastEvent (Emitted ev p) s)"
| hs_take: "c < hb_next s \<Longrightarrow> \<not> hc_done (hb_chan s c) \<Longrightarrow> hc_queue (hb_chan s c) \<noteq> [] \<Longrightarrow> hub_step s (writer_take c ok s)"
| hs_end: "c < hb_next s \<Longrightarrow> \<not> hc_done (hb_chan s c) \<Longrightarrow> hc_queue (hb_chan s c) = [] \<Longrightarrow> hc_closed (hb_chan s c) \<Longrightarrow>
    hub_step s (writer_end c s)"

inductive hub_reach :: "hub \<Rightarrow> bool" where
  hr_new: "hub_reach NewHub"
| hr_step: "hub_reach s \<Longrightarrow> hub_step s s' \<Longrightarrow> hub_reach s'"

inductive_cases run_stepE: "run_step s s'"
inductive_cases hub_stepE: "hub_step s s'"

text \<open>Registered clients have open channels; a client that still waits in \<open>register\<close> is not yet
  registered, has an open channel, and waits only once.\<close>

definition hub_inv :: "hub \<Rightarrow> bool" where
  [inv_simps]: "hub_inv s \<longleftrightarrow>
    \<not> hb_panic s \<and> distinct (hb_clients s @ hb_register s) \<and>
    (\<forall>c\<in>set (hb_clients s @ hb_register s). c < hb_next s \<and> \<not> hc_closed (hb_chan s c)) \<and>
    (\<forall>c. length (hc_queue (hb_chan s c)) \<le> send_size) \<and> length (hb_broadcast s) \<le> broadcast_size"

lemma hub_inv_new: "hub_inv NewHub"
  by (simp add: hub_inv_def NewHub_def)

lemma hub_inv_register:
  "hub_inv s \<Longrightarrow> c \<in> set (hb_register s) \<Longrightarrow> hub_inv (run_register c s)"
  by (auto simp: hub_inv_def run_register_def dest: notin_set_remove1)

lemma hub_inv_drop:
  assumes "hub_inv s" and "c \<in> set (hb_clients s)"
  shows "hub_inv (close_send c (s\<lparr>hb_clients := filter (\<lambda>d. d \<noteq> c) (hb_clients s)\<rparr>))"
  using assms by (auto simp: hub_inv_def close_send_def)

lemma hub_inv_unregister: "hub_inv s \<Longrightarrow> hub_inv (run_unregister c s)"
  by (auto simp: run_unregister_def hub_inv_def close_send_def Let_def)

lemma hub_inv_offer:
  assumes "hub_inv s" and "c \<in> set (hb_clients s)"
  shows "hub_inv (offer m c s) \<and> set (hb_clients s) - {c} \<subseteq> set (hb_clients (offer m c s))"
proof (cases "length (hc_queue (hb_chan s c)) < send_size")
  case True
  with assms show ?thesis by (auto simp: offer_def hub_inv_def Let_def)
next
  case False
  have open': "\<not> hc_closed (hb_chan s c)" using assms by (auto simp: hub_inv_def)
  with False hub_inv_drop [OF assms] show ?thesis by (auto simp: offer_def Let_def close_send_def)
qed

lemma hub_inv_offers:
  "hub_inv s \<Longrightarrow> distinct cs \<Longrightarrow> set cs \<subseteq> set (hb_clients s) \<Longrightarrow>
    hub_inv (foldl (\<lambda>s c. offer m c s) s cs)"
proof (induction cs arbitrary: s)
  case (Cons c cs)
  then have "hub_inv (offer m c s)" "set (hb_clients s) - {c} \<subseteq> set (hb_clients (offer m c s))"
    using hub_inv_offer [of s c m] by auto
  moreover from this(2) Cons.prems have "set cs \<subseteq> set (hb_clients (offer m c s))" by auto
  ultimately show ?case using Cons by simp
qed simp

lemma hub_inv_broadcast:
  assumes "hub_inv s"
  shows "hub_inv (run_broadcast s)"
proof (cases "hb_broadcast s")
  case Nil
  with assms show ?thesis by (simp add: run_broadcast_def)
next
  case (Cons m ms)
  have "hub_inv (s\<lparr>hb_broadcast := ms\<rparr>)" using assms Cons by (simp add: hub_inv_def)
  moreover have "distinct (hb_clients s)" using assms by (simp add: hub_inv_def)
  ultimately show ?thesis
    using hub_inv_offers [of "s\<lparr>hb_broadcast := ms\<rparr>" "hb_clients s" m] Cons by (simp add: run_broadcast_def)
qed

lemma run_step_inv: "run_step s s' \<Longrightarrow> hub_inv s \<Longrightarrow> hub_inv s'"
  by (induction rule: run_step.induct)
    (auto simp: hub_inv_register hub_inv_unregister hub_inv_broadcast, simp add: hub_inv_def BroadcastEvent_def)

lemma hub_step_inv:
  assumes "hub_step s s'" and "hub_inv s"
  shows "hub_inv s'"
  using assms(1)
proof (cases rule: hub_step.cases)
  case hs_run
  with run_step_inv assms(2) show ?thesis by blast
next
  case (hs_connect u)
  have "hb_next s \<notin> set (hb_clients s @ hb_register s)" using assms(2) by (auto simp: hub_inv_def)
  with assms(2) show ?thesis unfolding hs_connect by (auto simp: hub_inv_def connect_def less_Suc_eq)
next
  case (hs_emit ev p)
  with assms(2) show ?thesis by (simp add: hub_inv_def BroadcastEvent_def)
next
  case (hs_take c ok)
  have "length (tl (hc_queue (hb_chan s c))) \<le> send_size"
    using assms(2) by (simp add: hub_inv_def) (meson diff_le_self le_trans)
  with assms(2) show ?thesis unfolding hs_take by (auto simp: hub_inv_def writer_take_def writer_end_def Let_def)
next
  case (hs_end c)
  with assms(2) show ?thesis by (auto simp: hub_inv_def writer_end_def)
qed

lemma hub_reach_inv: "hub_reach s \<Longrightarrow> hub_inv s"
  by (induction rule: hub_reach.induct) (auto intro: hub_inv_new hub_step_inv)

subsection \<open>Safety\<close>

text \<open>C32: Under every interleaving of the hub, the connections, the writing goroutines and events from
  elsewhere, no goroutine closes a closed channel or sends on one, all registered clients have open
  channels, none is registered twice, and no buffer exceeds its capacity.\<close>

theorem hub_never_panics:
  assumes "hub_reach s"
  shows "\<not> hb_panic s \<and> distinct (hb_clients s) \<and>
    list_all (\<lambda>c. \<not> hc_closed (hb_chan s c)) (hb_clients s) \<and>
    length (hc_queue (hb_chan s c)) \<le> 256 \<and> length (hb_broadcast s) \<le> 256"
  using hub_reach_inv [OF assms]
  by (auto simp: hub_inv_def list_all_iff send_size_def broadcast_size_def)

subsection \<open>Progress\<close>

definition blocked :: "hub \<Rightarrow> bool" where
  "blocked s \<longleftrightarrow> hb_run s \<noteq> Idle \<and> length (hb_broadcast s) = broadcast_size"

lemma blocked_stays:
  assumes "hub_step s s'" and "blocked s"
  shows "blocked s' \<and> hb_broadcast s' = hb_broadcast s \<and> hb_clients s' = hb_clients s"
  using assms(1)
proof (cases rule: hub_step.cases)
  case hs_run
  then show ?thesis using assms(2) by (cases rule: run_step.cases) (auto simp: blocked_def)
qed (use assms(2) in \<open>auto simp: blocked_def connect_def BroadcastEvent_def writer_take_def writer_end_def Let_def\<close>)

interpretation blocked_runs:
  step_invariant hub_step "\<lambda>s. blocked s \<and> hb_broadcast s = b \<and> hb_clients s = c" for b c
  by unfold_locales (auto dest: blocked_stays)

lemma blocked_for_ever:
  "hub_step\<^sup>*\<^sup>* s s' \<Longrightarrow> blocked s \<Longrightarrow>
    blocked s' \<and> hb_broadcast s' = hb_broadcast s \<and> hb_clients s' = hb_clients s"
  using blocked_runs.steps [of s s'] by blast

lemma offer_keeps [simp]:
  "hb_run (offer m c s) = hb_run s" "hb_broadcast (offer m c s) = hb_broadcast s"
  by (simp_all add: offer_def close_send_def Let_def)

lemma offers_keep [simp]:
  "hb_run (foldl (\<lambda>s c. offer m c s) s cs) = hb_run s"
  "hb_broadcast (foldl (\<lambda>s c. offer m c s) s cs) = hb_broadcast s"
  by (induction cs arbitrary: s) simp_all

lemma run_broadcast_keeps:
  "hb_run (run_broadcast s) = hb_run s" "hb_broadcast (run_broadcast s) = tl (hb_broadcast s)"
  by (cases "hb_broadcast s"; simp add: run_broadcast_def)+

text \<open>The idle hub empties the buffer with as many steps as it holds events.\<close>

lemma drains:
  assumes "hb_run s = Idle"
  shows "\<exists>s'. (run_step ^^ length (hb_broadcast s)) s s' \<and> hb_run s' = Idle \<and> hb_broadcast s' = []"
  using assms
proof (induction "length (hb_broadcast s)" arbitrary: s)
  case (Suc n)
  let ?s = "run_broadcast s"
  have ne: "hb_broadcast s \<noteq> []" using Suc.hyps(2) by auto
  have n: "n = length (hb_broadcast ?s)" and idle: "hb_run ?s = Idle"
    using Suc.hyps(2) Suc.prems by (simp_all add: run_broadcast_keeps)
  from Suc.hyps(1) [OF n idle] n obtain s' where s': "(run_step ^^ n) ?s s'" "hb_run s' = Idle" "hb_broadcast s' = []"
    by auto
  have "(run_step ^^ Suc n) s s'"
    using relpowp_Suc_I2 [of run_step, OF rs_broadcast [OF Suc.prems ne] s'(1)] .
  with s'(2,3) Suc.hyps(2) show ?case by auto
qed auto

text \<open>Connections one after the other, each chosen by \<open>Run\<close> before it looks at \<open>broadcast\<close>.\<close>

lemma fills:
  "n \<le> broadcast_size \<Longrightarrow> \<exists>s. hub_reach s \<and> hb_run s = Idle \<and> length (hb_broadcast s) = n"
proof (induction n)
  case 0
  show ?case using hr_new by (intro exI [of _ NewHub]) (simp add: NewHub_def)
next
  case (Suc n)
  then obtain s where s: "hub_reach s" "hb_run s = Idle" "length (hb_broadcast s) = n" by auto
  let ?c = "hb_next s" and ?s1 = "connect [] s"
  let ?s2 = "run_register ?c ?s1" let ?m = "User_Connected (hc_user (hb_chan ?s1 ?c)) ?c"
  have "run_step ?s1 ?s2" using s(2) by (intro rs_register) (simp_all add: connect_def)
  moreover have "run_step ?s2 ((BroadcastEvent ?m ?s2)\<lparr>hb_run := Idle\<rparr>)"
    using s(3) Suc.prems by (intro rs_event) (simp_all add: run_register_def connect_def)
  ultimately have reach: "hub_reach ((BroadcastEvent ?m ?s2)\<lparr>hb_run := Idle\<rparr>)"
    using s(1) hs_connect [of s "[]"] by (meson hr_step hs_run)
  have len: "length (hb_broadcast ((BroadcastEvent ?m ?s2)\<lparr>hb_run := Idle\<rparr>)) = Suc n"
    using s(3) by (simp add: BroadcastEvent_def run_register_def connect_def)
  show ?case using reach len by (intro exI [of _ "(BroadcastEvent ?m ?s2)\<lparr>hb_run := Idle\<rparr>"]) simp
qed


theorem hub_never_panics_witness: "\<not> hb_panic (run_register 0 (connect ''u'' NewHub))"
proof -
  have "run_step (connect ''u'' NewHub) (run_register 0 (connect ''u'' NewHub))"
    by (intro rs_register) (simp_all add: connect_def NewHub_def)
  then have "hub_reach (run_register 0 (connect ''u'' NewHub))"
    using hr_new hs_connect by (meson hr_step hs_run)
  from hub_never_panics [OF this] show ?thesis by blast
qed


end
