(* ===== verification/Metrics.thy ===== *)
theory Metrics
  imports Complex_Main Http "HOL-Library.Word"
begin

section \<open>The admin API: request metrics and the access log\<close>

text \<open>
  \<open>admin-api/internal/middleware/observability.go\<close>.  A latency is a \<open>float64\<close>; its order is that of
  a linear order, and the two roundings that matter, addition and division by the count, are
  arguments (\<open>float_ops\<close>), so the model does not idealise them.  Counters are \<open>uint64\<close>.  The product
  of the rank of a percentile is exact: it is only computed for 0.95 and 0.99 with at most 512
  samples, where the \<open>float64\<close> product rounds up to the same integer.
\<close>

record 'f float_ops =
  fl_zero :: 'f
  fl_add :: "'f \<Rightarrow> 'f \<Rightarrow> 'f"
  fl_div :: "'f \<Rightarrow> 64 word \<Rightarrow> 'f"

record 'f endpoint_counter =
  ec_method :: string
  ec_route :: string
  ec_count :: "64 word"
  ec_errors :: "64 word"
  ec_total :: 'f
  ec_max :: 'f
  ec_last :: 'f
  ec_last_status :: nat
  ec_updated :: int
  ec_samples :: "'f list"

record 'f endpoint_metric =
  em_method :: string
  em_route :: string
  em_count :: "64 word"
  em_errors :: "64 word"
  em_avg :: 'f
  em_p95 :: 'f
  em_p99 :: 'f
  em_max :: 'f
  em_last :: 'f
  em_last_status :: nat
  em_updated :: int

type_synonym 'f metrics = "string \<Rightarrow> 'f endpoint_counter option"

definition maxLatencySamples :: nat where
  "maxLatencySamples = 512"

text \<open>The zero value of the struct, which a missing key of the map yields.\<close>

definition zero_counter :: "'f float_ops \<Rightarrow> 'f endpoint_counter" where
  "zero_counter ops =
    \<lparr>ec_method = [], ec_route = [], ec_count = 0, ec_errors = 0, ec_total = fl_zero ops,
     ec_max = fl_zero ops, ec_last = fl_zero ops, ec_last_status = 0, ec_updated = 0, ec_samples = []\<rparr>"

definition recordEndpointMetric ::
  "('f :: linorder) float_ops \<Rightarrow> instant \<Rightarrow> string \<Rightarrow> string \<Rightarrow> nat \<Rightarrow> 'f \<Rightarrow> 'f metrics \<Rightarrow> 'f metrics" where
  "recordEndpointMetric ops now method route status lat st =
    (let key = method @ '' '' @ route;
         cur = (case st key of None \<Rightarrow> zero_counter ops | Some c \<Rightarrow> c);
         samples = ec_samples cur @ [lat]
     in st(key \<mapsto>
       \<lparr>ec_method = method, ec_route = route, ec_count = ec_count cur + 1,
        ec_errors = (if status \<ge> 400 then ec_errors cur + 1 else ec_errors cur),
        ec_total = fl_add ops (ec_total cur) lat,
        ec_max = (if lat > ec_max cur then lat else ec_max cur),
        ec_last = lat, ec_last_status = status, ec_updated = unix_sec now,
        ec_samples = (if length samples > maxLatencySamples
                      then drop (length samples - maxLatencySamples) samples else samples)\<rparr>))"

definition percentile :: "('f :: linorder) float_ops \<Rightarrow> 'f list \<Rightarrow> rat \<Rightarrow> 'f" where
  "percentile ops samples p0 =
    (if samples = [] then fl_zero ops
     else
       (let p = (if p0 \<le> 0 then 0 else if p0 > 1 then 1 else p0);
            cp = sort samples;
            i0 = \<lceil>p * of_nat (length cp)\<rceil> - 1;
            i1 = (if i0 < 0 then 0 else i0);
            i2 = (if i1 \<ge> int (length cp) then int (length cp) - 1 else i1)
        in cp ! nat i2))"

definition snapshot_metric :: "('f :: linorder) float_ops \<Rightarrow> 'f endpoint_counter \<Rightarrow> 'f endpoint_metric" where
  "snapshot_metric ops v =
    \<lparr>em_method = ec_method v, em_route = ec_route v, em_count = ec_count v, em_errors = ec_errors v,
     em_avg = (if ec_count v > 0 then fl_div ops (ec_total v) (ec_count v) else fl_zero ops),
     em_p95 = percentile ops (ec_samples v) (95 / 100), em_p99 = percentile ops (ec_samples v) (99 / 100),
     em_max = ec_max v, em_last = ec_last v, em_last_status = ec_last_status v, em_updated = ec_updated v\<rparr>"

definition SnapshotEndpointMetrics ::
  "('f :: linorder) float_ops \<Rightarrow> 'f metrics \<Rightarrow> string \<Rightarrow> 'f endpoint_metric option" where
  "SnapshotEndpointMetrics ops st k = map_option (snapshot_metric ops) (st k)"

subsection \<open>The access log\<close>

text \<open>The sink is the date of the open file and its path; the files are kept with their contents.
  \<open>ae_dir\<close> is the environment variable, the two flags the outcomes of \<open>MkdirAll\<close> and \<open>OpenFile\<close>.\<close>

record access_env =
  ae_dir :: string
  ae_today :: string
  ae_mkdir_ok :: bool
  ae_open_ok :: bool

record access_sink =
  as_date :: string
  as_file :: "string option"
  as_files :: "string \<Rightarrow> string option"

definition access_path :: "string \<Rightarrow> string \<Rightarrow> string" where
  "access_path dir date = dir @ ''/access-'' @ date @ ''.log''"

definition open_append :: "string \<Rightarrow> (string \<Rightarrow> string option) \<Rightarrow> string \<Rightarrow> string option" where
  "open_append p fs = (case fs p of None \<Rightarrow> fs(p \<mapsto> []) | Some _ \<Rightarrow> fs)"

definition append_line :: "string \<Rightarrow> string \<Rightarrow> (string \<Rightarrow> string option) \<Rightarrow> string \<Rightarrow> string option" where
  "append_line p line fs = fs(p := map_option (\<lambda>c. c @ line @ [CHR 0x0A]) (fs p))"

definition writeAccessLogToFile :: "access_env \<Rightarrow> string \<Rightarrow> access_sink \<Rightarrow> access_sink" where
  "writeAccessLogToFile e line s =
    (let dir = trim_space (ae_dir e) in
     if dir = [] then s
     else
       (let p = access_path dir (ae_today e); closed = s\<lparr>as_file := None\<rparr> in
        if as_file s = None \<or> as_date s \<noteq> ae_today e then
          (if \<not> ae_mkdir_ok e then closed
           else if \<not> ae_open_ok e then closed
           else \<lparr>as_date = ae_today e, as_file = Some p,
                 as_files = append_line p line (open_append p (as_files s))\<rparr>)
        else s\<lparr>as_files := append_line (the (as_file s)) line (as_files s)\<rparr>))"

definition resetAccessLogSink :: "access_sink \<Rightarrow> access_sink" where
  "resetAccessLogSink s = s\<lparr>as_date := [], as_file := None\<rparr>"

subsection \<open>The counters are a function of the history\<close>

type_synonym 'f request_log = "(instant \<times> string \<times> string \<times> nat \<times> 'f) list"

definition record_all :: "('f :: linorder) float_ops \<Rightarrow> 'f request_log \<Rightarrow> 'f metrics" where
  "record_all ops h =
    foldl (\<lambda>st (now, m, ro, s, l). recordEndpointMetric ops now m ro s l st) Map.empty h"

fun log_key :: "instant \<times> string \<times> string \<times> nat \<times> 'f \<Rightarrow> string" where
  "log_key (now, m, ro, s, l) = m @ '' '' @ ro"

fun log_status :: "instant \<times> string \<times> string \<times> nat \<times> 'f \<Rightarrow> nat" where
  "log_status (now, m, ro, s, l) = s"

fun log_latency :: "instant \<times> string \<times> string \<times> nat \<times> 'f \<Rightarrow> 'f" where
  "log_latency (now, m, ro, s, l) = l"

definition key_history :: "string \<Rightarrow> 'f request_log \<Rightarrow> 'f request_log" where
  "key_history k h = filter (\<lambda>x. log_key x = k) h"

text \<open>The specification: what the counter of a key shows of the requests with that key.\<close>

definition counter_spec :: "('f :: linorder) float_ops \<Rightarrow> 'f request_log \<Rightarrow> 'f endpoint_counter \<Rightarrow> bool" where
  "counter_spec ops h c \<longleftrightarrow>
    ec_count c = of_nat (length h) \<and>
    ec_errors c = of_nat (length (filter (\<lambda>x. log_status x \<ge> 400) h)) \<and>
    ec_total c = foldl (fl_add ops) (fl_zero ops) (map log_latency h) \<and>
    ec_max c = foldl max (fl_zero ops) (map log_latency h) \<and>
    ec_samples c = drop (length h - maxLatencySamples) (map log_latency h) \<and>
    (\<exists>now m ro s l. last h = (now, m, ro, s, l) \<and> ec_method c = m \<and> ec_route c = ro \<and>
       ec_last c = l \<and> ec_last_status c = s \<and> ec_updated c = unix_sec now)"

lemma record_all_snoc:
  "record_all ops (h @ [(now, m, ro, s, l)]) = recordEndpointMetric ops now m ro s l (record_all ops h)"
  by (simp add: record_all_def)

lemma window_snoc:
  "(if length (drop (length xs - n) xs @ [x]) > n
    then drop (length (drop (length xs - n) xs @ [x]) - n) (drop (length xs - n) xs @ [x])
    else drop (length xs - n) xs @ [x]) = drop (Suc (length xs) - n) (xs @ [x])"
  by (cases "length xs < n"; cases "n = 0") (auto simp: Suc_diff_le not_less)

lemma counter_spec_first:
  "counter_spec ops [(now, m, ro, s, l)]
    (the (recordEndpointMetric ops now m ro s l Map.empty (m @ '' '' @ ro)))"
  by (auto simp: recordEndpointMetric_def counter_spec_def zero_counter_def maxLatencySamples_def Let_def
      max_def)

lemma counter_spec_next:
  assumes "counter_spec ops h c" and "st (m @ '' '' @ ro) = Some c"
  shows "counter_spec ops (h @ [(now, m, ro, s, l)])
    (the (recordEndpointMetric ops now m ro s l st (m @ '' '' @ ro)))"
proof -
  let ?c = "the (recordEndpointMetric ops now m ro s l st (m @ '' '' @ ro))"
  have "ec_samples ?c = (if length (ec_samples c @ [l]) > maxLatencySamples
      then drop (length (ec_samples c @ [l]) - maxLatencySamples) (ec_samples c @ [l]) else ec_samples c @ [l])"
    using assms(2) by (simp add: recordEndpointMetric_def Let_def)
  also have "ec_samples c = drop (length (map log_latency h) - maxLatencySamples) (map log_latency h)"
    using assms(1) by (simp add: counter_spec_def)
  also note window_snoc [where xs = "map log_latency h" and n = maxLatencySamples and x = l]
  finally have "ec_samples ?c = drop (length (h @ [(now, m, ro, s, l)]) - maxLatencySamples)
      (map log_latency (h @ [(now, m, ro, s, l)]))"
    by simp
  then show ?thesis
    unfolding counter_spec_def using assms
    by (auto simp: recordEndpointMetric_def counter_spec_def Let_def max_def)
qed

lemma record_other: "k \<noteq> m @ '' '' @ ro \<Longrightarrow> recordEndpointMetric ops now m ro s l st k = st k"
  by (simp add: recordEndpointMetric_def Let_def)

lemma record_hit: "\<exists>c. recordEndpointMetric ops now m ro s l st (m @ '' '' @ ro) = Some c"
  by (simp add: recordEndpointMetric_def Let_def)

text \<open>C31: After any requests, the store has a counter exactly for the keys (method and route) that were
  requested, and each is the specified function of the requests with its key alone: their number
  (modulo 2 to the 64), how many were answered 400 or above, the sum and the maximum of their
  latencies, the last 512 latencies in order, and the data of the last one.\<close>

theorem metrics_are_history:
  "case record_all ops h k of
     None \<Rightarrow> key_history k h = []
   | Some c \<Rightarrow> key_history k h \<noteq> [] \<and> counter_spec ops (key_history k h) c"
proof (induction h rule: rev_induct)
  case Nil
  show ?case by (simp add: record_all_def key_history_def)
next
  case (snoc x h)
  obtain now m ro s l where x: "x = (now, m, ro, s, l)" by (cases x)
  let ?st = "record_all ops h" and ?key = "m @ '' '' @ ro"
  show ?case
  proof (cases "k = ?key")
    case False
    then have kh: "key_history k (h @ [(now, m, ro, s, l)]) = key_history k h" by (simp add: key_history_def)
    show ?thesis unfolding x record_all_snoc record_other [OF False] kh by (rule snoc)
  next
    case True
    obtain c where c: "recordEndpointMetric ops now m ro s l ?st ?key = Some c" using record_hit by blast
    have kh: "key_history k (h @ [x]) = key_history k h @ [x]" using True by (simp add: key_history_def x)
    have "counter_spec ops (key_history k h @ [x]) c"
    proof (cases "?st k")
      case None
      with snoc have "key_history k h = []" by simp
      moreover have "recordEndpointMetric ops now m ro s l ?st ?key = recordEndpointMetric ops now m ro s l Map.empty ?key"
        using None True by (simp add: recordEndpointMetric_def Let_def)
      ultimately show ?thesis
        using counter_spec_first [of ops now m ro s l] c by (simp add: x)
    next
      case (Some c')
      with snoc have "counter_spec ops (key_history k h) c'" by simp
      from counter_spec_next [OF this, of ?st m ro now s l] Some True c show ?thesis by (simp add: x)
    qed
    with c True kh show ?thesis by (simp add: x record_all_snoc)
  qed
qed

subsection \<open>Percentiles\<close>

lemma sorted_nth_le_count:
  assumes "sorted cp" and "i < length cp"
  shows "i + 1 \<le> length (filter (\<lambda>x. x \<le> cp ! i) cp)" and "length (filter (\<lambda>x. x < cp ! i) cp) \<le> i"
proof -
  have "filter (\<lambda>x. x \<le> cp ! i) (take (Suc i) cp) = take (Suc i) cp"
    using assms by (auto simp: filter_id_conv in_set_conv_nth intro!: sorted_nth_mono)
  then have "length (filter (\<lambda>x. x \<le> cp ! i) (take (Suc i) cp @ drop (Suc i) cp)) \<ge> i + 1"
    unfolding filter_append using assms(2) by simp
  then show "i + 1 \<le> length (filter (\<lambda>x. x \<le> cp ! i) cp)" unfolding append_take_drop_id .
  have "filter (\<lambda>x. x < cp ! i) (drop i cp) = []"
    using assms by (auto simp: filter_empty_conv in_set_conv_nth not_less intro!: sorted_nth_mono)
  then have "length (filter (\<lambda>x. x < cp ! i) (take i cp @ drop i cp)) \<le> i"
    unfolding filter_append using length_filter_le [of "\<lambda>x. x < cp ! i" "take i cp"] by simp
  then show "length (filter (\<lambda>x. x < cp ! i) cp) \<le> i" unfolding append_take_drop_id .
qed

lemma filter_sort_length: "length (filter P (sort xs)) = length (filter P xs)"
  by (simp add: filter_sort)

text \<open>The percentile of a nonempty sample list is one of the samples; at least the fraction \<open>p\<close> of
  the samples is at most that value, and fewer than the fraction \<open>p\<close> (for a positive \<open>p\<close>) is below it:
  it is the nearest rank, the least sample with the first property.\<close>

theorem percentile_nearest_rank:
  assumes "samples \<noteq> []" and "0 < p" and "p \<le> 1"
  shows "percentile ops samples p \<in> set samples \<and>
    p * of_nat (length samples) \<le> of_nat (length (filter (\<lambda>x. x \<le> percentile ops samples p) samples)) \<and>
    of_nat (length (filter (\<lambda>x. x < percentile ops samples p) samples)) < p * of_nat (length samples) \<and>
    (\<forall>v. p * of_nat (length samples) \<le> of_nat (length (filter (\<lambda>x. x \<le> v) samples)) \<longrightarrow>
      percentile ops samples p \<le> v)"
proof -
  let ?cp = "sort samples" and ?n = "length samples"
  let ?i = "nat (\<lceil>p * of_nat ?n\<rceil> - 1)"
  have pos: "0 < p * of_nat ?n" using assms by simp
  have up: "p * of_nat ?n \<le> of_nat ?n" using assms by (simp add: mult_le_cancel_right1)
  have c: "1 \<le> \<lceil>p * of_nat ?n\<rceil>" "\<lceil>p * of_nat ?n\<rceil> \<le> int ?n"
    using pos up by (simp_all add: ceiling_le_iff one_le_ceiling)
  moreover have "0 < int ?n" using assms(1) by simp
  ultimately have i: "?i < length ?cp" by (simp add: nat_less_iff)
  have v: "percentile ops samples p = ?cp ! ?i"
    using assms c by (auto simp: percentile_def Let_def)
  note cnt = sorted_nth_le_count [OF sorted_sort i]
  have Si: "rat_of_nat (?i + 1) = of_int \<lceil>p * of_nat ?n\<rceil>"
    using c by simp
  have ge: "p * of_nat ?n \<le> of_nat (?i + 1)" unfolding Si by (rule le_of_int_ceiling)
  have "of_int (\<lceil>p * of_nat ?n\<rceil> - 1) < p * of_nat ?n" by linarith
  then have lt: "rat_of_nat ?i < p * of_nat ?n" using c by simp
  have le: "p * of_nat ?n \<le> of_nat (length (filter (\<lambda>x. x \<le> ?cp ! ?i) samples))"
    using ge cnt(1) unfolding filter_sort_length by (meson of_nat_le_iff order_trans)
  have less: "rat_of_nat (length (filter (\<lambda>x. x < ?cp ! ?i) samples)) < p * of_nat ?n"
    using lt cnt(2) unfolding filter_sort_length by (meson of_nat_le_iff le_less_trans)
  have least: "?cp ! ?i \<le> w"
    if "p * of_nat ?n \<le> of_nat (length (filter (\<lambda>x. x \<le> w) samples))" for w
  proof (rule ccontr)
    assume "\<not> ?cp ! ?i \<le> w"
    then have "length (filter (\<lambda>x. x \<le> w) samples) \<le> length (filter (\<lambda>x. x < ?cp ! ?i) samples)"
      by (intro length_filter_mono) auto
    with less have "rat_of_nat (length (filter (\<lambda>x. x \<le> w) samples)) < p * of_nat ?n"
      by (meson of_nat_le_iff le_less_trans)
    with that show False by simp
  qed
  have "?cp ! ?i \<in> set samples" using nth_mem [OF i] by simp
  with le less least show ?thesis unfolding v by blast
qed

definition ex_ops :: "int float_ops" where
  "ex_ops = \<lparr>fl_zero = 0, fl_add = (+), fl_div = (\<lambda>t n. t div uint n)\<rparr>"

theorem percentile_nearest_rank_witness: "percentile ex_ops [30, 10, 20] (1 / 2) = 20"
proof -
  have p: "(0 :: rat) < 1 / 2" "(1 / 2 :: rat) \<le> 1" and ne: "[30, 10, 20 :: int] \<noteq> []" by simp_all
  let ?v = "percentile ex_ops [30, 10, 20] (1 / 2)"
  from percentile_nearest_rank [OF ne p, of ex_ops]
  have "?v \<in> {30, 10, 20}" "(1 / 2 :: rat) * 3 \<le> of_nat (length (filter (\<lambda>x. x \<le> ?v) [30, 10, 20]))"
    "of_nat (length (filter (\<lambda>x. x < ?v) [30, 10, 20])) < (1 / 2 :: rat) * 3"
    by simp_all
  then show ?thesis by auto
qed

subsection \<open>The access log by day\<close>

definition log_run :: "(access_env \<times> string) list \<Rightarrow> access_sink \<Rightarrow> access_sink" where
  "log_run ls s = foldl (\<lambda>s (e, l). writeAccessLogToFile e l s) s ls"

definition lines_of_day :: "string \<Rightarrow> (access_env \<times> string) list \<Rightarrow> string" where
  "lines_of_day d ls = concat (map (\<lambda>(e, l). l @ [CHR 0x0A]) (filter (\<lambda>(e, l). ae_today e = d) ls))"

text \<open>The open file is the one of the sink's date, and exists.\<close>

definition sink_inv :: "string \<Rightarrow> access_sink \<Rightarrow> bool" where
  [inv_simps]: "sink_inv dir s \<longleftrightarrow>
    (as_file s = None \<or> as_file s = Some (access_path dir (as_date s)) \<and> as_files s (access_path dir (as_date s)) \<noteq> None)"

definition log_ok :: "string \<Rightarrow> access_env \<Rightarrow> bool" where
  "log_ok dir e \<longleftrightarrow> trim_space (ae_dir e) = dir \<and> ae_mkdir_ok e \<and> ae_open_ok e"

lemma access_path_inj [simp]: "access_path dir d = access_path dir d' \<longleftrightarrow> d = d'"
  by (simp add: access_path_def)

lemma append_opened:
  "append_line p l (open_append p fs) q =
    (if q = p then Some ((case fs p of None \<Rightarrow> [] | Some c \<Rightarrow> c) @ l @ [CHR 0x0A]) else fs q)"
  by (cases "fs p") (simp_all add: append_line_def open_append_def)

lemma open_existing: "fs p \<noteq> None \<Longrightarrow> open_append p fs = fs"
  by (cases "fs p") (simp_all add: open_append_def)

lemma write_opens:
  assumes "log_ok dir e" and "dir \<noteq> []" and "sink_inv dir s"
  shows "writeAccessLogToFile e l s = \<lparr>as_date = ae_today e, as_file = Some (access_path dir (ae_today e)),
    as_files = append_line (access_path dir (ae_today e)) l (open_append (access_path dir (ae_today e)) (as_files s))\<rparr>"
proof (cases "as_file s = None \<or> as_date s \<noteq> ae_today e")
  case True
  with assms show ?thesis by (simp add: writeAccessLogToFile_def log_ok_def Let_def)
next
  case False
  then have "as_file s = Some (access_path dir (ae_today e))" "as_files s (access_path dir (ae_today e)) \<noteq> None"
    using assms(3) by (auto simp: sink_inv_def)
  with False assms show ?thesis
    by (cases s) (simp add: writeAccessLogToFile_def log_ok_def Let_def open_existing)
qed

lemma write_line:
  assumes "log_ok dir e" and "dir \<noteq> []" and "sink_inv dir s"
  shows "sink_inv dir (writeAccessLogToFile e l s) \<and>
    as_files (writeAccessLogToFile e l s) (access_path dir d) =
      (if ae_today e = d
       then Some ((case as_files s (access_path dir d) of None \<Rightarrow> [] | Some c \<Rightarrow> c) @ l @ [CHR 0x0A])
       else as_files s (access_path dir d))"
  unfolding write_opens [OF assms] by (auto simp: sink_inv_def append_opened)

text \<open>With the log directory set and its files writable, after any sequence of access-log lines,
  whatever their dates, the file of each day holds what it held before followed by exactly the
  lines of that day, complete and in order; a day without lines has no new file.\<close>

theorem access_log_by_day:
  assumes "\<forall>(e, l)\<in>set ls. log_ok dir e" and "dir \<noteq> []" and "as_file s = None"
  shows "as_files (log_run ls s) (access_path dir d) =
    (if list_ex (\<lambda>(e, l). ae_today e = d) ls
     then Some ((case as_files s (access_path dir d) of None \<Rightarrow> [] | Some c \<Rightarrow> c) @ lines_of_day d ls)
     else as_files s (access_path dir d))"
proof -
  have "sink_inv dir (log_run ls s) \<and> as_files (log_run ls s) (access_path dir d) =
    (if list_ex (\<lambda>(e, l). ae_today e = d) ls
     then Some ((case as_files s (access_path dir d) of None \<Rightarrow> [] | Some c \<Rightarrow> c) @ lines_of_day d ls)
     else as_files s (access_path dir d))"
    using assms(1)
  proof (induction ls rule: rev_induct)
    case Nil
    with assms(3) show ?case by (simp add: log_run_def sink_inv_def)
  next
    case (snoc x ls)
    obtain e l where x: "x = (e, l)" by (cases x)
    have ok: "log_ok dir e" and ih: "sink_inv dir (log_run ls s)" using snoc x by auto
    have run: "log_run (ls @ [x]) s = writeAccessLogToFile e l (log_run ls s)" by (simp add: log_run_def x)
    note w = write_line [OF ok assms(2) ih, of l d, folded run]
    have day: "lines_of_day d (ls @ [(e, l)]) = lines_of_day d ls @ (if ae_today e = d then l @ [CHR 0x0A] else [])"
      by (simp add: lines_of_day_def)
    have none: "lines_of_day d ls = []" if "\<not> list_ex (\<lambda>(e, l). ae_today e = d) ls"
      using that by (auto simp: lines_of_day_def list_ex_iff filter_empty_conv)
    have ih': "as_files (log_run ls s) (access_path dir d) =
      (if list_ex (\<lambda>(e, l). ae_today e = d) ls
       then Some ((case as_files s (access_path dir d) of None \<Rightarrow> [] | Some c \<Rightarrow> c) @ lines_of_day d ls)
       else as_files s (access_path dir d))"
      using snoc by simp
    show ?case
    proof (cases "list_ex (\<lambda>(e, l). ae_today e = d) ls")
      case True
      with w ih' show ?thesis by (simp add: day x)
    next
      case False
      with w ih' none show ?thesis by (simp add: day x split: option.splits)
    qed
  qed
  then show ?thesis by blast
qed

definition ex_day :: "string \<Rightarrow> access_env" where
  "ex_day d = \<lparr>ae_dir = ''/logs'', ae_today = d, ae_mkdir_ok = True, ae_open_ok = True\<rparr>"

theorem access_log_by_day_witness:
  "as_files (log_run [(ex_day ''d1'', ''a''), (ex_day ''d2'', ''b''), (ex_day ''d1'', ''c'')]
      \<lparr>as_date = [], as_file = None, as_files = Map.empty\<rparr>) (access_path ''/logs'' ''d1'')
    = Some (''a'' @ [CHR 0x0A] @ ''c'' @ [CHR 0x0A])"
proof -
  have "trim_space ''/logs'' = ''/logs''" by code_simp
  then have "log_ok ''/logs'' (ex_day d)" for d by (simp add: log_ok_def ex_day_def)
  then have "\<forall>(e, l)\<in>set [(ex_day ''d1'', ''a''), (ex_day ''d2'', ''b''), (ex_day ''d1'', ''c'')]. log_ok ''/logs'' e"
    by simp
  from access_log_by_day [OF this, of "\<lparr>as_date = [], as_file = None, as_files = Map.empty\<rparr>" "''d1''"]
  show ?thesis by (simp add: lines_of_day_def ex_day_def)
qed

end
