(* ===== verification/Monitoring.thy ===== *)
theory Monitoring
  imports PlatformDB
begin

section \<open>The admin API: monitoring\<close>

text \<open>
  \<open>admin-api/internal/monitoring/handler.go\<close>, \<open>system/handler.go\<close>, \<open>cluster/handler.go\<close>.  The tables
  \<open>cluster_nodes\<close> and \<open>files\<close>, which no service of the repository creates, the readings of the runtime
  (\<open>mo_alloc\<close> in bytes: the division by a power of two is exact) and of the clock (\<open>mo_clock\<close>, by the
  number of the reading in the request) and failing statements are arguments.  A failed query is
  ignored and leaves the variable at 0.
\<close>

record mon_env =
  mo_clock :: "nat \<Rightarrow> instant"
  mo_fault :: "nat \<Rightarrow> bool"
  mo_cluster_nodes :: "nat option"
  mo_files :: "(int \<times> int) list option"   \<comment> \<open>size and time of creation\<close>
  mo_uptime :: int
  mo_go_version :: string
  mo_num_cpu :: nat
  mo_alloc :: nat

record network_stats =
  ns_nodes_online :: nat
  ns_peers_known :: nat
  ns_uptime :: int

record user_stats =
  us_total :: nat
  us_online :: nat
  us_active_today :: nat

record message_stats =
  ms_last_hour :: nat
  ms_today :: nat
  ms_total :: nat

record file_stats =
  fs_total :: nat
  fs_bytes :: int
  fs_today :: nat

record system_stats =
  ss_go_version :: string
  ss_num_cpu :: nat
  ss_alloc :: nat
  ss_uptime :: int

record overview =
  ov_generated :: int
  ov_network :: network_stats
  ov_users :: user_stats
  ov_messages :: message_stats
  ov_files :: file_stats
  ov_system :: system_stats

definition hour :: duration where
  "hour = 60 * minute"

definition tableExists :: "bool \<Rightarrow> 'r table \<Rightarrow> bool" where
  "tableExists f t \<longleftrightarrow> \<not> f \<and> t \<noteq> None"

text \<open>\<open>SELECT COUNT(*) FROM t WHERE P\<close> into a variable that is 0, errors ignored.\<close>

definition count_rows :: "bool \<Rightarrow> ('r \<Rightarrow> bool) \<Rightarrow> 'r table \<Rightarrow> nat" where
  "count_rows f P t = (case query f t of Inl _ \<Rightarrow> 0 | Inr rs \<Rightarrow> length (filter P rs))"

definition count_distinct :: "bool \<Rightarrow> ('r \<Rightarrow> 'k) \<Rightarrow> ('r \<Rightarrow> bool) \<Rightarrow> 'r table \<Rightarrow> nat" where
  "count_distinct f key P t =
    (case query f t of Inl _ \<Rightarrow> 0 | Inr rs \<Rightarrow> length (remdups (map key (filter P rs))))"

text \<open>SQLite's \<open>LIKE '%message%'\<close> ignores the case of ASCII letters.\<close>

definition like_message :: "audit_row \<Rightarrow> bool" where
  "like_message a \<longleftrightarrow> contains (map to_lower (aud_action a)) ''message''"

subsection \<open>The separate handlers\<close>

definition Network :: "mon_env \<Rightarrow> network_stats" where
  "Network e =
    (let nodes =
       (if tableExists (mo_fault e 0) (map_option (\<lambda>n. replicate n ()) (mo_cluster_nodes e)) then
          (let detected = (if mo_fault e 1 then 0 else the (mo_cluster_nodes e))
           in if detected > 0 then detected else 1)
        else 1)
     in \<lparr>ns_nodes_online = nodes, ns_peers_known = nodes, ns_uptime = mo_uptime e\<rparr>)"

definition Users :: "mon_env \<Rightarrow> platform_db \<Rightarrow> user_stats" where
  "Users e db =
    (let total = count_rows (mo_fault e 2) (\<lambda>_. True) (t_users db);
         online =
           (if tableExists (mo_fault e 3) (t_presence db) then
              (let cutoff = unix_sec (mo_clock e 0 - 60 * second)
               in count_rows (mo_fault e 4) (\<lambda>p. pr_status p = 1 \<and> pr_last_seen p \<ge> cutoff) (t_presence db))
            else if tableExists (mo_fault e 5) (t_messages db) then
              (let cutoff = unix_milli (mo_clock e 0 - 5 * minute)
               in count_distinct (mo_fault e 6) msg_sender_id (\<lambda>m. msg_timestamp m \<ge> cutoff) (t_messages db))
            else 0);
         active =
           (if tableExists (mo_fault e 7) (t_messages db) then
              (let cutoff = unix_milli (mo_clock e 1 - 24 * hour)
               in count_distinct (mo_fault e 8) msg_sender_id (\<lambda>m. msg_timestamp m \<ge> cutoff) (t_messages db))
            else total)
     in \<lparr>us_total = total, us_online = online, us_active_today = active\<rparr>)"

definition Messages :: "mon_env \<Rightarrow> platform_db \<Rightarrow> message_stats" where
  "Messages e db =
    (if tableExists (mo_fault e 9) (t_messages db) then
       (let h = unix_milli (mo_clock e 2 - hour); d = unix_milli (mo_clock e 3 - 24 * hour)
        in \<lparr>ms_last_hour = count_rows (mo_fault e 10) (\<lambda>m. msg_timestamp m \<ge> h) (t_messages db),
            ms_today = count_rows (mo_fault e 11) (\<lambda>m. msg_timestamp m \<ge> d) (t_messages db),
            ms_total = count_rows (mo_fault e 12) (\<lambda>_. True) (t_messages db)\<rparr>)
     else
       (let h = unix_sec (mo_clock e 2 - hour); d = unix_sec (mo_clock e 3 - 24 * hour)
        in \<lparr>ms_last_hour = count_rows (mo_fault e 10) (\<lambda>a. like_message a \<and> aud_timestamp a \<ge> h) (t_audit_logs db),
            ms_today = count_rows (mo_fault e 11) (\<lambda>a. like_message a \<and> aud_timestamp a \<ge> d) (t_audit_logs db),
            ms_total = count_rows (mo_fault e 12) like_message (t_audit_logs db)\<rparr>))"

definition Files :: "mon_env \<Rightarrow> platform_db \<Rightarrow> file_stats" where
  "Files e db =
    (if tableExists (mo_fault e 13) (mo_files e) then
       (let d = unix_sec (mo_clock e 4 - 24 * hour); rows = query (mo_fault e 14) (mo_files e)
        in \<lparr>fs_total = (case rows of Inl _ \<Rightarrow> 0 | Inr rs \<Rightarrow> length rs),
            fs_bytes = (case rows of Inl _ \<Rightarrow> 0 | Inr rs \<Rightarrow> sum_list (map fst rs)),
            fs_today = count_rows (mo_fault e 15) (\<lambda>r. snd r \<ge> d) (mo_files e)\<rparr>)
     else if tableExists (mo_fault e 16) (t_messages db) then
       (let d = unix_milli (mo_clock e 4 - 24 * hour)
        in \<lparr>fs_total = count_rows (mo_fault e 14) (\<lambda>m. msg_type m = 3) (t_messages db), fs_bytes = 0,
            fs_today = count_rows (mo_fault e 15) (\<lambda>m. msg_type m = 3 \<and> msg_timestamp m \<ge> d) (t_messages db)\<rparr>)
     else \<lparr>fs_total = 0, fs_bytes = 0, fs_today = 0\<rparr>)"

definition System :: "mon_env \<Rightarrow> system_stats" where
  "System e =
    \<lparr>ss_go_version = mo_go_version e, ss_num_cpu = mo_num_cpu e, ss_alloc = mo_alloc e,
     ss_uptime = mo_uptime e\<rparr>"

subsection \<open>The overview, which repeats the code of the handlers, and its cache\<close>

definition buildOverview :: "mon_env \<Rightarrow> platform_db \<Rightarrow> overview" where
  "buildOverview e db =
    (let nodes0 =
       (if tableExists (mo_fault e 0) (map_option (\<lambda>n. replicate n ()) (mo_cluster_nodes e))
        then (if mo_fault e 1 then 0 else the (mo_cluster_nodes e)) else 0);
         nodes = (if nodes0 \<le> 0 then 1 else nodes0);
         total = count_rows (mo_fault e 2) (\<lambda>_. True) (t_users db);
         online =
           (if tableExists (mo_fault e 3) (t_presence db) then
              count_rows (mo_fault e 4)
                (\<lambda>p. pr_status p = 1 \<and> pr_last_seen p \<ge> unix_sec (mo_clock e 0 - 60 * second)) (t_presence db)
            else if tableExists (mo_fault e 5) (t_messages db) then
              count_distinct (mo_fault e 6) msg_sender_id
                (\<lambda>m. msg_timestamp m \<ge> unix_milli (mo_clock e 0 - 5 * minute)) (t_messages db)
            else 0);
         active =
           (if tableExists (mo_fault e 7) (t_messages db) then
              count_distinct (mo_fault e 8) msg_sender_id
                (\<lambda>m. msg_timestamp m \<ge> unix_milli (mo_clock e 1 - 24 * hour)) (t_messages db)
            else total);
         messages =
           (if tableExists (mo_fault e 9) (t_messages db) then
              \<lparr>ms_last_hour = count_rows (mo_fault e 10)
                 (\<lambda>m. msg_timestamp m \<ge> unix_milli (mo_clock e 2 - hour)) (t_messages db),
               ms_today = count_rows (mo_fault e 11)
                 (\<lambda>m. msg_timestamp m \<ge> unix_milli (mo_clock e 3 - 24 * hour)) (t_messages db),
               ms_total = count_rows (mo_fault e 12) (\<lambda>_. True) (t_messages db)\<rparr>
            else
              \<lparr>ms_last_hour = count_rows (mo_fault e 10)
                 (\<lambda>a. like_message a \<and> aud_timestamp a \<ge> unix_sec (mo_clock e 2 - hour)) (t_audit_logs db),
               ms_today = count_rows (mo_fault e 11)
                 (\<lambda>a. like_message a \<and> aud_timestamp a \<ge> unix_sec (mo_clock e 3 - 24 * hour)) (t_audit_logs db),
               ms_total = count_rows (mo_fault e 12) like_message (t_audit_logs db)\<rparr>);
         files =
           (if tableExists (mo_fault e 13) (mo_files e) then
              \<lparr>fs_total = (case query (mo_fault e 14) (mo_files e) of Inl _ \<Rightarrow> 0 | Inr rs \<Rightarrow> length rs),
               fs_bytes = (case query (mo_fault e 14) (mo_files e) of Inl _ \<Rightarrow> 0 | Inr rs \<Rightarrow> sum_list (map fst rs)),
               fs_today = count_rows (mo_fault e 15) (\<lambda>r. snd r \<ge> unix_sec (mo_clock e 4 - 24 * hour)) (mo_files e)\<rparr>
            else if tableExists (mo_fault e 16) (t_messages db) then
              \<lparr>fs_total = count_rows (mo_fault e 14) (\<lambda>m. msg_type m = 3) (t_messages db), fs_bytes = 0,
               fs_today = count_rows (mo_fault e 15)
                 (\<lambda>m. msg_type m = 3 \<and> msg_timestamp m \<ge> unix_milli (mo_clock e 4 - 24 * hour)) (t_messages db)\<rparr>
            else \<lparr>fs_total = 0, fs_bytes = 0, fs_today = 0\<rparr>)
     in \<lparr>ov_generated = unix_sec (mo_clock e 5),
         ov_network = \<lparr>ns_nodes_online = nodes, ns_peers_known = nodes, ns_uptime = mo_uptime e\<rparr>,
         ov_users = \<lparr>us_total = total, us_online = online, us_active_today = active\<rparr>,
         ov_messages = messages, ov_files = files,
         ov_system = \<lparr>ss_go_version = mo_go_version e, ss_num_cpu = mo_num_cpu e, ss_alloc = mo_alloc e,
           ss_uptime = mo_uptime e\<rparr>\<rparr>)"

text \<open>The zero \<open>time.Time\<close> is the start of year 1.  \<open>Overview\<close> reads the clock when it starts (reading 6)
  and when it stores the value (reading 7).\<close>

record overview_cache =
  oc_value :: "overview option"
  oc_expires :: instant

definition zero_time :: instant where
  "zero_time = - 62135596800 * second"

definition overviewCache_ttl :: duration where
  "overviewCache_ttl = 5 * second"

definition resetOverviewCache :: overview_cache where
  "resetOverviewCache = \<lparr>oc_value = None, oc_expires = zero_time\<rparr>"

definition Overview :: "mon_env \<Rightarrow> platform_db \<Rightarrow> overview_cache \<Rightarrow> overview option \<times> overview_cache" where
  "Overview e db c =
    (if mo_clock e 6 < oc_expires c then (oc_value c, c)
     else
       (let fresh = buildOverview e db
        in (Some fresh, \<lparr>oc_value = Some fresh, oc_expires = mo_clock e 7 + overviewCache_ttl\<rparr>)))"

definition overview_after :: "(mon_env \<times> platform_db) list \<Rightarrow> overview_cache" where
  "overview_after rs = foldl (\<lambda>c (e, db). snd (Overview e db c)) resetOverviewCache rs"

text \<open>The overview is the answers of the separate handlers.\<close>

lemma overview_fields:
  "buildOverview e db =
    \<lparr>ov_generated = unix_sec (mo_clock e 5), ov_network = Network e, ov_users = Users e db,
     ov_messages = Messages e db, ov_files = Files e db, ov_system = System e\<rparr>"
  unfolding buildOverview_def Network_def Users_def Messages_def Files_def System_def Let_def
  by simp

lemma overview_cache_inv:
  "(oc_value (overview_after rs) = None \<and> oc_expires (overview_after rs) = zero_time) \<or>
   (\<exists>(e, db)\<in>set rs. oc_value (overview_after rs) = Some (buildOverview e db) \<and>
     oc_expires (overview_after rs) = mo_clock e 7 + overviewCache_ttl)"
proof (induction rs rule: rev_induct)
  case Nil
  show ?case by (simp add: overview_after_def resetOverviewCache_def)
next
  case (snoc x rs)
  obtain e db where x: "x = (e, db)" by (cases x)
  have step: "overview_after (rs @ [(e, db)]) = snd (Overview e db (overview_after rs))"
    by (simp add: overview_after_def)
  show ?case
  proof (cases "mo_clock e 6 < oc_expires (overview_after rs)")
    case True
    then have "overview_after (rs @ [(e, db)]) = overview_after rs" by (simp add: step Overview_def)
    with snoc show ?thesis unfolding x by auto
  next
    case False
    then show ?thesis unfolding x by (simp add: step Overview_def Let_def)
  qed
qed

text \<open>C34: Every answer of \<open>/admin/monitoring/overview\<close> is, field by field, what the separate handlers
  answer for this request, or for an earlier one whose value was stored less than five seconds
  before; the user counts in it are bounded by the rows they count.\<close>

theorem overview_fresh_enough:
  assumes "zero_time \<le> mo_clock e 6"
  shows "\<exists>e' db'. (e', db') \<in> set (rs @ [(e, db)]) \<and>
    fst (Overview e db (overview_after rs)) =
      Some \<lparr>ov_generated = unix_sec (mo_clock e' 5), ov_network = Network e', ov_users = Users e' db',
        ov_messages = Messages e' db', ov_files = Files e' db', ov_system = System e'\<rparr> \<and>
    ((e', db') = (e, db) \<or> mo_clock e 6 < mo_clock e' 7 + 5 * second) \<and>
    (\<forall>us. t_users db' = Some us \<longrightarrow> us_total (Users e' db') \<le> length us) \<and>
    (\<forall>ps. t_presence db' = Some ps \<longrightarrow> \<not> mo_fault e' 3 \<longrightarrow> us_online (Users e' db') \<le> length ps) \<and>
    1 \<le> ns_nodes_online (Network e')"
proof -
  have bounds: "(\<forall>us. t_users db' = Some us \<longrightarrow> us_total (Users e' db') \<le> length us) \<and>
    (\<forall>ps. t_presence db' = Some ps \<longrightarrow> \<not> mo_fault e' 3 \<longrightarrow> us_online (Users e' db') \<le> length ps) \<and>
    1 \<le> ns_nodes_online (Network e')" for e' db'
    by (auto simp: Users_def Network_def count_rows_def query_def tableExists_def Let_def)
  show ?thesis
  proof (cases "mo_clock e 6 < oc_expires (overview_after rs)")
    case True
    then have "oc_expires (overview_after rs) \<noteq> zero_time" using assms by auto
    then obtain e' db' where "(e', db') \<in> set rs" "oc_value (overview_after rs) = Some (buildOverview e' db')"
      "oc_expires (overview_after rs) = mo_clock e' 7 + overviewCache_ttl"
      using overview_cache_inv [of rs] by auto
    with True bounds show ?thesis
      by (intro exI [of _ e'] exI [of _ db']) (simp add: Overview_def overview_fields overviewCache_ttl_def)
  next
    case False
    with bounds show ?thesis
      by (intro exI [of _ e] exI [of _ db]) (simp add: Overview_def overview_fields Let_def)
  qed
qed

subsection \<open>Health and cluster status\<close>

record health_response =
  hr_status :: string
  hr_version :: string
  hr_uptime :: int
  hr_alloc :: nat

definition Health :: "mon_env \<Rightarrow> health_response" where
  "Health e = \<lparr>hr_status = ''ok'', hr_version = ''1.0'', hr_uptime = mo_uptime e, hr_alloc = mo_alloc e\<rparr>"

record node_info =
  ni_node_id :: string
  ni_address :: string
  ni_role :: string
  ni_last_seen :: int
  ni_is_leader :: bool

record cluster_status =
  cs_cluster_id :: string
  cs_leader_id :: string
  cs_nodes :: "node_info list"
  cs_total :: nat
  cs_healthy :: bool

definition cluster_Status :: "instant \<Rightarrow> cluster_status" where
  "cluster_Status now =
    \<lparr>cs_cluster_id = ''local-cluster'', cs_leader_id = ''node-1'',
     cs_nodes = [\<lparr>ni_node_id = ''node-1'', ni_address = ''localhost:8085'', ni_role = ''leader'',
       ni_last_seen = unix_sec now, ni_is_leader = True\<rparr>],
     cs_total = 1, cs_healthy = True\<rparr>"

subsection \<open>A concrete installation\<close>

definition ex_mon :: "instant \<Rightarrow> mon_env" where
  "ex_mon t = \<lparr>mo_clock = (\<lambda>_. t), mo_fault = (\<lambda>_. False), mo_cluster_nodes = None, mo_files = None,
     mo_uptime = 60, mo_go_version = ''go1.22'', mo_num_cpu = 4, mo_alloc = 1000\<rparr>"

theorem overview_fresh_enough_witness:
  "\<exists>e' db'. fst (Overview (ex_mon (3 * second)) empty_db (overview_after [(ex_mon 0, empty_db)])) =
      Some (buildOverview e' db') \<and> ov_network (buildOverview e' db') = Network e'"
proof -
  have "zero_time \<le> mo_clock (ex_mon (3 * second)) 6" by (simp add: zero_time_def ex_mon_def second_def)
  from overview_fresh_enough [OF this, of "[(ex_mon 0, empty_db)]" empty_db]
  obtain e' db' where "fst (Overview (ex_mon (3 * second)) empty_db (overview_after [(ex_mon 0, empty_db)])) =
      Some (buildOverview e' db')"
    unfolding overview_fields [symmetric] by blast
  then show ?thesis by (intro exI [of _ e'] exI [of _ db']) (simp add: overview_fields)
qed

end
