(* ===== verification/AdminServer.thy ===== *)
theory AdminServer
  imports Hub Metrics Monitoring
begin

section \<open>The admin API: the whole server\<close>

text \<open>
  \<open>admin-api/cmd/server/main.go\<close>: every request passes \<open>RequestID\<close>, \<open>AccessLogAndMetrics\<close> and the
  CORS middleware before its route.  The state of the process is the database, the metrics, the
  cached overview, the hub and the access log.  Matching a request to its route is the router
  library's; the library's own answers are 404 and the status of a failed upgrade.
\<close>

datatype server_route =
    S_Login
  | S_Admin admin_route
  | S_Overview | S_Health | S_Metrics | S_Cluster | S_WS
  | S_Public_Channels | S_Public_Users | S_Public_Health
  | S_None

datatype 'f server_payload =
    SP_Admin admin_payload
  | SP_Overview "overview option"
  | SP_Health health_response
  | SP_Metrics int "string \<Rightarrow> 'f endpoint_metric option"
  | SP_Cluster cluster_status

record 'f server_state =
  sv_db :: platform_db
  sv_metrics :: "'f metrics"
  sv_cache :: overview_cache
  sv_hub :: hub
  sv_sink :: access_sink

record 'f access_entry =
  en_ts :: instant
  en_request_id :: string
  en_method :: string
  en_route :: string
  en_path :: string
  en_status :: nat
  en_latency :: 'f
  en_client_ip :: string
  en_user_agent :: string
  en_user_id :: string
  en_username :: string
  en_role :: string

record 'f server_env =
  se_admin :: admin_env
  se_mon :: mon_env
  se_ops :: "'f float_ops"
  se_upgrade :: "request \<Rightarrow> nat option"
  se_latency :: 'f
  se_access :: access_env
  se_request_id :: string
  se_json :: "'f access_entry \<Rightarrow> string option"

fun map_reply :: "('a \<Rightarrow> 'b) \<Rightarrow> 'a reply \<Rightarrow> 'b reply" where
  "map_reply f (Http_Error c m) = Http_Error c m"
| "map_reply f (Http_Err c) = Http_Err c"
| "map_reply f (Status_Only c) = Status_Only c"
| "map_reply f (Json v) = Json (f v)"
| "map_reply f (Status_Json c v) = Status_Json c (f v)"
| "map_reply f No_Write = No_Write"

text \<open>The group's middleware around a handler that needs no claims.\<close>

definition guarded ::
  "admin_env \<Rightarrow> request \<Rightarrow> 'f server_payload reply \<times> 'f server_state \<Rightarrow> 'f server_state \<Rightarrow>
    'f server_payload reply \<times> 'f server_state" where
  "guarded e r out s =
    (case JWTAuth e r of
       Inl rep \<Rightarrow> (map_reply SP_Admin rep, s)
     | Inr c \<Rightarrow> (case RequireAdmin c of Some rep \<Rightarrow> (map_reply SP_Admin rep, s) | None \<Rightarrow> out))"

fun dispatch ::
  "server_route \<Rightarrow> ('f :: linorder) server_env \<Rightarrow> request \<Rightarrow> 'f server_state \<Rightarrow>
    'f server_payload reply \<times> 'f server_state" where
  "dispatch S_Login e r s =
    (let (rep, db) = AdminLoginHandler (se_admin e) r (sv_db s)
     in (map_reply SP_Admin rep, s\<lparr>sv_db := db\<rparr>))"
| "dispatch (S_Admin ro) e r s =
    (let (rep, db) = admin_serve ro (se_admin e) r (sv_db s)
     in (map_reply SP_Admin rep, s\<lparr>sv_db := db\<rparr>))"
| "dispatch S_Overview e r s =
    guarded (se_admin e) r
      (let (v, c) = Overview (se_mon e) (sv_db s) (sv_cache s)
       in (Status_Json 200 (SP_Overview v), s\<lparr>sv_cache := c\<rparr>)) s"
| "dispatch S_Health e r s = guarded (se_admin e) r (Status_Json 200 (SP_Health (Health (se_mon e))), s) s"
| "dispatch S_Metrics e r s =
    guarded (se_admin e) r
      (Status_Json 200 (SP_Metrics (unix_sec (ad_now (se_admin e)))
         (SnapshotEndpointMetrics (se_ops e) (sv_metrics s))), s) s"
| "dispatch S_Cluster e r s =
    guarded (se_admin e) r (Status_Json 200 (SP_Cluster (cluster_Status (ad_now (se_admin e)))), s) s"
| "dispatch S_WS e r s =
    (let (rep, h) = admin_HandleWS (se_admin e) (se_upgrade e) r (sv_hub s)
     in (map_reply SP_Admin rep, s\<lparr>sv_hub := h\<rparr>))"
| "dispatch S_Public_Channels e r s =
    (map_reply SP_Admin (channels_ListPublic (se_admin e) (sv_db s)), s)"
| "dispatch S_Public_Users e r s = (map_reply SP_Admin (users_List (se_admin e) (sv_db s)), s)"
| "dispatch S_Public_Health e r s = (Status_Json 200 (SP_Health (Health (se_mon e))), s)"
| "dispatch S_None e r s = (Status_Only 404, s)"

text \<open>The patterns that \<open>FullPath\<close> returns; without a match it is empty.\<close>

fun full_path :: "server_route \<Rightarrow> string" where
  "full_path S_Login = ''/admin/login''"
| "full_path (S_Admin R_Me) = ''/admin/me''"
| "full_path (S_Admin R_Create_Admin) = ''/admin/admins''"
| "full_path (S_Admin R_Users) = ''/admin/users''"
| "full_path (S_Admin R_Create_User) = ''/admin/users''"
| "full_path (S_Admin (R_Update_User i)) = ''/admin/users/:id''"
| "full_path (S_Admin (R_Delete_User i)) = ''/admin/users/:id''"
| "full_path (S_Admin (R_Reset_Password i)) = ''/admin/users/:id/reset-password''"
| "full_path (S_Admin R_Departments) = ''/admin/departments''"
| "full_path (S_Admin R_Create_Department) = ''/admin/departments''"
| "full_path (S_Admin (R_Delete_Department i)) = ''/admin/departments/:id''"
| "full_path (S_Admin R_Roles) = ''/admin/roles''"
| "full_path (S_Admin R_Create_Role) = ''/admin/roles''"
| "full_path (S_Admin (R_Update_Role i)) = ''/admin/roles/:id''"
| "full_path (S_Admin (R_Delete_Role i)) = ''/admin/roles/:id''"
| "full_path (S_Admin R_Devices) = ''/admin/devices''"
| "full_path (S_Admin (R_Delete_Device i)) = ''/admin/devices/:id''"
| "full_path (S_Admin R_Channels) = ''/admin/channels''"
| "full_path (S_Admin R_Create_Channel) = ''/admin/channels''"
| "full_path (S_Admin (R_Delete_Channel i)) = ''/admin/channels/:id''"
| "full_path (S_Admin (R_Members i)) = ''/admin/channels/:id/members''"
| "full_path (S_Admin (R_Add_Member i)) = ''/admin/channels/:id/members''"
| "full_path (S_Admin (R_Remove_Member i u)) = ''/admin/channels/:id/members/:user_id''"
| "full_path (S_Admin R_Audit_Log) = ''/admin/audit''"
| "full_path S_Overview = ''/admin/monitoring/overview''"
| "full_path S_Health = ''/admin/system/health''"
| "full_path S_Metrics = ''/admin/system/metrics''"
| "full_path S_Cluster = ''/admin/cluster/status''"
| "full_path S_WS = ''/admin/ws''"
| "full_path S_Public_Channels = ''/public/channels''"
| "full_path S_Public_Users = ''/public/users''"
| "full_path S_Public_Health = ''/health''"
| "full_path S_None = []"

text \<open>The claims in the context after the handlers: \<open>JWTAuth\<close> stores them for the routes of the group.\<close>

fun in_group :: "server_route \<Rightarrow> bool" where
  "in_group S_Login = False"
| "in_group S_Public_Channels = False"
| "in_group S_Public_Users = False"
| "in_group S_Public_Health = False"
| "in_group S_None = False"
| "in_group _ = True"

definition RequestID :: "'f server_env \<Rightarrow> request \<Rightarrow> string" where
  "RequestID e r =
    (let rid = trim_space (rq_header r requestIDHeader) in if rid = [] then se_request_id e else rid)"

definition cors :: "(request \<Rightarrow> 'f server_state \<Rightarrow> 'f server_payload reply \<times> 'f server_state) \<Rightarrow>
    request \<Rightarrow> 'f server_state \<Rightarrow> 'f server_payload reply \<times> 'f server_state" where
  "cors h r s = (if rq_method r = ''OPTIONS'' then (Status_Only 204, s) else h r s)"

definition AccessLogAndMetrics ::
  "server_route \<Rightarrow> ('f :: linorder) server_env \<Rightarrow> string \<Rightarrow>
    (request \<Rightarrow> 'f server_state \<Rightarrow> 'f server_payload reply \<times> 'f server_state) \<Rightarrow>
    request \<Rightarrow> 'f server_state \<Rightarrow> 'f server_payload reply \<times> 'f server_state" where
  "AccessLogAndMetrics ro e rid h r s =
    (let (rep, s1) = h r s;
         route = (if full_path ro = [] then rq_path r else full_path ro);
         status = status_of rep;
         claims = (if in_group ro \<and> rq_method r \<noteq> ''OPTIONS''
                   then (case JWTAuth (se_admin e) r of Inl _ \<Rightarrow> None | Inr c \<Rightarrow> Some c) else None);
         s2 = s1\<lparr>sv_metrics := recordEndpointMetric (se_ops e) (ad_now (se_admin e)) (rq_method r) route status
                  (se_latency e) (sv_metrics s1)\<rparr>;
         entry = \<lparr>en_ts = ad_now (se_admin e), en_request_id = rid, en_method = rq_method r,
                  en_route = route, en_path = rq_path r, en_status = status, en_latency = se_latency e,
                  en_client_ip = ad_client_ip (se_admin e) r, en_user_agent = rq_header r ''User-Agent'',
                  en_user_id = (case claims of None \<Rightarrow> [] | Some c \<Rightarrow> ac_user_id c),
                  en_username = (case claims of None \<Rightarrow> [] | Some c \<Rightarrow> ac_username c),
                  en_role = (case claims of None \<Rightarrow> [] | Some c \<Rightarrow> ac_role c)\<rparr>
     in (rep, case se_json e entry of
                None \<Rightarrow> s2
              | Some line \<Rightarrow> s2\<lparr>sv_sink := writeAccessLogToFile (se_access e) line (sv_sink s2)\<rparr>))"

definition server ::
  "server_route \<Rightarrow> ('f :: linorder) server_env \<Rightarrow> request \<Rightarrow> 'f server_state \<Rightarrow>
    'f server_payload reply \<times> 'f server_state" where
  "server ro e r s = AccessLogAndMetrics ro e (RequestID e r) (cors (dispatch ro e)) r s"

text \<open>What \<open>main\<close> does before it serves.\<close>

definition admin_main_init :: "admin_env \<Rightarrow> platform_db \<Rightarrow> 'f server_state" where
  "admin_main_init e db =
    \<lparr>sv_db = EnsureSuperAdmin e ''admin'' ''admin'' (admin_migrate db), sv_metrics = Map.empty,
     sv_cache = resetOverviewCache, sv_hub = NewHub,
     sv_sink = \<lparr>as_date = [], as_file = None, as_files = Map.empty\<rparr>\<rparr>"

subsection \<open>What requests without an admin's token can do\<close>

lemma status_map_reply [simp]: "status_of (map_reply f r) = status_of r"
  by (cases r) simp_all

lemma refused_claims:
  assumes "\<nexists>c. admin_bearer e r c"
  shows "(\<exists>rep. JWTAuth e r = Inl rep \<and> status_of rep = 401) \<or>
    (\<exists>c. JWTAuth e r = Inr c \<and> RequireAdmin c = Some (Status_Json 403 (A_Error ''admin access required'')))"
proof (cases "JWTAuth e r")
  case (Inl rep)
  with JWTAuth_refuses show ?thesis by blast
next
  case (Inr c)
  with assms JWTAuth_iff [of e r c] have "\<not> adminRoles (ac_role c)"
    by (auto simp: admin_bearer_def adminRoles_def)
  with Inr show ?thesis by (simp add: RequireAdmin_def)
qed

lemma guarded_refused:
  assumes "\<nexists>c. admin_bearer e r c"
  shows "snd (guarded e r out s) = s \<and> status_of (fst (guarded e r out s)) \<in> {401, 403}"
  using refused_claims [OF assms] by (auto simp: guarded_def)

lemma ws_refused:
  assumes "\<nexists>c. admin_bearer e r c"
  shows "snd (admin_HandleWS e up r s) = s \<and> status_of (fst (admin_HandleWS e up r s)) \<in> {401, 403}"
  using refused_claims [OF assms] by (auto simp: admin_HandleWS_def)

lemma login_keeps: "snd (AdminLoginHandler e r db) = db"
  by (auto simp: AdminLoginHandler_def split: option.splits)

lemma dispatch_refused:
  assumes "\<nexists>c. admin_bearer (se_admin e) r c"
  shows "snd (dispatch ro e r s) = s \<and> (in_group ro \<longrightarrow> status_of (fst (dispatch ro e r s)) \<in> {401, 403})"
  using guarded_refused [OF assms] ws_refused [OF assms] serve_refused [OF assms]
    login_keeps [of "se_admin e" r "sv_db s"]
  by (cases ro) (auto simp: case_prod_beta)

lemma server_parts:
  "fst (server ro e r s) = fst (cors (dispatch ro e) r s)"
  "sv_db (snd (server ro e r s)) = sv_db (snd (cors (dispatch ro e) r s))"
  "sv_cache (snd (server ro e r s)) = sv_cache (snd (cors (dispatch ro e) r s))"
  "sv_hub (snd (server ro e r s)) = sv_hub (snd (cors (dispatch ro e) r s))"
  "sv_metrics (snd (server ro e r s)) =
    recordEndpointMetric (se_ops e) (ad_now (se_admin e)) (rq_method r)
      (if full_path ro = [] then rq_path r else full_path ro) (status_of (fst (server ro e r s)))
      (se_latency e) (sv_metrics (snd (cors (dispatch ro e) r s)))"
  by (auto simp: server_def AccessLogAndMetrics_def case_prod_beta Let_def split: option.splits)

text \<open>C10: A request to the admin service, on whatever route, that does not carry an admin's token changes
  neither the database nor the cached overview nor the hub; on a route of the group it is answered
  401 or 403, or 204 when it is a preflight request; but it is counted in the metrics.\<close>

theorem only_admins_change_state:
  assumes "\<nexists>c. admin_bearer (se_admin e) r c"
  shows "sv_db (snd (server ro e r s)) = sv_db s \<and> sv_cache (snd (server ro e r s)) = sv_cache s \<and>
    sv_hub (snd (server ro e r s)) = sv_hub s \<and>
    (in_group ro \<longrightarrow> status_of (fst (server ro e r s)) \<in> {204, 401, 403}) \<and>
    (\<exists>c. sv_metrics (snd (server ro e r s))
       (rq_method r @ '' '' @ (if full_path ro = [] then rq_path r else full_path ro)) = Some c)"
proof -
  have "snd (cors (dispatch ro e) r s) = s \<and>
    (in_group ro \<longrightarrow> status_of (fst (cors (dispatch ro e) r s)) \<in> {204, 401, 403})"
    using dispatch_refused [OF assms, of ro s] by (auto simp: cors_def)
  moreover have "\<exists>c. sv_metrics (snd (server ro e r s))
       (rq_method r @ '' '' @ (if full_path ro = [] then rq_path r else full_path ro)) = Some c"
    unfolding server_parts(5) by (rule record_hit)
  ultimately show ?thesis by (simp add: server_parts(1-4))
qed

text \<open>Without a token, requests to n different paths that match no route leave n counters.\<close>

definition probe :: "string \<Rightarrow> request" where
  "probe p = \<lparr>rq_method = ''GET'', rq_path = p, rq_header = (\<lambda>_. []), rq_query = (\<lambda>_. []), rq_remote = [],
     rq_body = []\<rparr>"

lemma record_dom:
  "dom (recordEndpointMetric ops now m ro st l f) = insert (m @ '' '' @ ro) (dom f)"
  by (auto simp: recordEndpointMetric_def Let_def)

lemma unknown_paths_grow_metrics:
  "dom (sv_metrics (foldl (\<lambda>s p. snd (server S_None e (probe p) s)) s ps)) =
    dom (sv_metrics s) \<union> (\<lambda>p. ''GET '' @ p) ` set ps"
proof (induction ps arbitrary: s)
  case (Cons p ps)
  have "dom (sv_metrics (snd (server S_None e (probe p) s))) = insert (''GET '' @ p) (dom (sv_metrics s))"
    unfolding server_parts(5) record_dom by (simp add: probe_def cors_def)
  with Cons show ?case by auto
qed simp

text \<open>The query parameter \<open>token\<close> of the WebSocket route is never read: the middleware has already
  refused a request without the header.\<close>

lemma ws_query_token_unused:
  assumes "rq_header r ''Authorization'' = []"
  shows "admin_HandleWS e up r s = (Status_Json 401 (A_Error ''missing authorization''), s)"
  using assms by (simp add: admin_HandleWS_def JWTAuth_def)

definition ex_server_env :: "int server_env" where
  "ex_server_env = \<lparr>se_admin = ex_admin_env 5, se_mon = ex_mon 5, se_ops = ex_ops, se_upgrade = (\<lambda>_. None),
     se_latency = 3, se_access = ex_day ''d1'', se_request_id = ''r1'', se_json = (\<lambda>_. None)\<rparr>"

theorem only_admins_change_state_witness:
  "\<exists>c. sv_metrics (snd (server (S_Admin R_Users) ex_server_env (probe ''/admin/users'')
      (admin_main_init (ex_admin_env 0) empty_db))) ''GET /admin/users'' = Some c"
proof -
  have "\<nexists>c. admin_bearer (se_admin ex_server_env) (probe ''/admin/users'') c"
    by (simp add: admin_bearer_def probe_def)
  from only_admins_change_state [OF this, of "S_Admin R_Users" "admin_main_init (ex_admin_env 0) empty_db"]
  show ?thesis by (simp add: probe_def)
qed

end
