(* ===== verification/Platform.thy ===== *)
theory Platform
  imports AdminProps MessagingChannels Presence AuthProps
begin

section \<open>The services together on the shared database\<close>

text \<open>
  Every step of the four services that touches \<open>platform.db\<close>: the start of a service, a request to
  the admin API, registration, login and default user of the auth service, heartbeats and cleanup of
  the presence service, and the two writing operations of the messaging service (opening a direct
  channel, storing a message), of which its handlers are sequences.  A request to the admin or auth
  API is one step.  New identifiers contain no colon, as the UUID library's do not.
\<close>

inductive platform_step :: "platform_db \<Rightarrow> platform_db \<Rightarrow> bool" where
  ps_start: "platform_step db (start_service sv db)"
| ps_super_admin: "platform_step db (EnsureSuperAdmin ae n p db)"
| ps_admin: "platform_step db (snd (admin_serve ro ae r db))"
| ps_admin_login: "platform_step db (snd (AdminLoginHandler ae r db))"
| ps_register: "platform_step db (snd (RegisterHandler e w r db))"
| ps_login: "platform_step db (snd (LoginHandler e w r db))"
| ps_default_user: "platform_step db (snd (ensureDefaultUser e f0 n p g db))"
| ps_presence: "platform_step db (presence_step ev db)"
| ps_dm: "dm_transaction f db (dm_id a b) a b = Some db' \<Longrightarrow> colon_free a \<Longrightarrow> colon_free b \<Longrightarrow>
    platform_step db db'"
| ps_save: "SaveMessage f now uid db q u ch = (x, db') \<Longrightarrow> platform_step db db'"

inductive platform_reach :: "platform_db \<Rightarrow> bool" where
  pr_empty: "platform_reach empty_db"
| pr_step: "platform_reach db \<Longrightarrow> platform_step db db' \<Longrightarrow> platform_reach db'"

subsection \<open>The messaging handlers as such steps\<close>

definition ids_plain :: "platform_db \<Rightarrow> bool" where
  "ids_plain db \<longleftrightarrow> (\<forall>us. t_users db = Some us \<longrightarrow> (\<forall>u\<in>set us. colon_free (usr_id u)))"

abbreviation platform_steps :: "platform_db \<Rightarrow> platform_db \<Rightarrow> bool" where
  "platform_steps \<equiv> platform_step\<^sup>*\<^sup>*"

lemma authenticated_plain: "ids_plain db \<Longrightarrow> authenticate e db r = Inr u \<Longrightarrow> colon_free u"
  by (auto simp: authenticate_def findUserIDByUsername_def lift_db_def ids_plain_def Let_def
      split: option.splits sum.splits if_splits dest!: find_row)

lemma existing_plain: "ids_plain db \<Longrightarrow> userExists f db u = Inr True \<Longrightarrow> colon_free u"
  by (auto simp: userExists_def lift_db_def query_exists_Inr list_ex_iff ids_plain_def split: sum.splits)

lemma findOrCreate_steps:
  assumes "findOrCreateDMChannel f db a b = (x, db')" and "colon_free a" and "colon_free b"
  shows "platform_steps db db'"
proof (cases x)
  case (Inl e)
  with assms findOrCreate_error have "db' = db" by blast
  then show ?thesis by simp
next
  case (Inr i)
  with findOrCreate_success [of f db a b i db'] assms have
    "db' = db \<or> dm_transaction f db (dm_id a b) a b = Some db'" by blast
  with assms ps_dm show ?thesis by blast
qed

lemma resolve_steps:
  assumes "resolveRequestedChannel f db s q = (x, db')" and "ids_plain db" and "colon_free s"
  shows "platform_steps db db'"
proof (cases "userExists (at f C_UserExists) db q = Inr True")
  case True
  then have q: "colon_free q" using existing_plain assms(2) by blast
  from resolve_db [OF assms(1)] show ?thesis using ps_dm q assms(3) by blast
next
  case False
  then have "db' = db"
    using assms(1) by (auto simp: resolveRequestedChannel_def split: if_splits sum.splits)
  then show ?thesis by simp
qed

lemma send_platform_steps:
  assumes "ids_plain (rt_db s)"
  shows "platform_steps (rt_db s) (rt_db (snd (sendHandler e w r s)))"
proof -
  have save: "platform_steps db db2"
    if "resolveRequestedChannel f (rt_db s) u q = (x, db)" "authenticate e (rt_db s) r = Inr u"
      "SaveMessage f' n i db q' u' ch = (y, db2)" for f f' n i q' u' ch x y db db2 u q
    using that ps_save by blast
  have res: "platform_steps (rt_db s) db"
    if "resolveRequestedChannel f (rt_db s) u q = (x, db)" "authenticate e (rt_db s) r = Inr u" for f u q x db
    using resolve_steps [OF that(1) assms authenticated_plain [OF assms that(2)]] .
  have bc: "rt_db s3 = rt_db s2" if "Broadcast f m s2 = (b, s3)" for f m s2 b s3
    using Broadcast_db [of f m s2] that by simp
  show ?thesis
    by (auto simp: sendHandler_def set_db_def Let_def bc split: option.splits sum.splits prod.splits
        dest: bc intro: res rtranclp_trans [OF res save])
qed

lemma other_platform_steps:
  assumes "ids_plain (rt_db s)"
  shows "platform_steps (rt_db s) (rt_db (snd (HistoryHandler e w r s)))"
    and "platform_steps (rt_db s) (rt_db (snd (CreateDMHandler e w r s)))"
    and "rt_db (snd (ChannelsHandler e w r s)) = rt_db s"
    and "rt_db (snd (ChannelMembersHandler e w r s)) = rt_db s"
proof -
  have res: "platform_steps (rt_db s) db"
    if "resolveRequestedChannel f (rt_db s) u q = (x, db)" "authenticate e (rt_db s) r = Inr u" for f u q x db
    using resolve_steps [OF that(1) assms authenticated_plain [OF assms that(2)]] .
  then show "platform_steps (rt_db s) (rt_db (snd (HistoryHandler e w r s)))"
    by (auto simp: HistoryHandler_def set_db_def Let_def split: option.splits sum.splits prod.splits)
  have "platform_steps (rt_db s) db"
    if "findOrCreateDMChannel f (rt_db s) u q = (x, db)" "authenticate e (rt_db s) r = Inr u"
      "userExists f' (rt_db s) q = Inr True" for f f' u q x db
    using findOrCreate_steps [OF that(1) authenticated_plain [OF assms that(2)] existing_plain [OF assms that(3)]] .
  then show "platform_steps (rt_db s) (rt_db (snd (CreateDMHandler e w r s)))"
    by (auto simp: CreateDMHandler_def set_db_def Let_def split: option.splits sum.splits prod.splits)
  show "rt_db (snd (ChannelsHandler e w r s)) = rt_db s"
    "rt_db (snd (ChannelMembersHandler e w r s)) = rt_db s"
    by (auto simp: ChannelsHandler_def ChannelMembersHandler_def Let_def split: option.splits sum.splits)
qed

subsection \<open>The constraints of all tables\<close>

definition together :: "platform_db \<Rightarrow> bool" where
  "together db \<longleftrightarrow> (t_channels db = None \<longleftrightarrow> t_members db = None)"

lemma insert_not_None: "exec_insert f ins r t = Some t' \<Longrightarrow> t \<noteq> None \<and> t' \<noteq> None"
  by (auto simp: exec_insert_def split: if_splits option.splits) metis

lemma delete_not_None: "exec_delete f P t = Some (t', n) \<Longrightarrow> t \<noteq> None \<and> t' \<noteq> None"
  by (auto simp: exec_delete_def split: if_splits option.splits)

text \<open>A request to the admin API does not create or drop a table, nor changes a declaration.\<close>

definition same_shape :: "platform_db \<Rightarrow> platform_db \<Rightarrow> bool" where
  "same_shape db db' \<longleftrightarrow> chan_ddl db' = chan_ddl db \<and>
    (t_channels db' = None) = (t_channels db = None) \<and> (t_members db' = None) = (t_members db = None)"

lemma same_shape_refl [simp]: "same_shape db db"
  by (simp add: same_shape_def)

lemma same_shape_log [simp]: "same_shape db (audit_Log e k c a g d r db') = same_shape db db'"
  by (simp add: same_shape_def audit_Log_def split: option.splits)

lemma same_shape_put [simp]:
  "same_shape db (db\<lparr>t_users := t\<rparr>)" "same_shape db (db\<lparr>t_admin_users := ta\<rparr>)"
  "same_shape db (db\<lparr>t_roles := tr\<rparr>)" "same_shape db (db\<lparr>t_departments := td\<rparr>)"
  "same_shape db (db\<lparr>t_devices := tv\<rparr>)" "same_shape db (db\<lparr>t_messages := tg\<rparr>)"
  "same_shape db (db\<lparr>t_presence := tp\<rparr>)"
  "same_shape db (db\<lparr>t_members := tm\<rparr>) \<longleftrightarrow> (tm = None) = (t_members db = None)"
  "same_shape db (db\<lparr>t_channels := tc\<rparr>) \<longleftrightarrow> (tc = None) = (t_channels db = None)"
  "same_shape db (db\<lparr>t_channels := tc, t_members := tm\<rparr>) \<longleftrightarrow>
    (tc = None) = (t_channels db = None) \<and> (tm = None) = (t_members db = None)"
  by (auto simp: same_shape_def)

lemma shape_deletes:
  "same_shape db (snd (users_Delete i e c r db))" "same_shape db (snd (roles_Delete i e c r db))"
  "same_shape db (snd (departments_Delete i e c r db))" "same_shape db (snd (devices_Delete i e c r db))"
  "same_shape db (snd (channels_Delete i e c r db))" "same_shape db (snd (channels_RemoveMember i u e c r db))"
  unfolding delete_defs delete_reply_def
  by (auto split: option.splits dest: delete_not_None)

lemma shape_writes:
  "same_shape db (snd (CreateAdminHandler e c r db))" "same_shape db (snd (users_Create e c r db))"
  "same_shape db (snd (departments_Create e c r db))" "same_shape db (snd (roles_Create e c r db))"
  "same_shape db (snd (channels_Create e c r db))" "same_shape db (snd (channels_AddMember i e c r db))"
  "same_shape db (snd (users_Update i e c r db))" "same_shape db (snd (users_ResetPassword i e c r db))"
  unfolding write_defs CreateAdminUser_def
  by (auto simp: Let_def split: option.splits dest: insert_not_None)

lemma shape_update_roles: "same_shape db d \<Longrightarrow> same_shape db (update_roles f i g d)"
  by (simp add: update_roles_def same_shape_def split: option.splits)

lemma handler_shape: "same_shape db (snd (handler_of ro e c r db))"
proof (cases ro)
  case (R_Update_Role i)
  then show ?thesis by (auto simp: roles_Update_def Let_def shape_update_roles split: option.splits)
qed (simp_all add: shape_deletes shape_writes read_only)

lemma serve_shape: "same_shape db (snd (admin_serve ro e r db))"
  using handler_shape [of db ro e _ r]
  by (auto simp: admin_serve_def protected_def route_handler_def Audit_def case_prod_beta Let_def
      split: sum.splits option.splits)

lemma table_ok_create: "P [] \<Longrightarrow> table_ok P (create t) = table_ok P t"
  by (cases t) (simp_all add: create_def)

lemma create_ok [simp]:
  "unique f (create t) = unique f t" "table_ok (list_all Q) (create t) = table_ok (list_all Q) t"
  "audit_ok n (create ta) = audit_ok n ta"
  by (simp_all add: table_ok_create unique_def audit_ok_def)

lemma create_channels_inv:
  assumes "platform_inv db" and "together db"
  shows "platform_inv (create_channels d db)"
proof (cases "t_channels db")
  case None
  then have "t_members db = None" using assms(2) by (simp add: together_def)
  with None assms(1) show ?thesis
    by (simp add: create_channels_def platform_inv_def channels_ok_def members_ok_def create_def)
next
  case (Some cs)
  have "members_ok (chan_ddl db) (create (t_members db))"
    using platform_inv_parts(6) [OF assms(1)] by (simp add: members_ok_def)
  with Some assms(1) show ?thesis by (auto simp: create_channels_def intro!: inv_intros)
qed

lemma platform_inv_start:
  assumes "platform_inv db" and "together db"
  shows "platform_inv (start_service sv db)"
proof (cases sv)
  case Messaging
  have "platform_inv (create_channels DDL_Messaging db)" using create_channels_inv assms .
  then show ?thesis
    using platform_inv_parts(8) by (simp add: Messaging messaging_initDB_def Let_def inv_intros)
next
  case Auth
  then show ?thesis
    using assms(1) by (simp add: auth_initDB_def platform_inv_def users_ok_def roles_ok_def)
next
  case Presence
  then show ?thesis using assms(1) by (simp add: presence_initDB_def platform_inv_def)
next
  case Admin
  let ?db = "db\<lparr>t_admin_users := create (t_admin_users db), t_roles := create (t_roles db),
    t_departments := create (t_departments db)\<rparr>"
  have "platform_inv ?db" "together ?db"
    using assms by (simp_all add: platform_inv_def together_def admins_ok_def roles_ok_def departments_ok_def)
  then have "platform_inv (create_channels DDL_Admin ?db)" by (rule create_channels_inv)
  then show ?thesis
    by (simp add: Admin admin_migrate_def Let_def platform_inv_def users_ok_def)
qed

lemma EnsureSuperAdmin_cases:
  "EnsureSuperAdmin e n p db = db \<or> EnsureSuperAdmin e n p db = snd (CreateAdminUser e db n p ''super_admin'')"
  by (auto simp: EnsureSuperAdmin_def split: sum.splits list.splits)

lemma CreateAdminUser_keeps:
  "t_channels (snd (CreateAdminUser e db n p g)) = t_channels db"
  "t_members (snd (CreateAdminUser e db n p g)) = t_members db"
  "chan_ddl (snd (CreateAdminUser e db n p g)) = chan_ddl db"
  by (auto simp: CreateAdminUser_def Let_def split: option.splits)

lemma auth_writes:
  "(\<exists>f u t. exec_insert f ins_user u (t_users db) = Some t \<and> snd (RegisterHandler e w r db) = db\<lparr>t_users := t\<rparr>) \<or>
    snd (RegisterHandler e w r db) = db"
  "(\<exists>f u t. exec_insert f ins_user u (t_users db) = Some t \<and>
     snd (ensureDefaultUser e f0 n p g db) = db\<lparr>t_users := t\<rparr>) \<or> snd (ensureDefaultUser e f0 n p g db) = db"
  "snd (LoginHandler e w r db) = db"
  by (auto simp: RegisterHandler_def ensureDefaultUser_def LoginHandler_def Let_def
      split: option.splits sum.splits)

lemma presence_writes:
  "presence_step ev db = db \<or>
    (\<exists>t. presence_step ev db = db\<lparr>t_presence := t\<rparr> \<and>
      (unique pr_user_id (t_presence db) \<longrightarrow> unique pr_user_id t))"
proof (cases ev)
  case (PE_Tick now f)
  have "unique pr_user_id t"
    if "exec_update f (\<lambda>_. True) P (\<lambda>p. p\<lparr>pr_status := StatusOffline\<rparr>) (t_presence db) = Some t"
      "unique pr_user_id (t_presence db)" for t P
    using unique_update [OF that] by simp
  then show ?thesis by (auto simp: PE_Tick cleanup_tick_def Let_def split: option.splits)
qed (auto simp: HeartbeatHandler_def StatusHandler_def Let_def distinct_upsert
      split: option.splits sum.splits db_err.splits)

lemma dm_writes:
  assumes "dm_transaction f db i a b = Some db'"
  shows "\<exists>cs ms ms'. exec_insert (f [Stmt 2]) (ins_channel (chan_ddl db)) (dm_channel i) (t_channels db) = Some cs \<and>
    exec_insert (f [Stmt 3]) (ins_member (chan_ddl db)) (dm_member (chan_ddl db) i a) (t_members db) = Some ms \<and>
    exec_insert (f [Stmt 4]) (ins_member (chan_ddl db)) (dm_member (chan_ddl db) i b) ms = Some ms' \<and>
    db' = db\<lparr>t_channels := cs, t_members := ms'\<rparr>"
  using assms by (auto simp: dm_transaction_def Let_def split: if_splits option.splits)

lemma message_writes:
  assumes "SaveMessage f now uid db q u ch = (x, db')"
  shows "db' = db \<or> (\<exists>m t. exec_insert (f []) ins_message m (t_messages db) = Some t \<and>
    db' = db\<lparr>t_messages := t\<rparr>)"
  using assms by (auto simp: SaveMessage_def Let_def split: option.splits)

lemma insert_message_unique:
  assumes "exec_insert f ins_message m t = Some t'" and "unique msg_id t"
  shows "unique msg_id t'"
  using messages_tbl.insertD [OF assms(1)] assms(2) by auto

lemma dm_inv:
  assumes "dm_transaction f db i a b = Some db'" "platform_inv db"
  shows "platform_inv db' \<and> together db'"
proof -
  obtain cs ms ms' where
    c: "exec_insert (f [Stmt 2]) (ins_channel (chan_ddl db)) (dm_channel i) (t_channels db) = Some cs"
    and m: "exec_insert (f [Stmt 3]) (ins_member (chan_ddl db)) (dm_member (chan_ddl db) i a) (t_members db) = Some ms"
    and m': "exec_insert (f [Stmt 4]) (ins_member (chan_ddl db)) (dm_member (chan_ddl db) i b) ms = Some ms'"
    and db': "db' = db\<lparr>t_channels := cs, t_members := ms'\<rparr>"
    using dm_writes [OF assms(1)] by blast
  have "channels_ok (chan_ddl db) cs" "members_ok (chan_ddl db) ms'"
    using insert_ok(5) [OF c] insert_ok(6) [OF m'] insert_ok(6) [OF m] platform_inv_parts [OF assms(2)] by blast+
  then have "platform_inv db'" using assms(2) unfolding db' by (auto intro!: inv_intros)
  moreover have "together db'" using insert_not_None [OF c] insert_not_None [OF m'] by (auto simp: db' together_def)
  ultimately show ?thesis by simp
qed

lemma together_start: "together db \<Longrightarrow> together (start_service sv db)"
  by (cases sv) (auto simp: init_defs together_def create_def split: option.splits)

lemma admin_login_db: "snd (AdminLoginHandler ae r db) = db"
  by (auto simp: AdminLoginHandler_def split: option.splits)

lemma step_inv:
  assumes "platform_step db db'" and "platform_inv db" and "together db"
  shows "platform_inv db' \<and> together db'"
  using assms(1)
proof (cases rule: platform_step.cases)
  case (ps_start sv)
  then show ?thesis using platform_inv_start [OF assms(2,3)] together_start [OF assms(3)] by simp
next
  case (ps_super_admin ae n p)
  then show ?thesis
    using EnsureSuperAdmin_cases [of ae n p db] assms(2,3) platform_inv_creates(6) [OF assms(2), of ae n p]
    by (auto simp: together_def CreateAdminUser_keeps)
next
  case (ps_admin ro ae r)
  then show ?thesis
    using serve_inv [OF assms(2)] serve_shape [of db ro ae r] assms(3) by (simp add: same_shape_def together_def)
next
  case (ps_admin_login ae r)
  with assms(2,3) show ?thesis by (simp add: admin_login_db)
next
  case (ps_register e w r)
  then show ?thesis
    using auth_writes(1) [of db e w r] assms(2,3) insert_ok(1) platform_inv_parts(1) [OF assms(2)]
    by (auto simp: together_def intro!: inv_intros)
next
  case (ps_login e w r)
  with assms show ?thesis by (simp add: auth_writes)
next
  case (ps_default_user e f0 n p g)
  then show ?thesis
    using auth_writes(2) [of db e f0 n p g] assms(2,3) insert_ok(1) platform_inv_parts(1) [OF assms(2)]
    by (auto simp: together_def intro!: inv_intros)
next
  case (ps_presence ev)
  then show ?thesis
    using presence_writes [of ev db] assms(2,3) platform_inv_parts(9) [OF assms(2)]
    by (auto simp: together_def intro!: inv_intros)
next
  case (ps_dm f a b)
  then show ?thesis using dm_inv assms(2) by blast
next
  case (ps_save f now uid q u ch x)
  then show ?thesis
    using message_writes [OF ps_save] assms(2,3) insert_message_unique platform_inv_parts(8) [OF assms(2)]
    by (auto simp: together_def intro!: inv_intros)
qed

interpretation platform_runs: step_invariant platform_step platform_reach
  by unfold_locales (rule pr_step)

interpretation platform_ok: step_invariant platform_step "\<lambda>db. platform_inv db \<and> together db"
  by unfold_locales (use step_inv in blast)

lemma reach_inv: "platform_reach db \<Longrightarrow> platform_inv db \<and> together db"
proof (induction rule: platform_reach.induct)
  case pr_empty
  show ?case by (simp add: platform_inv_def inv_simps together_def empty_db_def)
next
  case (pr_step db db')
  with step_inv show ?case by blast
qed

end
