(* ===== verification/PlatformProps.thy ===== *)
theory PlatformProps
  imports Platform
begin

section \<open>Properties that span the services\<close>

text \<open>
  The constraints of all tables hold in every reachable state; the two declarations of the channel
  tables exclude each other, so an installation has either only direct channels or none; deleting a
  direct channel is final; a password that an admin resets opens the auth service; a token of the
  auth service opens the messaging service.
\<close>

subsection \<open>Which channels there can be\<close>

definition dm_shape :: "channel_row \<Rightarrow> bool" where
  "dm_shape c \<longleftrightarrow> ch_type c = ''dm'' \<and>
    (\<exists>a b. a \<noteq> b \<and> colon_free a \<and> colon_free b \<and> ch_id c = dm_id a b)"

definition dm_member_shape :: "member_row \<Rightarrow> bool" where
  "dm_member_shape m \<longleftrightarrow>
    (\<exists>a b. a \<noteq> b \<and> colon_free a \<and> colon_free b \<and> mem_channel_id m = dm_id a b \<and> mem_user_id m \<in> {a, b})"

definition kind_inv :: "platform_db \<Rightarrow> bool" where
  "kind_inv db \<longleftrightarrow>
    (case chan_ddl db of
       DDL_Messaging \<Rightarrow>
         (\<forall>c\<in>set (channels_of db). dm_shape c) \<and> (\<forall>m\<in>set (members_of db). dm_member_shape m)
     | DDL_Admin \<Rightarrow> (\<forall>c\<in>set (channels_of db). ch_created_by c \<noteq> None))"

lemma kind_inv_same:
  assumes "t_channels db' = t_channels db" and "t_members db' = t_members db" and "chan_ddl db' = chan_ddl db"
  shows "kind_inv db' = kind_inv db"
  using assms by (cases "chan_ddl db") (simp_all add: kind_inv_def channels_of_def members_of_def)

lemma kind_inv_log [simp]: "kind_inv (audit_Log e k c a g d r db) = kind_inv db"
  by (rule kind_inv_same) (simp_all add: audit_Log_def split: option.splits)

lemma kind_inv_update_roles [simp]: "kind_inv (update_roles f i g db) = kind_inv db"
  by (rule kind_inv_same) (simp_all add: update_roles_def split: option.splits)

lemma kind_inv_put [simp]:
  "kind_inv (db\<lparr>t_users := t\<rparr>) = kind_inv db" "kind_inv (db\<lparr>t_admin_users := ta\<rparr>) = kind_inv db"
  "kind_inv (db\<lparr>t_roles := tr\<rparr>) = kind_inv db" "kind_inv (db\<lparr>t_departments := td\<rparr>) = kind_inv db"
  "kind_inv (db\<lparr>t_devices := tv\<rparr>) = kind_inv db" "kind_inv (db\<lparr>t_presence := tp\<rparr>) = kind_inv db"
  "kind_inv (db\<lparr>t_messages := tg\<rparr>) = kind_inv db"
  by (rule kind_inv_same; simp)+

lemma kind_inv_smaller:
  assumes "kind_inv db" and "exec_delete f P (t_channels db) = Some (t, n)"
  shows "kind_inv (db\<lparr>t_channels := t\<rparr>)"
  using assms by (cases "t_channels db"; cases "chan_ddl db")
    (auto simp: exec_delete_def kind_inv_def channels_of_def members_of_def split: if_splits)

lemma kind_inv_fewer:
  assumes "kind_inv db" and "exec_delete f P (t_members db) = Some (t, n)"
  shows "kind_inv (db\<lparr>t_members := t\<rparr>)"
  using assms by (cases "t_members db"; cases "chan_ddl db")
    (auto simp: exec_delete_def kind_inv_def channels_of_def members_of_def split: if_splits)

lemma kind_deletes:
  assumes "kind_inv db"
  shows "kind_inv (snd (users_Delete i e c r db))" "kind_inv (snd (roles_Delete i e c r db))"
    "kind_inv (snd (departments_Delete i e c r db))" "kind_inv (snd (devices_Delete i e c r db))"
    "kind_inv (snd (channels_Delete i e c r db))" "kind_inv (snd (channels_RemoveMember i u e c r db))"
  using assms unfolding delete_defs delete_reply_def
  by (auto split: option.splits dest: kind_inv_smaller kind_inv_fewer)

lemma kind_channel_create:
  assumes "kind_inv db"
  shows "kind_inv (snd (channels_Create e c r db))"
proof (cases "no_admin_columns db")
  case True
  then have "snd (channels_Create e c r db) = db"
    by (auto simp: channels_Create_def exec_insert_def Let_def split: option.splits)
  with assms show ?thesis by simp
next
  case False
  then have d: "chan_ddl db = DDL_Admin" by (cases "chan_ddl db") (auto simp: no_admin_columns_def)
  have "kind_inv (db\<lparr>t_channels := cs, t_members := ms\<rparr>)"
    if "exec_insert f (ins_channel DDL_Admin) ch (t_channels db) = Some cs" "ch_created_by ch \<noteq> None" for f ch cs ms
    using channels_tbl.insertD [OF that(1)] that(2) assms d by (auto simp: kind_inv_def channels_of_def)
  with assms d show ?thesis
    by (auto simp: channels_Create_def Let_def split: option.splits)
qed

lemma kind_add_member:
  assumes "kind_inv db"
  shows "kind_inv (snd (channels_AddMember i e c r db))"
proof (cases "no_admin_columns db")
  case True
  then have "snd (channels_AddMember i e c r db) = db"
    by (auto simp: channels_AddMember_def exec_insert_def Let_def split: option.splits)
  with assms show ?thesis by simp
next
  case False
  then have "chan_ddl db = DDL_Admin" by (cases "chan_ddl db") (auto simp: no_admin_columns_def)
  then have "kind_inv (db\<lparr>t_members := t\<rparr>)" for t
    using assms by (simp add: kind_inv_def channels_of_def)
  with assms show ?thesis by (auto simp: channels_AddMember_def Let_def split: option.splits)
qed

lemma kind_writes:
  assumes "kind_inv db"
  shows "kind_inv (snd (CreateAdminHandler e c r db))" "kind_inv (snd (users_Create e c r db))"
    "kind_inv (snd (departments_Create e c r db))" "kind_inv (snd (roles_Create e c r db))"
    "kind_inv (snd (users_Update i e c r db))" "kind_inv (snd (users_ResetPassword i e c r db))"
    "kind_inv (snd (roles_Update i e c r db))" "kind_inv (snd (CreateAdminUser e db n p g))"
  using assms unfolding write_defs CreateAdminUser_def
  by (auto simp: Let_def split: option.splits)

lemma kind_serve: "kind_inv db \<Longrightarrow> kind_inv (snd (admin_serve ro e r db))"
proof -
  assume k: "kind_inv db"
  have "kind_inv (snd (handler_of ro e c r db))" for c
    using k by (cases ro) (simp_all add: kind_deletes kind_writes kind_channel_create kind_add_member read_only)
  with k show ?thesis
    by (auto simp: admin_serve_def protected_def route_handler_def Audit_def case_prod_beta Let_def
        split: sum.splits option.splits)
qed

lemma kind_dm:
  assumes "dm_transaction f db (dm_id a b) a b = Some db'" and "colon_free a" and "colon_free b" and "kind_inv db"
  shows "kind_inv db'"
proof -
  obtain cs ms where r: "t_channels db = Some cs" "t_members db = Some ms" "a \<noteq> b" "chan_ddl db = DDL_Messaging"
    and db': "db' = db\<lparr>t_channels := Some (cs @ [dm_channel (dm_id a b)]),
             t_members := Some (ms @ [dm_member DDL_Messaging (dm_id a b) a, dm_member DDL_Messaging (dm_id a b) b])\<rparr>"
    using dm_transaction_rows [OF assms(1)] by blast
  have "dm_shape (dm_channel (dm_id a b))" "dm_member_shape (dm_member DDL_Messaging (dm_id a b) a)"
    "dm_member_shape (dm_member DDL_Messaging (dm_id a b) b)"
    using assms(2,3) r(3) by (auto simp: dm_shape_def dm_member_shape_def dm_channel_def dm_member_def)
  with assms(4) r show ?thesis by (auto simp: kind_inv_def db' channels_of_def members_of_def)
qed

lemma kind_start:
  assumes "kind_inv db" and "together db"
  shows "kind_inv (start_service sv db)"
proof (cases "t_channels db")
  case None
  with assms(2) have "t_members db = None" by (simp add: together_def)
  then have "channels_of (start_service sv db) = []" "members_of (start_service sv db) = []"
    using start_channels [of sv db] None by (simp_all add: channels_of_def members_of_def)
  then show ?thesis by (simp add: kind_inv_def split: ddl.splits)
next
  case (Some cs)
  then have "chan_ddl (start_service sv db) = chan_ddl db" using start_keeps_ddl [of db sv] by simp
  with assms(1) show ?thesis by (cases "chan_ddl db") (simp_all add: kind_inv_def start_channels)
qed

lemma step_kind:
  assumes "platform_step db db'" and "kind_inv db" and "together db"
  shows "kind_inv db'"
  using assms(1)
proof (cases rule: platform_step.cases)
  case (ps_super_admin ae n p)
  then show ?thesis using EnsureSuperAdmin_cases [of ae n p db] assms(2) kind_writes(8) by auto
next
  case (ps_admin_login ae r)
  then have "db' = db" by (auto simp: AdminLoginHandler_def split: option.splits)
  with assms show ?thesis by simp
next
  case (ps_register e w r)
  with auth_writes(1) [of db e w r] assms(2) show ?thesis by auto
next
  case (ps_default_user e f0 n p g)
  with auth_writes(2) [of db e f0 n p g] assms(2) show ?thesis by auto
next
  case (ps_presence ev)
  with presence_writes [of ev db] assms(2) show ?thesis by auto
next
  case (ps_save f now uid q u ch x)
  with message_writes [OF ps_save] assms(2) show ?thesis by auto
next
  case (ps_dm f a b)
  from kind_dm [OF ps_dm assms(2)] show ?thesis .
qed (use assms kind_start kind_serve in \<open>simp_all add: auth_writes\<close>)

lemma reach_kind: "platform_reach db \<Longrightarrow> kind_inv db"
proof (induction rule: platform_reach.induct)
  case pr_empty
  show ?case by (simp add: kind_inv_def empty_db_def channels_of_def members_of_def)
next
  case (pr_step db db')
  with step_kind reach_inv show ?case by blast
qed

subsection \<open>The constraints hold in every reachable state\<close>


subsection \<open>The two declarations exclude each other\<close>

lemma step_ddl:
  assumes "platform_step db db'" and "t_channels db \<noteq> None"
  shows "t_channels db' \<noteq> None \<and> chan_ddl db' = chan_ddl db"
  using assms(1)
proof (cases rule: platform_step.cases)
  case (ps_start sv)
  with start_keeps_ddl [OF assms(2), of sv] assms(2) show ?thesis by simp
next
  case (ps_super_admin ae n p)
  then show ?thesis using EnsureSuperAdmin_cases [of ae n p db] assms(2) by (auto simp: CreateAdminUser_keeps)
next
  case (ps_admin ro ae r)
  with serve_shape [of db ro ae r] assms(2) show ?thesis by (simp add: same_shape_def)
next
  case (ps_admin_login ae r)
  then have "db' = db" by (auto simp: AdminLoginHandler_def split: option.splits)
  with assms show ?thesis by simp
next
  case (ps_register e w r)
  with auth_writes(1) [of db e w r] assms(2) show ?thesis by auto
next
  case (ps_login e w r)
  with assms show ?thesis by (simp add: auth_writes)
next
  case (ps_default_user e f0 n p g)
  with auth_writes(2) [of db e f0 n p g] assms(2) show ?thesis by auto
next
  case (ps_presence ev)
  with presence_writes [of ev db] assms(2) show ?thesis by auto
next
  case (ps_dm f a b)
  from dm_transaction_rows [OF ps_dm(1)] show ?thesis by auto
next
  case (ps_save f now uid q u ch x)
  with message_writes [OF ps_save] assms(2) show ?thesis by auto
qed

interpretation declared:
  step_invariant platform_step "\<lambda>db. t_channels db \<noteq> None \<and> chan_ddl db = d" for d
  by unfold_locales (use step_ddl in blast)

lemma steps_ddl:
  "platform_steps db db' \<Longrightarrow> t_channels db \<noteq> None \<Longrightarrow> t_channels db' \<noteq> None \<and> chan_ddl db' = chan_ddl db"
  using declared.steps [of db db'] by blast

lemma dm_member_of_pair:
  assumes "\<forall>m\<in>set (members_of db). dm_member_shape m" and "member_of db (dm_id a b) u"
    and "colon_free a" and "colon_free b"
  shows "u \<in> {a, b}"
proof -
  obtain m where m: "m \<in> set (members_of db)" "mem_channel_id m = dm_id a b" "mem_user_id m = u"
    using assms(2) by (auto simp: member_of_members mem_key_def)
  then obtain x y where "colon_free x" "colon_free y" "dm_id a b = dm_id x y" "u \<in> {x, y}"
    using assms(1) by (auto simp: dm_member_shape_def)
  with dm_id_inj [of a b x y] assms(3,4) show ?thesis by simp
qed

lemma channel_create_refused:
  assumes "chan_ddl db = DDL_Messaging"
  shows "status_of (fst (channels_Create e c r db)) \<in> {400, 409, 500} \<and> snd (channels_Create e c r db) = db"
  using assms by (auto simp: channels_Create_def no_admin_columns_def exec_insert_def Let_def
      split: option.splits if_splits)

lemma findOrCreate_admin_ddl:
  assumes "chan_ddl db = DDL_Admin" and "channel_type db (dm_id a b) = None"
  shows "findOrCreateDMChannel f db a b = (Inl ErrDB, db)"
  using assms dm_transaction_admin_ddl [OF assms(1)]
  by (auto simp: findOrCreateDMChannel_def query_exists_Inr channel_type_None list_ex_iff Let_def
      split: sum.splits)

text \<open>C22: The tables of channels and members have the declaration of the service that started first,
  for ever.  If it was the messaging service, then every channel is a direct channel with no members
  but its two users, and creating a channel through the admin API always fails; if it was the admin
  service, then every channel came from the admin API and no two users can open a direct channel.
  So in one installation either group channels or direct messages never work.\<close>

theorem channel_declarations_exclude:
  assumes "platform_reach db" and "t_channels db \<noteq> None" and "platform_steps db db'"
  shows "chan_ddl db' = chan_ddl db \<and>
    (case chan_ddl db of
       DDL_Messaging \<Rightarrow>
         (\<forall>c\<in>set (channels_of db'). ch_type c = ''dm'' \<and>
            (\<exists>a b. ch_id c = dm_id a b \<and> {u. member_of db' (ch_id c) u} \<subseteq> {a, b})) \<and>
         (\<forall>e c r. status_of (fst (channels_Create e c r db')) \<in> {400, 409, 500} \<and>
            snd (channels_Create e c r db') = db')
     | DDL_Admin \<Rightarrow>
         (\<forall>c\<in>set (channels_of db'). ch_created_by c \<noteq> None) \<and>
         (\<forall>f a b. channel_type db' (dm_id a b) = None \<longrightarrow>
            findOrCreateDMChannel f db' a b = (Inl ErrDB, db')))"
proof -
  have "platform_reach db'"
    using platform_runs.steps [OF assms(3,1)] .
  then have k: "kind_inv db'" by (rule reach_kind)
  have d: "chan_ddl db' = chan_ddl db" using steps_ddl [OF assms(3,2)] by blast
  show ?thesis
  proof (cases "chan_ddl db")
    case DDL_Messaging
    with k d have c: "\<forall>c\<in>set (channels_of db'). dm_shape c" and m: "\<forall>m\<in>set (members_of db'). dm_member_shape m"
      by (simp_all add: kind_inv_def)
    have "ch_type x = ''dm'' \<and> (\<exists>a b. ch_id x = dm_id a b \<and> {u. member_of db' (ch_id x) u} \<subseteq> {a, b})"
      if x: "x \<in> set (channels_of db')" for x
    proof -
      obtain a b where "ch_type x = ''dm''" and ab: "colon_free a" "colon_free b" and i: "ch_id x = dm_id a b"
        using c x by (auto simp: dm_shape_def)
      moreover have "{u. member_of db' (ch_id x) u} \<subseteq> {a, b}"
        unfolding i using dm_member_of_pair [OF m _ ab] by blast
      ultimately show ?thesis by blast
    qed
    with channel_create_refused [of db'] d DDL_Messaging show ?thesis by simp
  next
    case DDL_Admin
    with k d findOrCreate_admin_ddl [of db'] show ?thesis by (simp add: kind_inv_def)
  qed
qed

subsection \<open>Deleting a direct channel is final\<close>

lemma delete_channel_effect:
  assumes "fst (channels_Delete i e c r db) = Status_Json 200 A_Ok"
  shows "channels_of (snd (channels_Delete i e c r db)) = filter (\<lambda>x. ch_id x \<noteq> i) (channels_of db) \<and>
    t_channels (snd (channels_Delete i e c r db)) \<noteq> None \<and>
    t_members (snd (channels_Delete i e c r db)) = t_members db \<and>
    t_messages (snd (channels_Delete i e c r db)) = t_messages db \<and>
    chan_ddl (snd (channels_Delete i e c r db)) = chan_ddl db"
  using assms by (auto simp: channels_Delete_def delete_reply_def exec_delete_def audit_Log_def
      channels_of_def split: option.splits if_splits)

lemma orphan_member_blocks:
  assumes "\<forall>c\<in>set (channels_of db). ch_id c \<noteq> dm_id a b" and "member_of db (dm_id a b) u" and "u \<in> {a, b}"
  shows "findOrCreateDMChannel f db a b = (Inl ErrDB, db)"
proof -
  have "dm_transaction g db (dm_id a b) a b = None" for g
  proof (cases "dm_transaction g db (dm_id a b) a b")
    case (Some db')
    obtain ms where "t_members db = Some ms" "(dm_id a b, a) \<notin> mem_key ` set ms" "(dm_id a b, b) \<notin> mem_key ` set ms"
      using dm_transaction_rows [OF Some] by blast
    with assms(2,3) show ?thesis by (auto simp: member_of_members members_of_def)
  qed
  with assms(1) show ?thesis
    by (auto simp: findOrCreateDMChannel_def query_exists_Inr list_ex_iff channels_of_def Let_def
        split: sum.splits if_splits)
qed

text \<open>When an admin deletes the direct channel of two users, its messages and member rows stay, and
  the two can never open it again while one of these rows is there: every attempt of either of them
  fails on the key of the member table.\<close>

theorem deleted_dm_is_final:
  assumes "fst (channels_Delete (dm_id a b) e c r db) = Status_Json 200 A_Ok"
    and "member_of db (dm_id a b) u" and "u \<in> {a, b}"
  shows "let db' = snd (channels_Delete (dm_id a b) e c r db) in
    t_messages db' = t_messages db \<and> member_of db' (dm_id a b) u \<and>
    channel_type db' (dm_id a b) = None \<and>
    findOrCreateDMChannel f db' a b = (Inl ErrDB, db') \<and> findOrCreateDMChannel f db' b a = (Inl ErrDB, db')"
proof -
  let ?db = "snd (channels_Delete (dm_id a b) e c r db)"
  note eff = delete_channel_effect [OF assms(1)]
  have gone: "\<forall>x\<in>set (channels_of ?db). ch_id x \<noteq> dm_id a b" using eff by simp
  then have "channel_type ?db (dm_id a b) = None"
    by (auto simp: channel_type_channels find_None_conv)
  moreover have m: "member_of ?db (dm_id a b) u" using eff assms(2) by (simp add: member_of_def)
  moreover have "findOrCreateDMChannel f ?db a b = (Inl ErrDB, ?db)"
    using orphan_member_blocks [OF gone m assms(3)] .
  moreover have "findOrCreateDMChannel f ?db b a = (Inl ErrDB, ?db)"
    using orphan_member_blocks [of ?db b a u f] gone m assms(3) by (simp add: dm_id_sym [of b a]) blast
  ultimately show ?thesis using eff by (simp add: Let_def)
qed

subsection \<open>Passwords across the services\<close>

text \<open>Updating a user never touches the password, although the request has a field for it.\<close>

lemma update_keeps_password:
  assumes "t_users db = Some us"
  shows "\<exists>us'. t_users (snd (users_Update i e c r db)) = Some us' \<and>
    map usr_password_hash us' = map usr_password_hash us"
proof -
  have "usr_password_hash (apply_user_update now q u) = usr_password_hash u" for now q u
    by (simp add: apply_user_update_def Let_def)
  with assms show ?thesis
    by (auto simp: users_Update_def exec_update_def audit_Log_def Let_def split: option.splits if_splits)
qed

definition reset_row :: "string \<Rightarrow> string \<Rightarrow> int \<Rightarrow> user_row \<Rightarrow> user_row" where
  "reset_row i h now u =
    (if usr_id u = i then u\<lparr>usr_password_hash := h, usr_updated_at := now\<rparr> else u)"

lemma reset_row_same [simp]:
  "usr_id (reset_row i h now u) = usr_id u" "usr_username (reset_row i h now u) = usr_username u"
  "usr_role_id (reset_row i h now u) = usr_role_id u"
  by (simp_all add: reset_row_def)

lemma ResetPassword_effect:
  assumes "ad_bcrypt_hash e ''123456789'' = Some h" and "\<not> ad_fault e [Stmt 0]" and "t_users db = Some us"
    and "distinct (map usr_username us)"
  shows "fst (users_ResetPassword i e c r db) = Status_Json 200 A_Ok \<and>
    t_users (snd (users_ResetPassword i e c r db)) = Some (map (reset_row i h (unix_sec (ad_now e))) us) \<and>
    t_roles (snd (users_ResetPassword i e c r db)) = t_roles db"
proof -
  have m: "map (\<lambda>u. if usr_id u = i then u\<lparr>usr_password_hash := h, usr_updated_at := unix_sec (ad_now e)\<rparr> else u) us
      = map (reset_row i h (unix_sec (ad_now e))) us"
    by (simp add: reset_row_def)
  have ok: "unique_usernames (map (reset_row i h (unix_sec (ad_now e))) us)"
    using assms(4) by (simp add: unique_usernames_def comp_def)
  show ?thesis
    unfolding users_ResetPassword_def exec_update_def Let_def
    using assms(1,2,3) ok by (simp add: m audit_Log_def split: option.splits)
qed

lemma LoginHandler_by_row:
  assumes "rq_method r = ''POST''" and "au_decode_login e (rq_body r) = Some q"
    and "trim_space (lr_username q) = usr_username v" "usr_username v \<noteq> []" "length (usr_username v) \<le> 64"
    and "lr_password q \<noteq> []" "length (lr_password q) \<le> 128" "\<not> au_fault e"
    and "t_users db = Some us" "t_roles db = Some rs" "v \<in> set us" "distinct (map usr_username us)"
    and "GenerateToken e (usr_username v) (role_of rs v) = Some tok"
  shows "LoginHandler e w r db =
    ((if VerifyPassword e (lr_password q) (usr_password_hash v) = Some True
      then Json (P_Token tok (usr_id v) (role_of rs v)) else Http_Error 401 ''Invalid credentials''), db)"
proof -
  have "find (\<lambda>u. usr_username u = usr_username v) us = Some v"
    using find_key_unique [OF assms(12,11)] by simp
  with assms show ?thesis by (simp add: LoginHandler_def query_row_def query_def Let_def)
qed

text \<open>C28: After an admin reset the password of a user, the auth service accepts exactly the passwords
  that bcrypt accepts for the new hash, among them 123456789, whatever the password was before, and
  answers with a token for that user and its role; nobody else's row changes.\<close>

theorem reset_password_then_login:
  assumes "platform_inv db" and "t_users db = Some us" and "t_roles db = Some rs" and "u \<in> set us"
    and "ad_bcrypt_hash e ''123456789'' = Some h" and "\<not> ad_fault e [Stmt 0]"
    and "prefix ''$2a$'' h" and "au_bcrypt e2 h ''123456789''" and "\<not> au_fault e2"
    and "au_decode_login e2 (rq_body r2) = Some q" and "rq_method r2 = ''POST''"
    and "trim_space (lr_username q) = usr_username u" "usr_username u \<noteq> []" "length (usr_username u) \<le> 64"
    and "lr_password q \<noteq> []" "length (lr_password q) \<le> 128"
    and "GenerateToken e2 (usr_username u) (role_of rs u) = Some tok"
  shows "fst (users_ResetPassword (usr_id u) e c r db) = Status_Json 200 A_Ok \<and>
    fst (LoginHandler e2 w r2 (snd (users_ResetPassword (usr_id u) e c r db))) =
      (if au_bcrypt e2 h (lr_password q) then Json (P_Token tok (usr_id u) (role_of rs u))
       else Http_Error 401 ''Invalid credentials'') \<and>
    (lr_password q = ''123456789'' \<longrightarrow> au_bcrypt e2 h (lr_password q)) \<and>
    (\<forall>v\<in>set us. v \<noteq> u \<longrightarrow> v \<in> set (the (t_users (snd (users_ResetPassword (usr_id u) e c r db)))))"
proof -
  let ?db = "snd (users_ResetPassword (usr_id u) e c r db)" and ?g = "reset_row (usr_id u) h (unix_sec (ad_now e))"
  have dist: "distinct (map usr_username us)" "distinct (map usr_id us)"
    using assms(1,2) by (simp_all add: platform_inv_def users_ok_def)
  note eff = ResetPassword_effect [OF assms(5,6,2) dist(1), of "usr_id u" c r]
  have row: "?g u \<in> set (map ?g us)" using assms(4) by simp
  have names: "distinct (map usr_username (map ?g us))" using dist(1) by (simp add: comp_def)
  have hash: "usr_password_hash (?g u) = h" by (simp add: reset_row_def)
  have role: "role_of rs (?g u) = role_of rs u" by (simp add: role_of_def)
  have "LoginHandler e2 w r2 ?db =
    ((if VerifyPassword e2 (lr_password q) (usr_password_hash (?g u)) = Some True
      then Json (P_Token tok (usr_id (?g u)) (role_of rs (?g u))) else Http_Error 401 ''Invalid credentials''), ?db)"
    by (rule LoginHandler_by_row [OF assms(11,10) _ _ _ assms(15,16,9) _ _ row names])
      (use assms(3,12,13,14,17) eff in \<open>simp_all add: role\<close>)
  moreover have "VerifyPassword e2 (lr_password q) h = Some (au_bcrypt e2 h (lr_password q))"
    using assms(7) by (simp add: VerifyPassword_def)
  moreover have "v \<in> set (map ?g us)" if "v \<in> set us" "v \<noteq> u" for v
  proof -
    have "usr_id v \<noteq> usr_id u" using distinct_map_same [OF dist(2) that(1) assms(4)] that(2) by blast
    then have "?g v = v" by (simp add: reset_row_def)
    with that(1) show ?thesis by force
  qed
  ultimately show ?thesis using eff assms(8) by (simp add: hash role)
qed


subsection \<open>Concrete runs\<close>

lemma ex_admin_reach: "platform_reach ex_admin_db"
  using pr_step [OF pr_step [OF pr_empty ps_start [of _ Admin]] ps_super_admin
      [of _ "ex_admin_env 0" "''admin''" "''admin''"]]
  by (simp add: ex_admin_db_def)


lemma ex_admin_tables: "t_channels ex_admin_db = Some []" "chan_ddl ex_admin_db = DDL_Admin"
  by code_simp+

theorem channel_declarations_exclude_witness:
  "findOrCreateDMChannel no_faults ex_admin_db ''a'' ''b'' = (Inl ErrDB, ex_admin_db)"
proof -
  have "channel_type ex_admin_db i = None" for i by (simp add: channel_type_def ex_admin_tables)
  with channel_declarations_exclude [OF ex_admin_reach, of ex_admin_db] show ?thesis
    by (simp add: ex_admin_tables)
qed

definition ex_dm_db :: platform_db where
  "ex_dm_db = (start_all [Messaging, Admin] empty_db)
     \<lparr>t_channels := Some [dm_channel (dm_id ''a'' ''b'')],
      t_members := Some [dm_member DDL_Messaging (dm_id ''a'' ''b'') ''a'', dm_member DDL_Messaging (dm_id ''a'' ''b'') ''b'']\<rparr>"

theorem deleted_dm_is_final_witness:
  "findOrCreateDMChannel no_faults
      (snd (channels_Delete (dm_id ''a'' ''b'') (ex_admin_env 5) ex_claims (ex_admin_req []) ex_dm_db)) ''b'' ''a''
    = (Inl ErrDB, snd (channels_Delete (dm_id ''a'' ''b'') (ex_admin_env 5) ex_claims (ex_admin_req []) ex_dm_db))"
proof -
  have "fst (channels_Delete (dm_id ''a'' ''b'') (ex_admin_env 5) ex_claims (ex_admin_req []) ex_dm_db)
      = Status_Json 200 A_Ok"
    by (simp add: channels_Delete_def delete_reply_def exec_delete_def ex_dm_db_def ex_admin_env_def dm_channel_def)
  moreover have "member_of ex_dm_db (dm_id ''a'' ''b'') ''a''"
    by (simp add: member_of_def ex_dm_db_def dm_member_def)
  ultimately show ?thesis
    using deleted_dm_is_final [of "''a''" "''b''" "ex_admin_env 5" ex_claims "ex_admin_req []" ex_dm_db "''a''" no_faults]
    by (simp add: Let_def)
qed

definition ex_hash_env :: admin_env where
  "ex_hash_env = (ex_admin_env 5)\<lparr>ad_bcrypt_hash := (\<lambda>p. Some (''$2a$'' @ p))\<rparr>"

definition ex_login_env :: auth_env where
  "ex_login_env = ex_auth_env\<lparr>au_bcrypt := (\<lambda>h p. h = ''$2a$'' @ p),
     au_decode_login := (\<lambda>b. Some \<lparr>lr_username = b, lr_password = ''123456789''\<rparr>),
     au_sign := (\<lambda>k c. if tk_username c = ''mallory'' \<and> tk_role c = ''user'' then Some (k @ '':tok'') else None)\<rparr>"

definition ex_users_db :: "string \<Rightarrow> platform_db" where
  "ex_users_db h = (start_all [Admin, Auth] empty_db)
     \<lparr>t_users := Some [(ex_user ''u1'' ''mallory'')\<lparr>usr_password_hash := h\<rparr>]\<rparr>"

lemma ex_users: "platform_inv (ex_users_db h)" "t_roles (ex_users_db h) = Some []"
  "t_users (ex_users_db h) = Some [(ex_user ''u1'' ''mallory'')\<lparr>usr_password_hash := h\<rparr>]"
  by (simp_all add: ex_users_db_def start_all_def init_defs empty_db_def create_def platform_inv_def
      inv_simps)

lemma ex_token: "GenerateToken ex_login_env ''mallory'' ''user'' = Some ''my_secret_key:tok''"
  by (simp add: GenerateToken_def ex_login_env_def jwtKey_def)

theorem reset_password_then_login_witness:
  "fst (LoginHandler ex_login_env ex_writer ex_auth_req
      (snd (users_ResetPassword ''u1'' ex_hash_env ex_claims (ex_admin_req []) (ex_users_db ''old''))))
    = Json (P_Token ''my_secret_key:tok'' ''u1'' ''user'')"
proof -
  let ?u = "(ex_user ''u1'' ''mallory'')\<lparr>usr_password_hash := ''old''\<rparr>"
  have u: "?u \<in> set [?u]" "usr_id ?u = ''u1''" "usr_username ?u = ''mallory''" "role_of [] ?u = ''user''"
    by (simp_all add: ex_user_def role_of_def)
  have e: "ad_bcrypt_hash ex_hash_env ''123456789'' = Some ''$2a$123456789''" "\<not> ad_fault ex_hash_env [Stmt 0]"
    "prefix ''$2a$'' ''$2a$123456789''" "au_bcrypt ex_login_env ''$2a$123456789'' ''123456789''"
    "\<not> au_fault ex_login_env" "rq_method ex_auth_req = ''POST''"
    "au_decode_login ex_login_env (rq_body ex_auth_req) = Some \<lparr>lr_username = ''mallory'', lr_password = ''123456789''\<rparr>"
    by (simp_all add: ex_hash_env_def ex_admin_env_def ex_login_env_def ex_auth_env_def ex_auth_req_def)
  have tok: "GenerateToken ex_login_env (usr_username ?u) (role_of [] ?u) = Some ''my_secret_key:tok''"
    unfolding u(3,4) by (rule ex_token)
  have q: "trim_space (lr_username \<lparr>lr_username = ''mallory'', lr_password = ''123456789''\<rparr>) = usr_username ?u"
    "usr_username ?u \<noteq> []" "length (usr_username ?u) \<le> 64"
    "lr_password \<lparr>lr_username = ''mallory'', lr_password = ''123456789''\<rparr> \<noteq> []"
    "length (lr_password \<lparr>lr_username = ''mallory'', lr_password = ''123456789''\<rparr>) \<le> 128"
    by (simp_all add: u(3) ex_mallory)
  from reset_password_then_login [OF ex_users(1,3,2) u(1) e(1-5,7,6) q tok, of ex_claims "ex_admin_req []" ex_writer]
  show ?thesis unfolding u by (auto simp: e(4))
qed


end
