(* ===== verification/Accounts.thy ===== *)
theory Accounts
  imports PlatformProps
begin

section \<open>What the admin API's changes mean for the other services\<close>

text \<open>
  Membership, deletion and renaming are done in the admin service, on the shared tables; access to
  channels is decided by the messaging service, and who a token stands for by both the auth and the
  messaging service.
\<close>

subsection \<open>Membership\<close>

lemma channel_type_log [simp]: "channel_type (audit_Log e k c a g d r db) ch = channel_type db ch"
  "member_of (audit_Log e k c a g d r db) ch u = member_of db ch u"
  by (simp_all add: audit_Log_def channel_type_def member_of_def split: option.splits)

lemma may_access_log [simp]: "may_access (audit_Log e k c a g d r db) u ch = may_access db u ch"
  by (simp add: may_access_def cong: option.case_cong)

lemma access_iff: "authorizeChannelAccess no_faults db u ch = None \<longleftrightarrow> may_access db u ch"
  by (simp add: authorize_grants_iff)

lemma find_filter_key: "find (\<lambda>x. f x = k) (filter (\<lambda>x. f x \<noteq> i) xs) = (if k = i then None else find (\<lambda>x. f x = k) xs)"
  by (induction xs) (auto simp: find_None_iff)

lemma add_member_access:
  assumes "channels_AddMember i e c r db = (Status_Json 200 p, db')" "ad_bind_member e (rq_body r) = Some q"
  shows "may_access db' x ch \<longleftrightarrow>
    may_access db x ch \<or> x = mq_user_id q \<and> ch = i \<and> channel_type db i \<noteq> None"
proof -
  obtain m t where ins: "exec_insert (ad_fault e [Stmt 0] \<or> no_admin_columns db) (ins_member (chan_ddl db)) m (t_members db) = Some t"
    and m: "mem_key m = (i, mq_user_id q)" and db': "may_access db' x ch = may_access (db\<lparr>t_members := t\<rparr>) x ch"
    using assms by (auto simp: channels_AddMember_def mem_key_def Let_def split: if_splits option.splits)
  obtain ms where ms: "t_members db = Some ms" "t = Some (ms @ [m])"
    using ins by (auto simp: exec_insert_def ins_member_def split: if_splits option.splits)
  show ?thesis unfolding db'
    using ms m by (auto simp: may_access_def channel_type_def member_of_def mem_key_def split: option.splits)
qed

lemma remove_member_access:
  assumes "channels_RemoveMember i u e c r db = (Status_Json 200 p, db')"
  shows "may_access db' x ch \<longleftrightarrow>
    may_access db x ch \<and> \<not> (x = u \<and> ch = i \<and> channel_type db i \<noteq> Some ''public'')"
proof -
  obtain ms where ms: "t_members db = Some ms" and db': "may_access db' x ch =
      may_access (db\<lparr>t_members := Some (filter (\<lambda>m. \<not> (mem_channel_id m = i \<and> mem_user_id m = u)) ms)\<rparr>) x ch"
    using assms by (auto simp: channels_RemoveMember_def delete_reply_def exec_delete_def split: if_splits option.splits)
  show ?thesis unfolding db'
    using ms by (auto simp: may_access_def channel_type_def member_of_def list_ex_iff split: option.splits)
qed

lemma delete_channel_access:
  assumes "channels_Delete i e c r db = (Status_Json 200 p, db')"
  shows "may_access db' x ch \<longleftrightarrow> may_access db x ch \<and> ch \<noteq> i"
proof -
  obtain cs where cs: "t_channels db = Some cs" and db': "may_access db' x ch =
      may_access (db\<lparr>t_channels := Some (filter (\<lambda>c. ch_id c \<noteq> i) cs)\<rparr>) x ch"
    using assms by (auto simp: channels_Delete_def delete_reply_def exec_delete_def split: if_splits option.splits)
  show ?thesis unfolding db'
    using cs by (auto simp: may_access_def channel_type_def member_of_def find_filter_key split: option.splits)
qed

text \<open>C18: The admin service's changes of a channel decide, at once and exactly, who has access in the
  messaging service: adding a member gives that user access to that channel if it exists and nobody
  else any; removing one takes it away unless the channel is public; deleting the channel takes it
  from everybody.\<close>

theorem membership_controls_access:
  assumes add: "channels_AddMember i e c r db = (Status_Json 200 p, db1)" "ad_bind_member e (rq_body r) = Some q"
    and remove: "channels_RemoveMember i2 u e2 c2 r2 db1 = (Status_Json 200 p2, db2)"
    and delete: "channels_Delete i3 e3 c3 r3 db2 = (Status_Json 200 p3, db3)"
  shows "(authorizeChannelAccess no_faults db1 x ch = None \<longleftrightarrow>
      authorizeChannelAccess no_faults db x ch = None \<or> x = mq_user_id q \<and> ch = i \<and> channel_type db i \<noteq> None) \<and>
    (authorizeChannelAccess no_faults db2 x ch = None \<longleftrightarrow>
      authorizeChannelAccess no_faults db1 x ch = None \<and> \<not> (x = u \<and> ch = i2 \<and> channel_type db1 i2 \<noteq> Some ''public'')) \<and>
    (authorizeChannelAccess no_faults db3 x ch = None \<longleftrightarrow>
      authorizeChannelAccess no_faults db2 x ch = None \<and> ch \<noteq> i3)"
  unfolding access_iff
  by (intro conjI add_member_access [OF add] remove_member_access [OF remove] delete_channel_access [OF delete])

subsection \<open>Deleted users\<close>

lemma t_users_log [simp]: "t_users (audit_Log e k c a g d r db) = t_users db"
  by (simp add: audit_Log_def split: option.splits)

lemma authenticate_row:
  assumes "authenticate e db r = Inr i"
  shows "\<exists>c us u. validateToken e (bearerToken r) = Some c \<and> bearerToken r \<noteq> [] \<and>
    \<not> me_fault e [C_Authenticate] \<and> t_users db = Some us \<and>
    find (\<lambda>v. usr_username v = cl_username c) us = Some u \<and> usr_id u = i"
  using assms
  by (auto simp: authenticate_def findUserIDByUsername_def lift_db_def query_row_def query_def at_def Let_def
      split: if_splits option.splits sum.splits)


subsection \<open>Renamed users\<close>

lemma users_Update_rows:
  assumes "users_Update i e c r db = (Status_Json 200 p, db')" "t_users db = Some us"
  shows "\<exists>f. t_users db' = Some (map f us) \<and> (\<forall>v. usr_id (f v) = usr_id v)"
proof -
  obtain q t where "exec_update (ad_fault e [Stmt 0]) unique_usernames (\<lambda>u. usr_id u = i)
      (apply_user_update (unix_sec (ad_now e)) q) (t_users db) = Some t" "t_users db' = t"
    using assms(1) by (auto simp: users_Update_def split: option.splits)
  then have "t_users db' = Some (map (\<lambda>v. if usr_id v = i then apply_user_update (unix_sec (ad_now e)) q v else v) us)"
    using assms(2) by (auto simp: exec_update_def Let_def split: if_splits)
  moreover have "usr_id (if usr_id v = i then apply_user_update (unix_sec (ad_now e)) q v else v) = usr_id v" for v
    by (simp add: apply_user_update_def Let_def)
  ultimately show ?thesis by blast
qed

lemma find_snoc_new: "(\<And>v. v \<in> set us \<Longrightarrow> \<not> P v) \<Longrightarrow> P row \<Longrightarrow> find P (us @ [row]) = Some row"
  by (induction us) auto

lemma users_Create_row:
  assumes "users_Create e c r db = (Status_Json 201 p, db')" "ad_bind_user e (rq_body r) = Some q"
    "t_users db = Some us"
  shows "\<exists>row. usr_id row = ad_uuid e \<and> usr_username row = aq_username q \<and> t_users db' = Some (us @ [row]) \<and>
    (\<forall>v\<in>set us. usr_id v \<noteq> ad_uuid e \<and> usr_username v \<noteq> aq_username q)"
proof -
  let ?row = "\<lambda>hash. \<lparr>usr_id = ad_uuid e, usr_username = aq_username q, usr_full_name = Some (aq_full_name q),
    usr_password_hash = hash, usr_role_id = Some (aq_role q), usr_department_id = Some (aq_department q),
    usr_created_at = unix_sec (ad_now e), usr_updated_at = unix_sec (ad_now e)\<rparr>"
  obtain hash t where t: "exec_insert (ad_fault e [Stmt 1]) ins_user (?row hash) (t_users db) = Some t" "t_users db' = t"
    using assms(1,2) by (auto simp: users_Create_def Let_def split: if_splits option.splits)
  have "usr_id (?row hash) = ad_uuid e" "usr_username (?row hash) = aq_username q" by simp_all
  with t obtain row where "usr_id row = ad_uuid e" "usr_username row = aq_username q"
    "exec_insert (ad_fault e [Stmt 1]) ins_user row (t_users db) = Some (t_users db')" by metis
  then show ?thesis
    using assms(3) by (auto simp: exec_insert_def ins_user_def list_ex_iff split: if_splits option.splits)
qed

text \<open>C30: Tokens carry the user's name, not the identifier.  When the admin service renames a user and then
  creates another one under the old name, every token of the renamed user that is still valid makes the
  messaging service act as the new user.\<close>

theorem renamed_token_acts_as_other:
  assumes "authenticate me db rq = Inr i"
    and "users_Update i e c r db = (Status_Json 200 p, db1)"
    and "users_Create e2 c2 r2 db1 = (Status_Json 201 p2, db2)" "ad_bind_user e2 (rq_body r2) = Some q2"
    and "validateToken me (bearerToken rq) = Some cl" "aq_username q2 = cl_username cl"
  shows "authenticate me db2 rq = Inr (ad_uuid e2) \<and> ad_uuid e2 \<noteq> i"
proof -
  obtain us u where u: "t_users db = Some us" "find (\<lambda>v. usr_username v = cl_username cl) us = Some u" "usr_id u = i"
    and tok: "bearerToken rq \<noteq> []" "\<not> me_fault me [C_Authenticate]"
    using authenticate_row [OF assms(1)] assms(5) by auto
  obtain f where us1: "t_users db1 = Some (map f us)" and f: "\<And>v. usr_id (f v) = usr_id v"
    using users_Update_rows [OF assms(2) u(1)] by blast
  obtain row where row: "usr_id row = ad_uuid e2" "usr_username row = cl_username cl"
    and fresh: "\<And>v. v \<in> set (map f us) \<Longrightarrow> usr_id v \<noteq> ad_uuid e2 \<and> usr_username v \<noteq> cl_username cl"
    and us2: "t_users db2 = Some (map f us @ [row])"
    using users_Create_row [OF assms(3,4) us1] assms(6) by auto
  have "find (\<lambda>v. usr_username v = cl_username cl) (map f us @ [row]) = Some row"
    by (rule find_snoc_new) (use fresh row(2) in blast)+
  then have "authenticate me db2 rq = Inr (ad_uuid e2)"
    using tok assms(5) us2 row(1)
    by (simp add: authenticate_def findUserIDByUsername_def lift_db_def query_row_def query_def at_def Let_def)
  moreover have "ad_uuid e2 \<noteq> i"
    using fresh [of "f u"] find_Some_in [OF u(2)] u(3) f by auto
  ultimately show ?thesis by blast
qed

subsection \<open>Concrete runs\<close>

lemma reply_with: "fst x = a \<Longrightarrow> x = (a, snd x)"
  by auto

definition ex_group_db :: platform_db where
  "ex_group_db = (start_all [Admin, Messaging] empty_db)
     \<lparr>t_channels := Some [(dm_channel ''g'')\<lparr>ch_type := ''group''\<rparr>], t_members := Some []\<rparr>"

abbreviation ex_added :: platform_db where
  "ex_added \<equiv> snd (channels_AddMember ''g'' (ex_admin_env 5) ex_claims (ex_admin_req ''b'') ex_group_db)"

abbreviation ex_removed :: platform_db where
  "ex_removed \<equiv> snd (channels_RemoveMember ''g'' ''b'' (ex_admin_env 6) ex_claims (ex_admin_req []) ex_added)"

abbreviation ex_deleted :: platform_db where
  "ex_deleted \<equiv> snd (channels_Delete ''g'' (ex_admin_env 7) ex_claims (ex_admin_req []) ex_removed)"

theorem membership_controls_access_witness:
  "authorizeChannelAccess no_faults ex_group_db ''b'' ''g'' \<noteq> None \<and>
    authorizeChannelAccess no_faults ex_added ''b'' ''g'' = None \<and>
    authorizeChannelAccess no_faults ex_removed ''b'' ''g'' \<noteq> None \<and>
    authorizeChannelAccess no_faults ex_deleted ''b'' ''g'' \<noteq> None"
proof -
  have steps: "fst (channels_AddMember ''g'' (ex_admin_env 5) ex_claims (ex_admin_req ''b'') ex_group_db) = Status_Json 200 A_Ok"
    "fst (channels_RemoveMember ''g'' ''b'' (ex_admin_env 6) ex_claims (ex_admin_req []) ex_added) = Status_Json 200 A_Ok"
    "fst (channels_Delete ''g'' (ex_admin_env 7) ex_claims (ex_admin_req []) ex_removed) = Status_Json 200 A_Ok"
    by code_simp+
  have kinds: "channel_type ex_group_db ''g'' = Some ''group''" "channel_type ex_added ''g'' = Some ''group''"
    by code_simp+
  have bind: "ad_bind_member (ex_admin_env 5) (rq_body (ex_admin_req ''b'')) = Some \<lparr>mq_user_id = ''b'', mq_role = []\<rparr>"
    by (simp add: ex_admin_env_def ex_admin_req_def)
  have before: "authorizeChannelAccess no_faults ex_group_db ''b'' ''g'' \<noteq> None" by code_simp
  show ?thesis
    using membership_controls_access [OF reply_with [OF steps(1)] bind reply_with [OF steps(2)] reply_with [OF steps(3)],
        of "''b''" "''g''"] kinds before by simp
qed

abbreviation ex_mallory_deleted :: platform_db where
  "ex_mallory_deleted \<equiv> snd (users_Delete ''u1'' (ex_admin_env 5) ex_claims (ex_admin_req []) (ex_users_db ''old''))"


abbreviation ex_renamed :: platform_db where
  "ex_renamed \<equiv> snd (users_Update ''u1'' (ex_admin_env 5) ex_claims (ex_admin_req ''bob'') (ex_users_db ''old''))"

abbreviation ex_reused :: platform_db where
  "ex_reused \<equiv> snd (users_Create (ex_admin_env 6) ex_claims (ex_admin_req ''mallory'') ex_renamed)"

theorem renamed_token_acts_as_other_witness:
  "authenticate ex_env ex_reused (ex_req ''POST'' ''mallory'' []) = Inr ''root''"
proof -
  have steps: "authenticate ex_env (ex_users_db ''old'') (ex_req ''POST'' ''mallory'' []) = Inr ''u1''"
    "fst (users_Update ''u1'' (ex_admin_env 5) ex_claims (ex_admin_req ''bob'') (ex_users_db ''old'')) = Status_Json 200 A_Ok"
    "fst (users_Create (ex_admin_env 6) ex_claims (ex_admin_req ''mallory'') ex_renamed) = Status_Json 201 (A_Created ''root'' ''mallory'')"
    "validateToken ex_env (bearerToken (ex_req ''POST'' ''mallory'' [])) = Some \<lparr>cl_username = ''mallory'', cl_role = ''user''\<rparr>"
    by code_simp+
  have bind: "ad_bind_user (ex_admin_env 6) (rq_body (ex_admin_req ''mallory'')) =
      Some \<lparr>aq_username = ''mallory'', aq_full_name = [], aq_password = ''mallory'', aq_role = [], aq_department = []\<rparr>"
    "ad_uuid (ex_admin_env 6) = ''root''"
    by (simp_all add: ex_admin_env_def ex_admin_req_def)
  show ?thesis
    using renamed_token_acts_as_other [OF steps(1) reply_with [OF steps(2)] reply_with [OF steps(3)] bind(1) steps(4)]
      bind(2) by simp
qed

end
