(* ===== verification/Concurrent.thy ===== *)
theory Concurrent
  imports Accounts MessagingProps
begin

section \<open>Concurrent requests to send a message\<close>

text \<open>
  The handler of \<open>/send\<close> holds no lock between its database statements, so other requests and other
  services run between them.  \<open>send_part\<close> performs the handler up to and including its next statement on
  the database (the transaction of a new direct channel counts as one, and the delivery to the
  queues, under the router's mutex, as one).  \<open>conc_step\<close> interleaves any number of such requests with
  the steps of all services on the database and the steps of the connections.
\<close>

subsection \<open>Program points\<close>

datatype send_pc =
    Sd_Start
  | Sd_Type string send_request
  | Sd_User string send_request
  | Sd_Exists string send_request
  | Sd_Create string send_request
  | Sd_AuthType string send_request string
  | Sd_AuthMember string send_request string
  | Sd_Save string send_request string
  | Sd_Members message
  | Sd_MemberRows message string
  | Sd_Deliver message "string list \<times> string"
  | Sd_Done "msg_payload reply"

abbreviation not_found :: "send_pc" where
  "not_found \<equiv> Sd_Done (Http_Error 404 ''channel not found'')"

abbreviation forbidden :: "send_pc" where
  "forbidden \<equiv> Sd_Done (Http_Error 403 ''forbidden'')"

fun send_part :: "msg_env \<Rightarrow> request \<Rightarrow> send_pc \<Rightarrow> router \<Rightarrow> send_pc \<times> router" where
  "send_part e r Sd_Start s =
    (if rq_method r \<noteq> ''POST'' then (Sd_Done (Http_Error 405 ''Method not allowed''), s)
     else (case me_decode_send e (rq_body r) of
       None \<Rightarrow> (Sd_Done (Http_Err 400), s)
     | Some q \<Rightarrow>
         (case authenticate e (rt_db s) r of
            Inl _ \<Rightarrow> (Sd_Done unauthorized, s)
          | Inr u \<Rightarrow> (if sr_channel_id q = [] then not_found else Sd_Type u q, s))))"
| "send_part e r (Sd_Type u q) s =
    ((case getChannelType (at (at (me_fault e) C_Resolve) C_ChannelType) (rt_db s) (sr_channel_id q) of
        Inr _ \<Rightarrow> Sd_AuthType u q (sr_channel_id q)
      | Inl err \<Rightarrow> (if err \<noteq> ErrChannelMissing then not_found else Sd_User u q)), s)"
| "send_part e r (Sd_User u q) s =
    ((case userExists (at (at (me_fault e) C_Resolve) C_UserExists) (rt_db s) (sr_channel_id q) of
        Inl _ \<Rightarrow> not_found
      | Inr exists \<Rightarrow>
          (if \<not> exists then not_found else if sr_channel_id q = u then not_found else Sd_Exists u q)), s)"
| "send_part e r (Sd_Exists u q) s =
    (let i = dm_id u (sr_channel_id q)
     in ((case query_exists (at (at (me_fault e) C_Resolve) C_FindOrCreateDM [Stmt 0]) (\<lambda>c. ch_id c = i)
               (t_channels (rt_db s)) of
            Inl _ \<Rightarrow> not_found
          | Inr exists \<Rightarrow> (if \<not> exists then Sd_Create u q else Sd_AuthType u q i)), s))"
| "send_part e r (Sd_Create u q) s =
    (let i = dm_id u (sr_channel_id q)
     in case dm_transaction (at (at (me_fault e) C_Resolve) C_FindOrCreateDM) (rt_db s) i u (sr_channel_id q) of
          None \<Rightarrow> (not_found, s)
        | Some db \<Rightarrow> (Sd_AuthType u q i, set_db db s))"
| "send_part e r (Sd_AuthType u q ch) s =
    ((case getChannelType (at (at (me_fault e) C_Authorize) C_ChannelType) (rt_db s) ch of
        Inl _ \<Rightarrow> forbidden
      | Inr ty \<Rightarrow> (if ty = ''public'' then Sd_Save u q ch else Sd_AuthMember u q ch)), s)"
| "send_part e r (Sd_AuthMember u q ch) s =
    ((case isChannelMember (at (at (me_fault e) C_Authorize) C_IsMember) (rt_db s) ch u of
        Inl _ \<Rightarrow> forbidden
      | Inr member \<Rightarrow> (if \<not> member then forbidden else Sd_Save u q ch)), s)"
| "send_part e r (Sd_Save u q ch) s =
    (let (y, db) = SaveMessage (at (me_fault e) C_Save) (me_now e) (me_uuid e) (rt_db s) q u ch
     in (case y of Inl _ \<Rightarrow> Sd_Done (Http_Err 500) | Inr m \<Rightarrow> Sd_Members m, set_db db s))"
| "send_part e r (Sd_Members m) s =
    ((case getChannelType (at (at (me_fault e) C_Broadcast) C_ChannelType) (rt_db s) (msg_channel_id m) of
        Inl _ \<Rightarrow> Sd_Done (Http_Err 500)
      | Inr ty \<Rightarrow> (if ty = ''public'' then Sd_Deliver m ([], ''public'') else Sd_MemberRows m ty)), s)"
| "send_part e r (Sd_MemberRows m ty) s =
    ((case query (at (me_fault e) C_Broadcast [C_Members]) (t_members (rt_db s)) of
        Inl _ \<Rightarrow> Sd_Done (Http_Err 500)
      | Inr ms \<Rightarrow>
          Sd_Deliver m (map mem_user_id (filter (\<lambda>x. mem_channel_id x = msg_channel_id m) ms), ty)), s)"
| "send_part e r (Sd_Deliver m mt) s = (Sd_Done (Json (P_Send (msg_id m) True)), deliver m mt s)"
| "send_part e r (Sd_Done rep) s = (Sd_Done rep, s)"

fun send_parts :: "nat \<Rightarrow> msg_env \<Rightarrow> request \<Rightarrow> send_pc \<times> router \<Rightarrow> send_pc \<times> router" where
  "send_parts 0 e r x = x"
| "send_parts (Suc n) e r (pc, s) = send_parts n e r (send_part e r pc s)"

lemma parts_done [simp]: "send_parts n e r (Sd_Done rep, s) = (Sd_Done rep, s)"
  by (induction n) auto

definition broadcast_rest :: "msg_env \<Rightarrow> message \<Rightarrow> router \<Rightarrow> send_pc \<times> router" where
  "broadcast_rest e m s =
    (let (b, s') = Broadcast (at (me_fault e) C_Broadcast) m s
     in (Sd_Done (case b of Some _ \<Rightarrow> Http_Err 500 | None \<Rightarrow> Json (P_Send (msg_id m) True)), s'))"

definition save_rest :: "msg_env \<Rightarrow> string \<Rightarrow> send_request \<Rightarrow> string \<Rightarrow> router \<Rightarrow> send_pc \<times> router" where
  "save_rest e u q ch s =
    (let (y, db) = SaveMessage (at (me_fault e) C_Save) (me_now e) (me_uuid e) (rt_db s) q u ch
     in case y of Inl _ \<Rightarrow> (Sd_Done (Http_Err 500), set_db db s) | Inr m \<Rightarrow> broadcast_rest e m (set_db db s))"

definition authorize_rest :: "msg_env \<Rightarrow> string \<Rightarrow> send_request \<Rightarrow> string \<Rightarrow> router \<Rightarrow> send_pc \<times> router" where
  "authorize_rest e u q ch s =
    (case authorizeChannelAccess (at (me_fault e) C_Authorize) (rt_db s) u ch of
       Some _ \<Rightarrow> (forbidden, s) | None \<Rightarrow> save_rest e u q ch s)"

lemma set_db_same [simp]: "set_db (rt_db s) s = s"
  by (simp add: set_db_def)

lemma parts_step: "0 < n \<Longrightarrow> send_parts n e r (pc, s) = send_parts (n - 1) e r (send_part e r pc s)"
  by (cases n) auto

lemma parts_broadcast: "3 \<le> n \<Longrightarrow> send_parts n e r (Sd_Members m, s) = broadcast_rest e m s"
  by (simp add: parts_step [of n e r "Sd_Members m" s] parts_step [of "n - Suc 0" e r "Sd_MemberRows m ty" s for ty]
      parts_step [of _ e r "Sd_Deliver m mt" s for mt] broadcast_rest_def Broadcast_def getChannelMembers_def split: sum.splits)

lemma parts_save: "4 \<le> n \<Longrightarrow> send_parts n e r (Sd_Save u q ch, s) = save_rest e u q ch s"
  by (simp add: parts_step [of n e r "Sd_Save u q ch" s] save_rest_def parts_broadcast split: prod.splits sum.splits)

lemma parts_authorize: "6 \<le> n \<Longrightarrow> send_parts n e r (Sd_AuthType u q ch, s) = authorize_rest e u q ch s"
  by (simp add: parts_step [of n e r "Sd_AuthType u q ch" s] parts_step [of "n - Suc 0" e r "Sd_AuthMember u q ch" s]
      parts_save authorize_rest_def authorizeChannelAccess_def split: sum.splits)

lemma parts_create:
  "8 \<le> n \<Longrightarrow> send_parts n e r (Sd_Exists u q, s) =
    (let (x, db) = findOrCreateDMChannel (at (at (me_fault e) C_Resolve) C_FindOrCreateDM) (rt_db s) u (sr_channel_id q)
     in case x of Inl _ \<Rightarrow> (not_found, set_db db s) | Inr ch \<Rightarrow> authorize_rest e u q ch (set_db db s))"
  by (simp add: parts_step [of n e r "Sd_Exists u q" s] parts_step [of "n - Suc 0" e r "Sd_Create u q" s]
      parts_authorize findOrCreateDMChannel_def Let_def split: sum.splits option.splits)

lemma parts_resolve:
  "10 \<le> n \<Longrightarrow> sr_channel_id q \<noteq> [] \<Longrightarrow> send_parts n e r (Sd_Type u q, s) =
    (let (x, db) = resolveRequestedChannel (at (me_fault e) C_Resolve) (rt_db s) u (sr_channel_id q)
     in case x of Inl _ \<Rightarrow> (not_found, set_db db s) | Inr ch \<Rightarrow> authorize_rest e u q ch (set_db db s))"
  by (simp add: parts_step [of n e r "Sd_Type u q" s] parts_step [of "n - Suc 0" e r "Sd_User u q" s]
      parts_authorize parts_create resolveRequestedChannel_def split: sum.splits)


subsection \<open>Any number of requests at once\<close>

text \<open>
  A state is the router and the program point of every request; request \<open>k\<close> has its own surroundings
  (clock, new identifier, which calls fail) and arrives as \<open>rs k\<close>.
\<close>

type_synonym conc = "router \<times> (nat \<Rightarrow> send_pc)"

inductive conc_step :: "(nat \<Rightarrow> msg_env \<times> request) \<Rightarrow> conc \<Rightarrow> conc \<Rightarrow> bool" for rs where
  cs_part: "send_part (fst (rs k)) (snd (rs k)) (p k) s = (pc, s') \<Longrightarrow> conc_step rs (s, p) (s', p(k := pc))"
| cs_database: "platform_step (rt_db s) db \<Longrightarrow> ids_plain db \<Longrightarrow> conc_step rs (s, p) (set_db db s, p)"
| cs_connection: "router_step s t \<Longrightarrow> rt_db t = rt_db s \<Longrightarrow> conc_step rs (s, p) (t, p)"

abbreviation conc_steps :: "(nat \<Rightarrow> msg_env \<times> request) \<Rightarrow> conc \<Rightarrow> conc \<Rightarrow> bool" where
  "conc_steps rs \<equiv> (conc_step rs)\<^sup>*\<^sup>*"

fun pc_plain :: "send_pc \<Rightarrow> bool" where
  "pc_plain (Sd_Type u q) = colon_free u"
| "pc_plain (Sd_User u q) = colon_free u"
| "pc_plain (Sd_Exists u q) \<longleftrightarrow> colon_free u \<and> colon_free (sr_channel_id q)"
| "pc_plain (Sd_Create u q) \<longleftrightarrow> colon_free u \<and> colon_free (sr_channel_id q)"
| "pc_plain _ = True"

definition conc_inv :: "conc \<Rightarrow> bool" where
  "conc_inv x \<longleftrightarrow> ids_plain (rt_db (fst x)) \<and> router_reach (fst x) \<and> (\<forall>k. pc_plain (snd x k))"

lemma part_plain:
  "send_part e r pc s = (pc', s') \<Longrightarrow> ids_plain (rt_db s) \<Longrightarrow> pc_plain pc \<Longrightarrow> pc_plain pc'"
  by (cases pc) (auto simp: Let_def authenticated_plain existing_plain split: if_splits option.splits sum.splits prod.splits)

lemma rt_db_set [simp]: "rt_db (set_db db s) = db"
  by (simp add: set_db_def)

lemma part_database:
  assumes "send_part e r pc s = (pc', s')" "pc_plain pc"
  shows "platform_steps (rt_db s) (rt_db s') \<and> t_users (rt_db s') = t_users (rt_db s) \<and> router_steps s s'"
proof (cases pc)
  case (Sd_Create u q)
  let ?i = "dm_id u (sr_channel_id q)" and ?f = "at (at (me_fault e) C_Resolve) C_FindOrCreateDM"
  show ?thesis
  proof (cases "dm_transaction ?f (rt_db s) ?i u (sr_channel_id q)")
    case None
    with assms Sd_Create show ?thesis by (simp add: Let_def)
  next
    case (Some db)
    with assms Sd_Create have s': "s' = set_db db s" and plain: "colon_free u" "colon_free (sr_channel_id q)"
      by (auto simp: Let_def)
    have "platform_step (rt_db s) db" using ps_dm [OF Some plain] .
    moreover have "t_users db = t_users (rt_db s)" using dm_transaction_rows [OF Some] by auto
    ultimately show ?thesis unfolding s' by (simp add: r_into_rtranclp)
  qed
next
  case (Sd_Save u q ch)
  obtain y db where sv: "SaveMessage (at (me_fault e) C_Save) (me_now e) (me_uuid e) (rt_db s) q u ch = (y, db)"
    by fastforce
  with assms Sd_Save have s': "s' = set_db db s" by (auto simp: Let_def)
  have "t_users db = t_users (rt_db s)" using message_writes [OF sv] by auto
  with ps_save [OF sv] show ?thesis unfolding s' by (simp add: r_into_rtranclp)
next
  case (Sd_Deliver m mt)
  with assms show ?thesis by (auto intro: r_into_rtranclp rs_deliver)
qed (use assms in \<open>auto simp: Let_def split: if_splits option.splits sum.splits\<close>)

lemma conc_step_inv:
  assumes "conc_step rs x y" and "conc_inv x"
  shows "platform_steps (rt_db (fst x)) (rt_db (fst y)) \<and> conc_inv y"
  using assms(1)
proof (cases rule: conc_step.cases)
  case (cs_part k p s pc s')
  have inv: "ids_plain (rt_db s)" "router_reach s" "\<And>k. pc_plain (p k)"
    using assms(2) cs_part(1) by (simp_all add: conc_inv_def)
  note run = part_database [OF cs_part(3) inv(3)]
  have "ids_plain (rt_db s')" using run inv(1) by (simp add: ids_plain_def)
  moreover have "router_reach s'" using run reach_steps inv(2) by blast
  ultimately show ?thesis
    using run part_plain [OF cs_part(3) inv(1) inv(3)] inv(3) cs_part(1,2) by (simp add: conc_inv_def)
next
  case (cs_database s db p)
  then show ?thesis using assms(2) rs_db rr_step by (auto simp: conc_inv_def)
next
  case (cs_connection s t p)
  then show ?thesis using assms(2) rr_step by (auto simp: conc_inv_def)
qed

interpretation conc_runs: simulation "conc_step rs" conc_inv platform_step "\<lambda>x. rt_db (fst x)" for rs
  by unfold_locales (use conc_step_inv in blast)+

text \<open>However the requests interleave, the constraints of all tables hold, the channels of the messaging
  service's declaration are direct channels of their two users, and no goroutine has panicked.\<close>

lemma concurrent_requests_safe:
  assumes "platform_reach (rt_db s0)" "router_reach s0" "ids_plain (rt_db s0)"
    and run: "conc_steps rs (s0, \<lambda>_. Sd_Start) (s, p)"
  shows "platform_inv (rt_db s) \<and> kind_inv (rt_db s) \<and> \<not> rt_panicked s"
proof -
  have inv: "conc_inv (s0, \<lambda>_. Sd_Start)" using assms(2,3) by (simp add: conc_inv_def)
  have "platform_steps (rt_db s0) (rt_db s)" using conc_runs.runs [OF run inv] by simp
  then have "platform_reach (rt_db s)" using assms(1) by (rule platform_runs.steps)
  moreover have "router_reach s" using conc_runs.steps [OF run inv] by (simp add: conc_inv_def)
  ultimately show ?thesis using reach_inv reach_kind router_reach_inv by (auto dest: clients_invD)
qed

subsection \<open>Access of concurrent senders\<close>

text \<open>The request has been authenticated as \<open>u\<close>, and has passed the access check for \<open>ch\<close>.\<close>

definition known_as :: "(nat \<Rightarrow> msg_env \<times> request) \<Rightarrow> nat \<Rightarrow> string \<Rightarrow> send_request \<Rightarrow> router \<Rightarrow> bool" where
  "known_as rs k u q s \<longleftrightarrow> authenticate (fst (rs k)) (rt_db s) (snd (rs k)) = Inr u \<and>
    me_decode_send (fst (rs k)) (rq_body (snd (rs k))) = Some q"

fun pc_sender :: "send_pc \<Rightarrow> (string \<times> send_request) option" where
  "pc_sender (Sd_Type u q) = Some (u, q)"
| "pc_sender (Sd_User u q) = Some (u, q)"
| "pc_sender (Sd_Exists u q) = Some (u, q)"
| "pc_sender (Sd_Create u q) = Some (u, q)"
| "pc_sender (Sd_AuthType u q ch) = Some (u, q)"
| "pc_sender (Sd_AuthMember u q ch) = Some (u, q)"
| "pc_sender (Sd_Save u q ch) = Some (u, q)"
| "pc_sender _ = None"

lemma part_sender:
  assumes "send_part e r pc s = (pc', s')" "pc_sender pc' = Some x"
  shows "pc_sender pc = Some x \<or> pc = Sd_Start \<and> authenticate e (rt_db s) r = Inr (fst x) \<and>
    me_decode_send e (rq_body r) = Some (snd x)"
  using assms
  by (cases pc) (auto simp: Let_def split: if_splits option.splits sum.splits prod.splits)

lemma part_granted:
  assumes "send_part e r pc s = (Sd_Save u q ch, s')"
  shows "channel_type (rt_db s) ch = Some ''public'' \<or> member_of (rt_db s) ch u"
  using assms
  by (cases pc) (auto simp: Let_def getChannelType_Inr isChannelMember_Inr
      split: if_splits option.splits sum.splits prod.splits)

abbreviation start_conc :: "router \<Rightarrow> conc" where
  "start_conc s \<equiv> (s, \<lambda>_. Sd_Start)"

lemma sender_known:
  assumes "conc_steps rs (start_conc s0) x" "pc_sender (snd x k) = Some (u, q)"
  shows "\<exists>y. conc_steps rs (start_conc s0) y \<and> known_as rs k u q (fst y) \<and> conc_steps rs y x"
  using assms
proof (induction rule: rtranclp_induct)
  case base
  then show ?case by simp
next
  case (step x z)
  have later: ?case if "pc_sender (snd x k) = Some (u, q)"
    using step.IH [OF that] step.hyps(2) by (meson rtranclp.rtrancl_into_rtrancl)
  from step.hyps(2) show ?case
  proof (cases rule: conc_step.cases)
    case (cs_part j p s pc s')
    show ?thesis
    proof (cases "j = k")
      case True
      with cs_part step.prems part_sender [OF cs_part(3)] have
        "pc_sender (snd x k) = Some (u, q) \<or> known_as rs k u q (fst x)"
        by (auto simp: known_as_def)
      then show ?thesis using later step.hyps by (meson r_into_rtranclp)
    qed (use cs_part step.prems later in auto)
  qed (use step.prems later in auto)
qed

lemma save_granted:
  assumes "conc_steps rs (start_conc s0) x" "snd x k = Sd_Save u q ch"
  shows "\<exists>y. conc_steps rs (start_conc s0) y \<and> pc_sender (snd y k) = Some (u, q) \<and>
    (channel_type (rt_db (fst y)) ch = Some ''public'' \<or> member_of (rt_db (fst y)) ch u) \<and> conc_steps rs y x"
  using assms
proof (induction rule: rtranclp_induct)
  case base
  then show ?case by simp
next
  case (step x z)
  have later: ?case if "snd x k = Sd_Save u q ch"
    using step.IH [OF that] step.hyps(2) by (meson rtranclp.rtrancl_into_rtrancl)
  from step.hyps(2) show ?case
  proof (cases rule: conc_step.cases)
    case (cs_part j p s pc s')
    show ?thesis
    proof (cases "j = k")
      case True
      with cs_part step.prems have sv: "send_part (fst (rs k)) (snd (rs k)) (snd x k) (fst x) = (Sd_Save u q ch, s')"
        by simp
      have "pc_sender (snd x k) = Some (u, q)" using part_sender [OF sv] sv
        by (auto split: if_splits option.splits sum.splits)
      with part_granted [OF sv] step.hyps show ?thesis by (meson r_into_rtranclp)
    qed (use cs_part step.prems later in auto)
  qed (use step.prems later in auto)
qed

lemma stored_message:
  assumes "send_part e r pc s = (Sd_Members m, s')" "pc \<noteq> Sd_Members m"
  shows "\<exists>q. pc = Sd_Save (msg_sender_id m) q (msg_channel_id m) \<and> messages_of (rt_db s') = messages_of (rt_db s) @ [m]"
  using assms
  by (cases pc) (auto simp: Let_def SaveMessage_def exec_insert_def ins_message_def messages_of_def
      split: if_splits option.splits sum.splits prod.splits)

text \<open>C8: However requests, services and connections interleave, whenever a request stores a message, it was
  authenticated as the sender at an earlier moment of the run, and at a moment between, the channel was
  public or the sender its member.  The message is stored even when that is no longer so.\<close>

theorem stored_sender_had_access:
  assumes "conc_steps rs (start_conc s0) (s, p)"
    and "send_part (fst (rs k)) (snd (rs k)) (p k) s = (Sd_Members m, s')" "p k \<noteq> Sd_Members m"
  shows "messages_of (rt_db s') = messages_of (rt_db s) @ [m] \<and>
    (\<exists>x y. conc_steps rs (start_conc s0) x \<and> conc_steps rs x y \<and> conc_steps rs y (s, p) \<and>
      authenticate (fst (rs k)) (rt_db (fst x)) (snd (rs k)) = Inr (msg_sender_id m) \<and>
      (channel_type (rt_db (fst y)) (msg_channel_id m) = Some ''public'' \<or>
       member_of (rt_db (fst y)) (msg_channel_id m) (msg_sender_id m)))"
proof -
  obtain q where pc: "p k = Sd_Save (msg_sender_id m) q (msg_channel_id m)"
    and stored: "messages_of (rt_db s') = messages_of (rt_db s) @ [m]"
    using stored_message [OF assms(2,3)] by blast
  obtain y where y: "conc_steps rs (start_conc s0) y" "pc_sender (snd y k) = Some (msg_sender_id m, q)"
      "conc_steps rs y (s, p)" and access: "channel_type (rt_db (fst y)) (msg_channel_id m) = Some ''public'' \<or>
       member_of (rt_db (fst y)) (msg_channel_id m) (msg_sender_id m)"
    using save_granted [OF assms(1), of k] pc by auto
  obtain x where "conc_steps rs (start_conc s0) x" "known_as rs k (msg_sender_id m) q (fst x)" "conc_steps rs x y"
    using sender_known [OF y(1,2)] by blast
  with stored y access show ?thesis unfolding known_as_def by blast
qed

subsection \<open>Two first messages of a pair\<close>

lemma transaction_access:
  assumes "dm_transaction f db i u v = Some db'"
  shows "channel_type db' i = Some ''dm'' \<and> may_access db' u i \<and> may_access db' v i"
proof -
  obtain cs ms where r: "t_channels db = Some cs" "t_members db = Some ms" "i \<notin> ch_id ` set cs"
    and db': "db' = db\<lparr>t_channels := Some (cs @ [dm_channel i]),
      t_members := Some (ms @ [dm_member DDL_Messaging i u, dm_member DDL_Messaging i v])\<rparr>"
    using dm_transaction_rows [OF assms] by auto
  have "find (\<lambda>c. ch_id c = i) (cs @ [dm_channel i]) = Some (dm_channel i)"
    by (rule find_snoc_new) (use r(3) in \<open>auto simp: dm_channel_def\<close>)
  then show ?thesis
    by (simp add: db' may_access_def channel_type_def member_of_def dm_channel_def dm_member_def)
qed

lemma create_loses:
  assumes "channel_type (rt_db s) (dm_id u (sr_channel_id q)) \<noteq> None"
  shows "send_part e r (Sd_Create u q) s = (not_found, s)"
proof -
  have "dm_transaction f (rt_db s) (dm_id u (sr_channel_id q)) u (sr_channel_id q) \<noteq> Some db" for f db
  proof
    assume "dm_transaction f (rt_db s) (dm_id u (sr_channel_id q)) u (sr_channel_id q) = Some db"
    then obtain cs where "t_channels (rt_db s) = Some cs" "dm_id u (sr_channel_id q) \<notin> ch_id ` set cs"
      using dm_transaction_rows by blast
    then have "channel_type (rt_db s) (dm_id u (sr_channel_id q)) = None"
      unfolding channel_type_None by (metis image_eqI option.inject)
    with assms show False by simp
  qed
  then show ?thesis by (simp add: Let_def split: option.split)
qed

lemma create_wins:
  assumes "send_part e r (Sd_Create u q) s = (Sd_AuthType u' q' ch, t)"
  shows "\<exists>f db. dm_transaction f (rt_db s) ch u (sr_channel_id q) = Some db \<and> t = set_db db s \<and>
    ch = dm_id u (sr_channel_id q)"
proof (cases "dm_transaction (at (at (me_fault e) C_Resolve) C_FindOrCreateDM) (rt_db s) (dm_id u (sr_channel_id q)) u (sr_channel_id q)")
  case None
  with assms show ?thesis by (simp add: Let_def)
next
  case (Some db)
  with assms have "t = set_db db s" "ch = dm_id u (sr_channel_id q)" by (auto simp: Let_def)
  with Some show ?thesis by blast
qed

text \<open>C24: When two requests send the first message of a pair of users and both have seen that there is no
  channel yet, only one of them creates it.  The other one, whose sender has access to the new channel
  too, is answered 404 whenever it goes on while the channel exists, and stores nothing.\<close>

theorem dm_race_loser:
  assumes "conc_steps rs (start_conc s0) (s, p)" "j \<noteq> k"
    and "p j = Sd_Create u q" "p k = Sd_Create v q'" "{u, sr_channel_id q} = {v, sr_channel_id q'}"
    and "send_part (fst (rs k)) (snd (rs k)) (p k) s = (Sd_AuthType v q' ch, t)"
  shows "may_access (rt_db t) u ch \<and> may_access (rt_db t) v ch \<and>
    (\<forall>t2 p2. channel_type (rt_db t2) ch \<noteq> None \<and> p2 j = Sd_Create u q \<longrightarrow>
      send_part (fst (rs j)) (snd (rs j)) (p2 j) t2 = (Sd_Done (Http_Error 404 ''channel not found''), t2)) \<and>
    conc_steps rs (start_conc s0)
      (t, p(k := Sd_AuthType v q' ch, j := Sd_Done (Http_Error 404 ''channel not found'')))"
proof -
  obtain f db where tx: "dm_transaction f (rt_db s) ch v (sr_channel_id q') = Some db"
    and t: "t = set_db db s" and ch: "ch = dm_id v (sr_channel_id q')"
    using create_wins [OF assms(6) [unfolded assms(4)]] by blast
  have pair: "u = v \<and> sr_channel_id q = sr_channel_id q' \<or> u = sr_channel_id q' \<and> sr_channel_id q = v"
    using assms(5) by (simp add: doubleton_eq_iff)
  then have same: "dm_id u (sr_channel_id q) = ch" unfolding ch using dm_id_sym by metis
  have made: "channel_type (rt_db t) ch \<noteq> None" "may_access (rt_db t) v ch" "may_access (rt_db t) (sr_channel_id q') ch"
    using transaction_access [OF tx] by (simp_all add: t)
  then have access: "may_access (rt_db t) u ch" using pair by blast
  have loses: "send_part e r (Sd_Create u q) t2 = (not_found, t2)" if "channel_type (rt_db t2) ch \<noteq> None" for t2 e r
    using create_loses [of t2 u q] that same by simp
  let ?p = "p(k := Sd_AuthType v q' ch)"
  have "conc_step rs (s, p) (t, ?p)" using assms(6) by (rule cs_part)
  moreover have "conc_step rs (t, ?p) (t, ?p(j := not_found))"
    by (rule cs_part) (use loses made assms(2,3) in simp)
  ultimately have "conc_steps rs (start_conc s0) (t, ?p(j := not_found))"
    using assms(1) by (meson rtranclp.rtrancl_into_rtrancl)
  then show ?thesis using access made loses by simp
qed

subsection \<open>Concrete runs\<close>

lemma parts_run:
  "send_parts n (fst (rs k)) (snd (rs k)) (p k, s) = (pc, t) \<Longrightarrow> conc_steps rs (s, p) (t, p(k := pc))"
proof (induction n arbitrary: p s)
  case (Suc n)
  obtain pc' s' where part: "send_part (fst (rs k)) (snd (rs k)) (p k) s = (pc', s')" by fastforce
  with Suc.prems have "send_parts n (fst (rs k)) (snd (rs k)) ((p(k := pc')) k, s') = (pc, t)" by simp
  from Suc.IH [of "p(k := pc')", OF this] have "conc_steps rs (s', p(k := pc')) (t, p(k := pc))" by (simp only: fun_upd_upd)
  with cs_part [of rs k p s pc' s', OF part] show ?case by (rule converse_rtranclp_into_rtranclp)
qed (auto simp: fun_upd_idem)

lemma parts_run_fst:
  "fst (send_parts n (fst (rs k)) (snd (rs k)) (p k, s)) = pc \<Longrightarrow>
    conc_steps rs (s, p) (snd (send_parts n (fst (rs k)) (snd (rs k)) (p k, s)), p(k := pc))"
  by (rule parts_run) auto

text \<open>Two users who write to each other for the first time.\<close>

definition ex_pair_db :: platform_db where
  "ex_pair_db = (start_all [Messaging, Auth] empty_db)
     \<lparr>t_users := Some [ex_user ''a'' ''a'', ex_user ''b'' ''b'']\<rparr>"

definition ex_pair :: "nat \<Rightarrow> msg_env \<times> request" where
  "ex_pair k = (if k = 0 then (ex_env, ex_req ''POST'' ''a'' ''b'')
     else (ex_env\<lparr>me_uuid := ''m2''\<rparr>, ex_req ''POST'' ''b'' ''a''))"

abbreviation ex_seen :: "nat \<Rightarrow> router \<Rightarrow> send_pc \<times> router" where
  "ex_seen k s \<equiv> send_parts 4 (fst (ex_pair k)) (snd (ex_pair k)) (Sd_Start, s)"

definition ex_both :: router where
  "ex_both = snd (ex_seen 1 (snd (ex_seen 0 (NewMessageRouter ex_pair_db))))"

abbreviation ex_asks :: "string \<Rightarrow> send_request" where
  "ex_asks ch \<equiv> \<lparr>sr_channel_id = ch, sr_content = ''hi'', sr_nonce = [], sr_signature = [], sr_type = 0\<rparr>"

theorem dm_race_loser_witness:
  "\<exists>t p. conc_steps ex_pair (start_conc (NewMessageRouter ex_pair_db)) (t, p) \<and>
    p 0 = Sd_AuthType ''a'' (ex_asks ''b'') (dm_id ''a'' ''b'') \<and>
    p 1 = Sd_Done (Http_Error 404 ''channel not found'') \<and> may_access (rt_db t) ''b'' (dm_id ''a'' ''b'')"
proof -
  let ?start = "NewMessageRouter ex_pair_db" and ?qa = "ex_asks ''b''" and ?qb = "ex_asks ''a''"
  let ?first = "(\<lambda>_. Sd_Start)(0 := Sd_Create ''a'' ?qa)"
  have seen: "fst (ex_seen 0 ?start) = Sd_Create ''a'' ?qa" "fst (ex_seen 1 (snd (ex_seen 0 ?start))) = Sd_Create ''b'' ?qb"
    by code_simp+
  let ?after = "snd (ex_seen 0 ?start)"
  have run1: "conc_steps ex_pair (start_conc ?start) (?after, ?first)"
    using parts_run_fst [of 4 ex_pair 0 "\<lambda>_. Sd_Start" ?start] seen(1) by (simp del: send_parts.simps)
  have run2: "conc_steps ex_pair (?after, ?first) (ex_both, ?first(1 := Sd_Create ''b'' ?qb))"
    unfolding ex_both_def
    by (rule parts_run_fst [of 4 ex_pair 1 ?first ?after, simplified fun_upd_other [OF one_neq_zero]]) (rule seen(2))
  note run = rtranclp_trans [OF run1 run2]
  obtain t where step: "send_part (fst (ex_pair 0)) (snd (ex_pair 0)) (Sd_Create ''a'' ?qa) ex_both
      = (Sd_AuthType ''a'' ?qa (dm_id ''a'' ''b''), t)"
  proof -
    have "fst (send_part (fst (ex_pair 0)) (snd (ex_pair 0)) (Sd_Create ''a'' ?qa) ex_both)
      = Sd_AuthType ''a'' ?qa (dm_id ''a'' ''b'')" by code_simp
    from reply_with [OF this] that show ?thesis by blast
  qed
  let ?p = "?first(1 := Sd_Create ''b'' ?qb, 0 := Sd_AuthType ''a'' ?qa (dm_id ''a'' ''b''), 1 := not_found)"
  have "may_access (rt_db t) ''b'' (dm_id ''a'' ''b'') \<and> conc_steps ex_pair (start_conc ?start) (t, ?p)"
    using dm_race_loser [OF run, of 1 0 "''b''" ?qb "''a''" ?qa] step
    by (simp del: send_part.simps add: insert_commute)
  then show ?thesis by (intro exI [of _ t] exI [of _ ?p]) simp
qed

text \<open>A member who is removed between the access check of a request and its storing.\<close>

definition ex_member_db :: platform_db where
  "ex_member_db = (start_all [Admin, Messaging] empty_db)
     \<lparr>t_users := Some [ex_user ''b'' ''b''], t_channels := Some [(dm_channel ''g'')\<lparr>ch_type := ''group''\<rparr>],
      t_members := Some [dm_member DDL_Admin ''g'' ''b'']\<rparr>"

definition ex_post :: "nat \<Rightarrow> msg_env \<times> request" where
  "ex_post k = (ex_env, ex_req ''POST'' ''b'' ''g'')"

abbreviation ex_checked :: "send_pc \<times> router" where
  "ex_checked \<equiv> send_parts 4 ex_env (ex_req ''POST'' ''b'' ''g'') (Sd_Start, NewMessageRouter ex_member_db)"

abbreviation ex_unmembered :: platform_db where
  "ex_unmembered \<equiv> snd (admin_serve (R_Remove_Member ''g'' ''b'') (ex_admin_env 5) (ex_admin_req []) (rt_db (snd ex_checked)))"

theorem stored_sender_had_access_witness:
  "\<exists>s p s' m. conc_steps ex_post (start_conc (NewMessageRouter ex_member_db)) (s, p) \<and>
    send_part (fst (ex_post 0)) (snd (ex_post 0)) (p 0) s = (Sd_Members m, s') \<and>
    messages_of (rt_db s') = messages_of (rt_db s) @ [m] \<and>
    msg_sender_id m = ''b'' \<and> msg_channel_id m = ''g'' \<and> \<not> may_access (rt_db s) ''b'' ''g''"
proof -
  let ?start = "NewMessageRouter ex_member_db" and ?p = "(\<lambda>_. Sd_Start)(0 := Sd_Save ''b'' (ex_asks ''g'') ''g'')"
  let ?s = "set_db ex_unmembered (snd ex_checked)"
  let ?m = "\<lparr>msg_id = ''m1'', msg_channel_id = ''g'', msg_sender_id = ''b'', msg_timestamp = 5000, msg_type = 0,
    msg_content = ''hi'', msg_nonce = [], msg_signature = []\<rparr>"
  have checked: "fst ex_checked = Sd_Save ''b'' (ex_asks ''g'') ''g''" by code_simp
  have "conc_steps ex_post (start_conc ?start) (snd ex_checked, ?p)"
    using parts_run_fst [of 4 ex_post 0 "\<lambda>_. Sd_Start" ?start] checked by (simp add: ex_post_def del: send_parts.simps)
  moreover have "conc_step ex_post (snd ex_checked, ?p) (?s, ?p)"
  proof (rule cs_database)
    show "platform_step (rt_db (snd ex_checked)) ex_unmembered" by (rule ps_admin)
    have "t_users ex_unmembered = Some [ex_user ''b'' ''b'']" by code_simp
    then show "ids_plain ex_unmembered" by (simp add: ids_plain_def ex_user_def colon_free_def)
  qed
  ultimately have run: "conc_steps ex_post (start_conc ?start) (?s, ?p)" by (rule rtranclp.rtrancl_into_rtrancl)
  have "fst (send_part (fst (ex_post 0)) (snd (ex_post 0)) (Sd_Save ''b'' (ex_asks ''g'') ''g'') ?s) = Sd_Members ?m"
    by code_simp
  then obtain s' where step: "send_part (fst (ex_post 0)) (snd (ex_post 0)) (?p 0) ?s = (Sd_Members ?m, s')"
    using reply_with by fastforce
  have gone: "\<not> may_access (rt_db ?s) ''b'' ''g''" by code_simp
  have "messages_of (rt_db s') = messages_of (rt_db ?s) @ [?m]"
    using stored_sender_had_access [OF run, of 0 ?m s'] step by (simp del: send_part.simps)
  with run step gone show ?thesis by (intro exI [of _ ?s] exI [of _ ?p] exI [of _ s'] exI [of _ ?m]) simp
qed

end
