(* ===== verification/Startup.thy ===== *)
theory Startup
  imports Accounts AdminServer MessagingProps AuditChain Cluster
begin

section \<open>Starting the processes: configuration, files and default accounts\<close>

text \<open>
  The \<open>main\<close> functions of the four services that keep a database: where each one looks for its file,
  what it does before it serves, and on which errors it ends.  The environment variables, the
  outcome of \<open>os.MkdirAll\<close> and of the schema statements are arguments; the files are a map from paths
  to databases.  A failed schema statement leaves the file as it was, and relative paths are taken from one working
  directory.  The platform's theorems are about services on one file; here is when they share one, and
  what happens when they do not.
\<close>

subsection \<open>Paths\<close>

text \<open>\<open>path/filepath\<close> on Unix; the elements of the result are kept in reverse.\<close>

fun clean_elems :: "bool \<Rightarrow> string list \<Rightarrow> string list \<Rightarrow> string list" where
  "clean_elems rooted out [] = rev out"
| "clean_elems rooted out (e # es) =
    (if e = [] \<or> e = ''.'' then clean_elems rooted out es
     else if e = ''..'' then
       (case out of
          [] \<Rightarrow> clean_elems rooted (if rooted then [] else [e]) es
        | x # xs \<Rightarrow> clean_elems rooted (if x = ''..'' then e # out else xs) es)
     else clean_elems rooted (e # out) es)"

fun join_path :: "string list \<Rightarrow> string" where
  "join_path [] = []"
| "join_path [e] = e"
| "join_path (e # es) = e @ CHR ''/'' # join_path es"

definition Clean :: "string \<Rightarrow> string" where
  "Clean p =
    (let rooted = (p \<noteq> [] \<and> hd p = CHR ''/'');
         body = join_path (clean_elems rooted [] (split_on (CHR ''/'') p))
     in if rooted then CHR ''/'' # body else if body = [] then ''.'' else body)"

definition Dir :: "string \<Rightarrow> string" where
  "Dir p = (case last_index_byte p (CHR ''/'') of None \<Rightarrow> Clean [] | Some i \<Rightarrow> Clean (take (Suc i) p))"

subsection \<open>The mains\<close>

record process_env =
  pr_getenv :: "string \<Rightarrow> string"
  pr_mkdir_fails :: "string \<Rightarrow> bool"
  pr_schema_fails :: bool

text \<open>The text before the error of \<open>log.Fatalf\<close>, or the address that is listened on.\<close>

datatype outcome = Fatal string | Serving string

definition env_or :: "process_env \<Rightarrow> string \<Rightarrow> string \<Rightarrow> string" where
  "env_or pe var val = (if pr_getenv pe var = [] then val else pr_getenv pe var)"

type_synonym files = "string \<Rightarrow> platform_db"

definition auth_db_path :: "process_env \<Rightarrow> string" where
  "auth_db_path pe = env_or pe ''AUTH_DB_PATH'' ''data/users.db''"

definition auth_main :: "process_env \<Rightarrow> auth_env \<Rightarrow> bool \<Rightarrow> files \<Rightarrow> outcome \<times> files" where
  "auth_main pe e f0 fs =
    (let dbPath = auth_db_path pe in
     if pr_mkdir_fails pe (Dir dbPath) then (Fatal ''Failed to create database directory: '', fs)
     else if pr_schema_fails pe then (Fatal ''Failed to initialize auth service: '', fs)
     else (Serving (CHR '':'' # env_or pe ''PORT'' ''8086''), fs(dbPath := auth_main_init e f0 (fs dbPath))))"

definition messaging_db_path :: "process_env \<Rightarrow> string" where
  "messaging_db_path pe = env_or pe ''MESSAGING_DB_PATH'' ''data/chat.db''"

definition messaging_main :: "process_env \<Rightarrow> files \<Rightarrow> outcome \<times> files" where
  "messaging_main pe fs =
    (let dbPath = messaging_db_path pe in
     if pr_mkdir_fails pe (Dir dbPath) then (Fatal ''Failed to create data directory: '', fs)
     else if pr_schema_fails pe then (Fatal ''Failed to initialize router: '', fs)
     else (Serving (CHR '':'' # env_or pe ''PORT'' ''8081''),
           fs(dbPath := rt_db (NewMessageRouter (fs dbPath)))))"

definition presence_db_path :: "process_env \<Rightarrow> string" where
  "presence_db_path pe = env_or pe ''PRESENCE_DB_PATH'' ''data/presence.db''"

definition presence_main :: "process_env \<Rightarrow> files \<Rightarrow> outcome \<times> files" where
  "presence_main pe fs =
    (let dbPath = presence_db_path pe in
     if pr_mkdir_fails pe (Dir dbPath) then (Fatal ''Failed to create data dir: '', fs)
     else if pr_schema_fails pe then (Fatal ''Failed to init presence service: '', fs)
     else (Serving '':8083'', fs(dbPath := presence_initDB (fs dbPath))))"

text \<open>The directory is \<open>data\<close> wherever the database is.\<close>

definition admin_db_path :: "process_env \<Rightarrow> string" where
  "admin_db_path pe = env_or pe ''ADMIN_DB_PATH'' ''data/admin.db''"

definition admin_main :: "process_env \<Rightarrow> admin_env \<Rightarrow> files \<Rightarrow> outcome \<times> files" where
  "admin_main pe e fs =
    (let dbPath = admin_db_path pe in
     if pr_mkdir_fails pe ''data'' then (Fatal [], fs)
     else if pr_schema_fails pe then (Fatal [], fs)
     else (Serving (CHR '':'' # env_or pe ''PORT'' ''8090''),
           fs(dbPath := EnsureSuperAdmin e ''admin'' ''admin'' (admin_migrate (fs dbPath)))))"

text \<open>The services without a database.  The audit service appends to the file it finds, with a new chain.\<close>

definition audit_main :: "process_env \<Rightarrow> bool \<Rightarrow> string \<Rightarrow> outcome \<times> audit_service option" where
  "audit_main pe open_fails file =
    (if pr_mkdir_fails pe ''data'' then (Fatal ''Failed to create data directory: '', None)
     else if open_fails then (Fatal ''Failed to open audit log: '', None)
     else (Serving '':8084'', Some (NewAuditService file)))"

definition file_main :: "process_env \<Rightarrow> outcome" where
  "file_main pe =
    (if pr_mkdir_fails pe ''./storage'' then Fatal ''Failed to create storage dir: '' else Serving '':8082'')"

definition cluster_main :: "process_env \<Rightarrow> outcome \<times> raft_node" where
  "cluster_main pe =
    (Serving (CHR '':'' # env_or pe ''PORT'' ''8085''),
     NewRaftNode (node_id_from_env (pr_getenv pe ''NODE_ID'')) ''./raft-data'' '':10001'')"

text \<open>Without \<open>PORT\<close>, the services that start on one host listen on different ports; four of them take any
  \<open>PORT\<close> that the environment sets.\<close>

lemma addresses_distinct:
  assumes "pr_getenv pe ''PORT'' = []"
    and "fst (auth_main pe e f0 fs) = Serving a1" "fst (messaging_main pe fs) = Serving a2"
      "fst (presence_main pe fs) = Serving a3" "fst (admin_main pe ae fs) = Serving a4"
      "fst (audit_main pe open_fails file) = Serving a5" "file_main pe = Serving a6" "fst (cluster_main pe) = Serving a7"
  shows "distinct [a1, a2, a3, a4, a5, a6, a7]"
  using assms
  by (simp add: auth_main_def messaging_main_def presence_main_def admin_main_def audit_main_def file_main_def
      cluster_main_def env_or_def Let_def split: if_splits) auto

fun db_path :: "(service \<Rightarrow> process_env) \<Rightarrow> service \<Rightarrow> string" where
  "db_path pes Auth = auth_db_path (pes Auth)"
| "db_path pes Messaging = messaging_db_path (pes Messaging)"
| "db_path pes Presence = presence_db_path (pes Presence)"
| "db_path pes Admin = admin_db_path (pes Admin)"

text \<open>A service that creates its directory creates the one its database is in.\<close>

lemma default_directories:
  "Dir ''data/users.db'' = ''data''" "Dir ''data/chat.db'' = ''data''" "Dir ''data/presence.db'' = ''data''"
  "Dir ''/app/data/platform.db'' = ''/app/data''" "Dir ''../../deploy//data/./x/../platform.db'' = ''../../deploy/data''"
  "Dir ''platform.db'' = ''.''"
  by code_simp+

subsection \<open>The services on their files\<close>

text \<open>Which steps of the platform are those of which service.\<close>

inductive service_step :: "service \<Rightarrow> platform_db \<Rightarrow> platform_db \<Rightarrow> bool" where
  ss_start: "service_step sv db (start_service sv db)"
| ss_super_admin: "service_step Admin db (EnsureSuperAdmin ae n p db)"
| ss_admin: "service_step Admin db (snd (admin_serve ro ae r db))"
| ss_admin_login: "service_step Admin db (snd (AdminLoginHandler ae r db))"
| ss_register: "service_step Auth db (snd (RegisterHandler e w r db))"
| ss_login: "service_step Auth db (snd (LoginHandler e w r db))"
| ss_default_user: "service_step Auth db (snd (ensureDefaultUser e f0 n p g db))"
| ss_presence: "service_step Presence db (presence_step ev db)"
| ss_dm: "dm_transaction f db (dm_id a b) a b = Some db' \<Longrightarrow> colon_free a \<Longrightarrow> colon_free b \<Longrightarrow>
    service_step Messaging db db'"
| ss_save: "SaveMessage f now uid db q u ch = (x, db') \<Longrightarrow> service_step Messaging db db'"

inductive_cases messaging_stepE: "service_step Messaging db db'"
inductive_cases presence_stepE: "service_step Presence db db'"

lemma service_platform: "service_step sv db db' \<Longrightarrow> platform_step db db'"
  by (induction rule: service_step.induct) (auto intro: platform_step.intros)

text \<open>Conversely, no step of the platform is left out.\<close>

lemma platform_service: "platform_step db db' \<Longrightarrow> \<exists>sv. service_step sv db db'"
  by (induction rule: platform_step.induct) (blast intro: service_step.intros)+

inductive files_step :: "(service \<Rightarrow> string) \<Rightarrow> files \<Rightarrow> files \<Rightarrow> bool" for conf where
  fst_service: "service_step sv (fs (conf sv)) db \<Longrightarrow> files_step conf fs (fs(conf sv := db))"

inductive_simps files_step_iff: "files_step conf fs fs'"

abbreviation files_steps :: "(service \<Rightarrow> string) \<Rightarrow> files \<Rightarrow> files \<Rightarrow> bool" where
  "files_steps conf \<equiv> (files_step conf)\<^sup>*\<^sup>*"

text \<open>On every file, the services that use it perform steps of the platform.\<close>

interpretation one_file: simulation "files_step conf" "\<lambda>_. True" platform_step "\<lambda>fs. fs p" for conf p
  by unfold_locales (auto simp: files_step_iff service_platform r_into_rtranclp)

lemma start_files:
  "service_step sv (fs (conf sv)) db \<Longrightarrow> files_steps conf fs (fs(conf sv := db))"
  by (blast intro: r_into_rtranclp fst_service)

lemma start_then:
  assumes "service_step sv (start_service sv (fs (conf sv))) db"
  shows "files_steps conf fs (fs(conf sv := db))"
proof -
  let ?mid = "fs(conf sv := start_service sv (fs (conf sv)))"
  have "files_steps conf fs ?mid" by (rule start_files [OF ss_start])
  also have "files_steps conf ?mid (fs(conf sv := db))"
    using start_files [of sv ?mid conf db] assms by simp
  finally show ?thesis .
qed

text \<open>Every start of a process is such a run, whether it serves or ends with an error.\<close>

lemma starts_are_steps:
  "files_steps (db_path pes) fs (snd (auth_main (pes Auth) e f0 fs))"
  "files_steps (db_path pes) fs (snd (messaging_main (pes Messaging) fs))"
  "files_steps (db_path pes) fs (snd (presence_main (pes Presence) fs))"
  "files_steps (db_path pes) fs (snd (admin_main (pes Admin) ae fs))"
proof -
  show "files_steps (db_path pes) fs (snd (auth_main (pes Auth) e f0 fs))"
    using start_then [of Auth fs "db_path pes", OF ss_default_user [of _ e f0 "''admin''" "''password''" "''admin''"]]
    by (simp add: auth_main_def auth_main_init_def Let_def)
  show "files_steps (db_path pes) fs (snd (messaging_main (pes Messaging) fs))"
    using start_files [of Messaging fs "db_path pes", OF ss_start]
    by (simp add: messaging_main_def NewMessageRouter_def Let_def)
  show "files_steps (db_path pes) fs (snd (presence_main (pes Presence) fs))"
    using start_files [of Presence fs "db_path pes", OF ss_start] by (simp add: presence_main_def Let_def)
  show "files_steps (db_path pes) fs (snd (admin_main (pes Admin) ae fs))"
    using start_then [of Admin fs "db_path pes", OF ss_super_admin [of _ ae "''admin''" "''admin''"]]
    by (simp add: admin_main_def Let_def)
qed

subsection \<open>One file\<close>

lemma other_files:
  assumes "files_steps conf fs fs'" "\<And>sv. conf sv \<noteq> q"
  shows "fs' q = fs q"
  using assms(1) by (induction rule: rtranclp_induct) (auto simp: files_step_iff assms(2) [symmetric])


subsection \<open>Separate files\<close>

lemma start_keeps_users: "sv \<in> {Messaging, Presence} \<Longrightarrow> t_users (start_service sv db) = t_users db"
  by (auto simp: init_defs split: option.splits)

lemma service_keeps_users:
  assumes "service_step sv db db'" "sv \<in> {Messaging, Presence}"
  shows "t_users db' = t_users db"
  using assms
proof (induction rule: service_step.induct)
  case (ss_presence db ev)
  then show ?case using presence_writes [of ev db] by auto
next
  case (ss_dm f db a b db')
  then show ?case using dm_transaction_rows by fastforce
next
  case (ss_save f now uid db q u ch x db')
  then show ?case using message_writes by fastforce
qed (auto simp: start_keeps_users)

text \<open>A file that neither the auth nor the admin service uses has no users.\<close>

lemma no_users_run:
  assumes "files_steps conf fs fs'" "conf Auth \<noteq> q" "conf Admin \<noteq> q" "t_users (fs q) = None"
  shows "t_users (fs' q) = None"
  using assms(1)
proof (induction rule: rtranclp_induct)
  case (step fs1 fs2)
  then obtain sv db where sv: "service_step sv (fs1 (conf sv)) db" "fs2 = fs1(conf sv := db)"
    by (auto simp: files_step_iff)
  show ?case
  proof (cases "conf sv = q")
    case True
    with assms(2,3) have "sv \<in> {Messaging, Presence}" by (cases sv) auto
    with service_keeps_users [OF sv(1)] True sv(2) step.IH show ?thesis by simp
  qed (use step.IH sv(2) in simp)
qed (rule assms(4))

lemma nobody_authenticates: "t_users db = None \<Longrightarrow> authenticate e db r = Inl ErrUnauthorized"
  by (simp add: authenticate_def findUserIDByUsername_def lift_db_def query_row_def query_def Let_def
      split: option.splits)

lemma separate_files_lock_out:
  assumes "db_path pes Auth \<noteq> db_path pes Messaging" "db_path pes Admin \<noteq> db_path pes Messaging"
    and "files_steps (db_path pes) (\<lambda>_. empty_db) fs" and "rt_db s = fs (db_path pes Messaging)"
  shows "snd (sendHandler e w r s) = s \<and> status_of (fst (sendHandler e w r s)) \<in> {400, 401, 405} \<and>
    HistoryHandler e w r s = (unauthorized, s) \<and> HandleWS e up w r s = (unauthorized, s) \<and>
    ChannelsHandler e w r s \<in> {(Http_Error 405 ''Method not allowed'', s), (unauthorized, s)} \<and>
    ChannelMembersHandler e w r s \<in> {(Http_Error 405 ''Method not allowed'', s), (unauthorized, s)} \<and>
    CreateDMHandler e w r s \<in> {(Http_Error 405 ''Method not allowed'', s), (unauthorized, s)}"
proof -
  have "t_users (rt_db s) = None"
    using no_users_run [OF assms(3,1,2)] assms(4) by (simp add: empty_db_def)
  then have "authenticate e (rt_db s) r = Inl ErrUnauthorized" by (rule nobody_authenticates)
  then show ?thesis
    by (auto simp: handler_defs Let_def unauthorized_def split: option.split)
qed


subsection \<open>Default accounts\<close>

lemma auth_main_default:
  assumes "auth_main pe e False fs = (Serving a, fs')" and "argon2_length e" "au_salt e \<noteq> None" "\<not> au_fault e"
    and "t_users (fs (auth_db_path pe)) = None" "t_roles (fs (auth_db_path pe)) = None" "au_argon2 e' = au_argon2 e"
  shows "\<exists>u. t_users (fs' (auth_db_path pe)) = Some [u] \<and> t_roles (fs' (auth_db_path pe)) = Some [] \<and>
    usr_id u = au_uuid e \<and> usr_username u = ''admin'' \<and> usr_role_id u = Some ''admin'' \<and>
    VerifyPassword e' ''password'' (usr_password_hash u) = Some True"
proof -
  obtain salt where salt: "au_salt e = Some salt" using assms(3) by blast
  obtain hash where hash: "HashPassword e ''password'' = Some hash"
    using salt by (auto simp: HashPassword_Some)
  have "VerifyPassword e' ''password'' hash = Some True"
    using verify_hash [OF assms(2) hash salt assms(7), of "''password''"] by simp
  moreover have "fs' (auth_db_path pe) = auth_main_init e False (fs (auth_db_path pe))"
    using assms(1) by (auto simp: auth_main_def Let_def split: if_splits)
  ultimately show ?thesis
    using hash assms(4-6)
    by (simp add: auth_main_init_def ensureDefaultUser_def query_exists_def query_def auth_initDB_def
        exec_insert_def ins_user_def create_def Let_def)
qed

lemma admin_main_default:
  assumes "admin_main pe e fs = (Serving a, fs')" and "ad_bcrypt_hash e ''admin'' = Some hash"
    and "t_admin_users (fs (admin_db_path pe)) = None" "\<And>p. \<not> ad_fault e p"
  shows "t_admin_users (fs' (admin_db_path pe)) = Some [\<lparr>adm_id = ad_uuid e, adm_username = ''admin'',
    adm_password_hash = hash, adm_role = ''super_admin'', adm_created_at = unix_sec (ad_now e),
    adm_updated_at = unix_sec (ad_now e)\<rparr>]"
proof -
  have fs': "fs' (admin_db_path pe) = EnsureSuperAdmin e ''admin'' ''admin'' (admin_migrate (fs (admin_db_path pe)))"
    using assms(1) by (auto simp: admin_main_def Let_def split: if_splits)
  have "t_admin_users (admin_migrate (fs (admin_db_path pe))) = Some []"
    using assms(3) by (simp add: init_defs create_def split: option.split)
  then show ?thesis
    using assms(2,4) unfolding fs'
    by (simp add: EnsureSuperAdmin_def query_def CreateAdminUser_def exec_insert_def ins_admin_user_def Let_def)
qed

text \<open>After a first start the accounts that the programs create are open to everybody: \<open>admin\<close> with
  \<open>password\<close> logs in at the auth service as an admin, and \<open>admin\<close> with \<open>admin\<close> at the admin service as super_admin.
  No configuration changes these names or passwords.\<close>

theorem default_accounts_open:
  assumes auth: "auth_main pe e False fs = (Serving a, fs')" "argon2_length e" "au_salt e \<noteq> None" "\<not> au_fault e"
      "t_users (fs (auth_db_path pe)) = None" "t_roles (fs (auth_db_path pe)) = None"
    and login: "au_argon2 e' = au_argon2 e" "\<not> au_fault e'" "rq_method r = ''POST''"
      "au_decode_login e' (rq_body r) = Some \<lparr>lr_username = ''admin'', lr_password = ''password''\<rparr>"
      "GenerateToken e' ''admin'' ''admin'' = Some tok"
    and admin: "admin_main pe2 ae fs2 = (Serving a2, fs2')" "ad_bcrypt_hash ae ''admin'' = Some hash"
      "t_admin_users (fs2 (admin_db_path pe2)) = None" "\<And>p. \<not> ad_fault ae p"
    and admin_login: "ad_bcrypt_check ae' hash ''admin''" "\<And>p. \<not> ad_fault ae' p"
      "ad_bind_user ae' (rq_body r2) = Some q" "aq_username q = ''admin''" "aq_password q = ''admin''"
      "\<And>u. AdminGenerateToken ae' u (24 * 60 * minute) \<noteq> None"
  shows "LoginHandler e' w r (fs' (auth_db_path pe)) = (Json (P_Token tok (au_uuid e) ''admin''), fs' (auth_db_path pe)) \<and>
    (\<exists>tok2 u. fst (AdminLoginHandler ae' r2 (fs2' (admin_db_path pe2))) =
      Status_Json 200 (A_Login tok2 u (unix_sec (ad_now ae' + 24 * 60 * minute))) \<and> au_role u = ''super_admin'')"
proof
  obtain u where u: "t_users (fs' (auth_db_path pe)) = Some [u]" "t_roles (fs' (auth_db_path pe)) = Some []"
    "usr_id u = au_uuid e" "usr_username u = ''admin''" "usr_role_id u = Some ''admin''"
    "VerifyPassword e' ''password'' (usr_password_hash u) = Some True"
    using auth_main_default [OF auth login(1)] by blast
  have "role_of [] u = ''admin''" using u(5) by (simp add: role_of_def)
  moreover have "trim_space ''admin'' = ''admin''" by code_simp
  ultimately show "LoginHandler e' w r (fs' (auth_db_path pe)) = (Json (P_Token tok (au_uuid e) ''admin''), fs' (auth_db_path pe))"
    using LoginHandler_success [of r e' "\<lparr>lr_username = ''admin'', lr_password = ''password''\<rparr>", OF login(3,4)]
      login(2,5) u by simp
next
  note row = admin_main_default [OF admin]
  show "\<exists>tok2 u. fst (AdminLoginHandler ae' r2 (fs2' (admin_db_path pe2))) =
      Status_Json 200 (A_Login tok2 u (unix_sec (ad_now ae' + 24 * 60 * minute))) \<and> au_role u = ''super_admin''"
    using admin_login row
    by (auto simp: AdminLoginHandler_def Login_def query_row_def query_def CheckPassword_def admin_of_row_def
        split: option.split)
qed

subsection \<open>Concrete starts\<close>

definition ex_process :: "string \<Rightarrow> process_env" where
  "ex_process path = \<lparr>pr_getenv = (\<lambda>v. if v = ''PORT'' then [] else path), pr_mkdir_fails = (\<lambda>_. False),
     pr_schema_fails = False\<rparr>"

abbreviation ex_started :: "string \<Rightarrow> files" where
  "ex_started path \<equiv> snd (messaging_main (ex_process path)
     (snd (auth_main (ex_process path) ex_auth_env False (\<lambda>_. empty_db))))"

lemma ex_started_steps: "files_steps (db_path (\<lambda>_. ex_process path)) (\<lambda>_. empty_db) (ex_started path)"
  by (rule rtranclp_trans [OF starts_are_steps(1) starts_are_steps(2)])

lemma ex_paths:
  "auth_db_path (ex_process path) = (if path = [] then ''data/users.db'' else path)"
  "messaging_db_path (ex_process path) = (if path = [] then ''data/chat.db'' else path)"
  "presence_db_path (ex_process path) = (if path = [] then ''data/presence.db'' else path)"
  "admin_db_path (ex_process path) = (if path = [] then ''data/admin.db'' else path)"
  by (simp_all add: ex_process_def env_or_def auth_db_path_def messaging_db_path_def presence_db_path_def
      admin_db_path_def)

lemma ex_unset: "pr_getenv (ex_process []) v = []"
  by (simp add: ex_process_def)

lemma ex_serving:
  "\<exists>a fs'. auth_main (ex_process path) e f0 fs = (Serving a, fs')"
  "\<exists>a fs'. admin_main (ex_process path) ae fs = (Serving a, fs')"
  by (simp_all add: auth_main_def admin_main_def ex_process_def Let_def)

lemma messaging_main_users: "t_users (snd (messaging_main pe fs) p) = t_users (fs p)"
  by (simp add: messaging_main_def NewMessageRouter_def Let_def init_defs split: option.split)

lemma ex_started_admin:
  "\<exists>u. t_users (ex_started path (auth_db_path (ex_process path))) = Some [u] \<and> usr_username u = ''admin''"
proof -
  obtain a fs where "auth_main (ex_process path) ex_auth_env False (\<lambda>_. empty_db) = (Serving a, fs)"
    using ex_serving(1) by blast
  with auth_main_default [OF this ex_argon2_length, of ex_auth_env] show ?thesis
    by (auto simp: messaging_main_users ex_auth_env_simps empty_db_def)
qed



definition ex_first_login_env :: auth_env where
  "ex_first_login_env = ex_auth_env\<lparr>au_decode_login := (\<lambda>b. Some \<lparr>lr_username = ''admin'', lr_password = b\<rparr>)\<rparr>"

definition ex_first_admin_env :: admin_env where
  "ex_first_admin_env = (ex_admin_env 0)\<lparr>ad_sign := (\<lambda>s c exp iat. Some (s @ ac_username c))\<rparr>"

theorem default_accounts_open_witness:
  "\<exists>tok. fst (LoginHandler ex_first_login_env ex_writer (ex_req ''POST'' [] ''password'')
      (snd (auth_main (ex_process []) ex_auth_env False (\<lambda>_. empty_db)) ''data/users.db''))
    = Json (P_Token tok ''u1'' ''admin'')"
proof -
  obtain a fs where auth: "auth_main (ex_process []) ex_auth_env False (\<lambda>_. empty_db) = (Serving a, fs)"
    using ex_serving(1) by blast
  obtain a2 fs2 where admin: "admin_main (ex_process []) ex_first_admin_env (\<lambda>_. empty_db) = (Serving a2, fs2)"
    using ex_serving(2) by blast
  have sign: "AdminGenerateToken ex_first_admin_env u d \<noteq> None" for u d
    by (simp add: AdminGenerateToken_def ex_first_admin_env_def)
  have "LoginHandler ex_first_login_env ex_writer (ex_req ''POST'' [] ''password'') (fs ''data/users.db'') =
      (Json (P_Token (jwtKey @ '':admin:admin'') ''u1'' ''admin''), fs ''data/users.db'')"
    using default_accounts_open [OF auth ex_argon2_length _ _ _ _ _ _ _ _ _ admin _ _ _ _ _ _ _ _ sign,
        of ex_first_login_env "ex_req ''POST'' [] ''password''" "jwtKey @ '':admin:admin''" "''admin''"
        "ex_admin_req ''admin''"]
    by (simp add: ex_first_login_env_def ex_auth_env_def ex_first_admin_env_def ex_admin_env_def ex_admin_req_def
        ex_req_def GenerateToken_def ex_paths empty_db_def)
  with auth show ?thesis by auto
qed

end
