(* ===== verification/Confidential.thy ===== *)
theory Confidential
  imports MessagingProps
begin

section \<open>What is written in a channel stays in it\<close>

text \<open>
  Two states of the messaging service are alike, for a channel, when they differ at most in the type,
  content, nonce and signature of the messages of that channel, stored or queued.  Every request takes
  alike states to alike states, and a request of someone without access to the channel gets the same
  answer in both: a noninterference property over all sequences of requests and frames.
\<close>

definition blank :: "string \<Rightarrow> message \<Rightarrow> message" where
  "blank ch m =
    (if msg_channel_id m = ch
     then m\<lparr>msg_type := 0, msg_content := [], msg_nonce := [], msg_signature := []\<rparr> else m)"

definition blank_client :: "string \<Rightarrow> client \<Rightarrow> client" where
  "blank_client ch c = c\<lparr>cl_queue := map (blank ch) (cl_queue c)\<rparr>"

definition blank_router :: "string \<Rightarrow> router \<Rightarrow> router" where
  "blank_router ch s = s\<lparr>rt_db := (rt_db s)\<lparr>t_messages := map_option (map (blank ch)) (t_messages (rt_db s))\<rparr>,
     rt_heap := map_option (blank_client ch) \<circ> rt_heap s\<rparr>"

definition alike :: "string \<Rightarrow> router \<Rightarrow> router \<Rightarrow> bool" where
  "alike ch s t \<longleftrightarrow> blank_router ch s = blank_router ch t"

lemma alike_refl [simp]: "alike ch s s"
  by (simp add: alike_def)

lemma alike_sym: "alike ch s t \<Longrightarrow> alike ch t s"
  by (simp add: alike_def)

lemma blank_keys [simp]:
  "msg_id (blank ch m) = msg_id m" "msg_channel_id (blank ch m) = msg_channel_id m"
  "msg_timestamp (blank ch m) = msg_timestamp m" "msg_sender_id (blank ch m) = msg_sender_id m"
  by (simp_all add: blank_def)

lemma blank_eqD:
  assumes "blank ch m = blank ch m'"
  shows "msg_id m' = msg_id m" "msg_channel_id m' = msg_channel_id m" "msg_channel_id m \<noteq> ch \<Longrightarrow> m' = m"
proof -
  show ids: "msg_id m' = msg_id m" "msg_channel_id m' = msg_channel_id m"
    using arg_cong [OF assms, of msg_id] arg_cong [OF assms, of msg_channel_id] by simp_all
  show "m' = m" if "msg_channel_id m \<noteq> ch"
  proof -
    have "blank ch m = m" "blank ch m' = m'" using that ids(2) by (simp_all add: blank_def)
    with assms show ?thesis by (simp only:)
  qed
qed

lemma blank_rows:
  assumes "map (blank ch) ms = map (blank ch) ms'"
  shows "list_ex (\<lambda>v. msg_id v = i) ms' = list_ex (\<lambda>v. msg_id v = i) ms"
    and "c \<noteq> ch \<Longrightarrow> filter (\<lambda>m. msg_channel_id m = c) ms' = filter (\<lambda>m. msg_channel_id m = c) ms"
proof -
  have "list_all2 (\<lambda>m m'. blank ch m = blank ch m') ms ms'"
    using assms by (simp add: list_all2_conv_all_nth) (metis length_map nth_map)
  then show "list_ex (\<lambda>v. msg_id v = i) ms' = list_ex (\<lambda>v. msg_id v = i) ms"
    "c \<noteq> ch \<Longrightarrow> filter (\<lambda>m. msg_channel_id m = c) ms' = filter (\<lambda>m. msg_channel_id m = c) ms"
    by (induction rule: list_all2_induct) (auto dest: blank_eqD)
qed

text \<open>What alike states share, and where they may differ.\<close>

lemma alikeD:
  assumes "alike ch s t"
  shows "rt_db t = (rt_db s)\<lparr>t_messages := t_messages (rt_db t)\<rparr>"
    and "map_option (map (blank ch)) (t_messages (rt_db s)) = map_option (map (blank ch)) (t_messages (rt_db t))"
    and "rt_clients t = rt_clients s" "rt_next t = rt_next s" "rt_panicked t = rt_panicked s"
    and "map_option (blank_client ch) (rt_heap s n) = map_option (blank_client ch) (rt_heap t n)"
proof -
  have eq: "blank_router ch s = blank_router ch t" using assms by (simp add: alike_def)
  show "rt_clients t = rt_clients s" "rt_next t = rt_next s" "rt_panicked t = rt_panicked s"
    using eq by (auto simp: blank_router_def dest: arg_cong [of _ _ rt_clients] arg_cong [of _ _ rt_next]
      arg_cong [of _ _ rt_panicked])
  have db: "(rt_db s)\<lparr>t_messages := map_option (map (blank ch)) (t_messages (rt_db s))\<rparr> =
      (rt_db t)\<lparr>t_messages := map_option (map (blank ch)) (t_messages (rt_db t))\<rparr>"
    using arg_cong [OF eq, of rt_db] by (simp add: blank_router_def)
  show "map_option (map (blank ch)) (t_messages (rt_db s)) = map_option (map (blank ch)) (t_messages (rt_db t))"
    using arg_cong [OF db, of t_messages] by simp
  show "rt_db t = (rt_db s)\<lparr>t_messages := t_messages (rt_db t)\<rparr>"
    using arg_cong [OF db, of "\<lambda>d. d\<lparr>t_messages := t_messages (rt_db t)\<rparr>"] by simp
  show "map_option (blank_client ch) (rt_heap s n) = map_option (blank_client ch) (rt_heap t n)"
    using fun_cong [OF arg_cong [OF eq, of rt_heap], of n] by (simp add: blank_router_def)
qed

lemma alikeI:
  assumes "rt_db t = (rt_db s)\<lparr>t_messages := t_messages (rt_db t)\<rparr>"
    and "map_option (map (blank ch)) (t_messages (rt_db s)) = map_option (map (blank ch)) (t_messages (rt_db t))"
    and "rt_clients t = rt_clients s" "rt_next t = rt_next s" "rt_panicked t = rt_panicked s"
    and "\<And>n. map_option (blank_client ch) (rt_heap s n) = map_option (blank_client ch) (rt_heap t n)"
  shows "alike ch s t"
proof -
  have "(rt_db t)\<lparr>t_messages := x\<rparr> = (rt_db s)\<lparr>t_messages := x\<rparr>" for x
    using arg_cong [OF assms(1), of "\<lambda>d. d\<lparr>t_messages := x\<rparr>"] by simp
  then show ?thesis using assms(2-6)
    by (auto simp: alike_def blank_router_def fun_eq_iff intro!: router.equality)
qed

text \<open>The same for databases.\<close>

definition same_db :: "string \<Rightarrow> platform_db \<Rightarrow> platform_db \<Rightarrow> bool" where
  "same_db ch d d' \<longleftrightarrow> d' = d\<lparr>t_messages := t_messages d'\<rparr> \<and>
    map_option (map (blank ch)) (t_messages d) = map_option (map (blank ch)) (t_messages d')"

lemma same_dbE:
  assumes "same_db ch d d'"
  obtains ts where "d' = d\<lparr>t_messages := ts\<rparr>"
    "map_option (map (blank ch)) (t_messages d) = map_option (map (blank ch)) ts"
  using assms by (auto simp: same_db_def)

lemma same_dbI:
  "map_option (map (blank ch)) (t_messages d) = map_option (map (blank ch)) ts \<Longrightarrow> same_db ch d (d\<lparr>t_messages := ts\<rparr>)"
  by (simp add: same_db_def)

lemma alike_same_db: "alike ch s t \<Longrightarrow> same_db ch (rt_db s) (rt_db t)"
  using alikeD(1,2) by (simp add: same_db_def)

lemma alike_set_db: "alike ch s t \<Longrightarrow> same_db ch d d' \<Longrightarrow> alike ch (set_db d s) (set_db d' t)"
  by (rule alikeI) (auto simp: same_db_def dest: alikeD)

lemma dm_messages: "dm_transaction f (d\<lparr>t_messages := ts\<rparr>) i a b =
    map_option (\<lambda>d'. d'\<lparr>t_messages := ts\<rparr>) (dm_transaction f d i a b)"
  by (simp add: dm_transaction_def Let_def split: option.splits)

lemma dm_keeps_messages: "dm_transaction f d i a b = Some d' \<Longrightarrow> t_messages d' = t_messages d"
  using dm_transaction_rows by fastforce

lemma lookup_messages [simp]:
  "getChannelType f (d\<lparr>t_messages := ts\<rparr>) c = getChannelType f d c"
  "getChannelMembers f (d\<lparr>t_messages := ts\<rparr>) c = getChannelMembers f d c"
  "userExists f (d\<lparr>t_messages := ts\<rparr>) u = userExists f d u"
  "authorizeChannelAccess f (d\<lparr>t_messages := ts\<rparr>) u c = authorizeChannelAccess f d u c"
  "listAccessibleChannels f (d\<lparr>t_messages := ts\<rparr>) u = listAccessibleChannels f d u"
  "listChannelMembers f (d\<lparr>t_messages := ts\<rparr>) c = listChannelMembers f d c"
  "authenticate e (d\<lparr>t_messages := ts\<rparr>) r = authenticate e d r"
  by (simp_all add: getChannelType_def getChannelMembers_def userExists_def authorizeChannelAccess_def
      isChannelMember_def listAccessibleChannels_def listChannelMembers_def authenticate_def findUserIDByUsername_def
      Let_def cong: sum.case_cong option.case_cong if_cong)

lemma find_dm_messages: "findOrCreateDMChannel f (d\<lparr>t_messages := ts\<rparr>) a b =
    map_prod id (\<lambda>d'. d'\<lparr>t_messages := ts\<rparr>) (findOrCreateDMChannel f d a b)"
  by (simp add: findOrCreateDMChannel_def dm_messages Let_def split: option.splits sum.splits)

lemma resolve_messages: "resolveRequestedChannel f (d\<lparr>t_messages := ts\<rparr>) u q =
    map_prod id (\<lambda>d'. d'\<lparr>t_messages := ts\<rparr>) (resolveRequestedChannel f d u q)"
  by (simp add: resolveRequestedChannel_def find_dm_messages split: sum.splits)

lemma same_db_resolve:
  assumes "same_db ch d d'" "resolveRequestedChannel f d u q = (x, d1)"
  obtains d1' where "resolveRequestedChannel f d' u q = (x, d1')" "same_db ch d1 d1'"
proof -
  obtain ts where ts: "d' = d\<lparr>t_messages := ts\<rparr>"
    "map_option (map (blank ch)) (t_messages d) = map_option (map (blank ch)) ts" using assms(1) by (rule same_dbE)
  have "t_messages d1 = t_messages d" by (rule resolve_tables(1) [OF assms(2)])
  with ts(2) have "same_db ch d1 (d1\<lparr>t_messages := ts\<rparr>)" by (intro same_dbI) simp
  moreover have "resolveRequestedChannel f d' u q = (x, d1\<lparr>t_messages := ts\<rparr>)"
    using assms(2) by (simp add: ts(1) resolve_messages)
  ultimately show ?thesis using that by blast
qed

lemma same_db_find_dm:
  assumes "same_db ch d d'" "findOrCreateDMChannel f d a b = (x, d1)"
  obtains d1' where "findOrCreateDMChannel f d' a b = (x, d1')" "same_db ch d1 d1'"
proof -
  obtain ts where ts: "d' = d\<lparr>t_messages := ts\<rparr>"
    "map_option (map (blank ch)) (t_messages d) = map_option (map (blank ch)) ts" using assms(1) by (rule same_dbE)
  have "t_messages d1 = t_messages d"
    using assms(2) findOrCreate_error findOrCreate_success dm_keeps_messages by (cases x) blast+
  with ts(2) have "same_db ch d1 (d1\<lparr>t_messages := ts\<rparr>)" by (intro same_dbI) simp
  moreover have "findOrCreateDMChannel f d' a b = (x, d1\<lparr>t_messages := ts\<rparr>)"
    using assms(2) by (simp add: ts(1) find_dm_messages)
  ultimately show ?thesis using that by blast
qed

lemma same_db_lookups:
  assumes "same_db ch d d'"
  shows "authorizeChannelAccess f d' u c = authorizeChannelAccess f d u c"
    "getChannelMembers f d' c = getChannelMembers f d c" "userExists f d' u = userExists f d u"
    "authenticate e d' r = authenticate e d r" "may_access d' u c = may_access d u c"
    "listAccessibleChannels f d' u = listAccessibleChannels f d u" "listChannelMembers f d' c = listChannelMembers f d c"
  using assms by (auto elim!: same_dbE)

text \<open>Saving the same request, or one with another content into the channel itself.\<close>

definition same_request :: "string \<Rightarrow> string \<Rightarrow> send_request \<Rightarrow> send_request \<Rightarrow> bool" where
  "same_request ch c q q' \<longleftrightarrow> q' = q \<or> c = ch"

lemma same_db_save:
  assumes "same_db ch d d'" "same_request ch c q q'" "SaveMessage f n i d q u c = (x, d1)"
  obtains x' d1' where "SaveMessage f n i d' q' u c = (x', d1')" "same_db ch d1 d1'"
    "(\<exists>e. x = Inl e \<and> x' = Inl e) \<or> (\<exists>m m'. x = Inr m \<and> x' = Inr m' \<and> blank ch m = blank ch m')"
proof -
  obtain ts where ts: "d' = d\<lparr>t_messages := ts\<rparr>"
    "map_option (map (blank ch)) (t_messages d) = map_option (map (blank ch)) ts" using assms(1) by (rule same_dbE)
  let ?m = "\<lambda>q. \<lparr>msg_id = i, msg_channel_id = c, msg_sender_id = u, msg_timestamp = unix_milli n,
    msg_type = sr_type q, msg_content = sr_content q, msg_nonce = sr_nonce q, msg_signature = sr_signature q\<rparr>"
  have m: "blank ch (?m q) = blank ch (?m q')" using assms(2) by (auto simp: same_request_def blank_def)
  show ?thesis
  proof (cases "exec_insert (f []) ins_message (?m q) (t_messages d)")
    case None
    then have "exec_insert (f []) ins_message (?m q') ts = None"
      using ts(2) by (auto simp: exec_insert_def ins_message_def dest: blank_rows(1) split: option.splits if_splits)
    with None assms(1,3) show ?thesis
      by (intro that [of "Inl ErrDB" d']) (auto simp: SaveMessage_def ts(1))
  next
    case (Some a)
    then obtain ms where ms: "\<not> f []" "t_messages d = Some ms" "a = Some (ms @ [?m q])"
      "\<not> list_ex (\<lambda>v. msg_id v = i) ms"
      by (auto simp: exec_insert_def ins_message_def split: if_splits option.splits)
    with ts(2) obtain ms' where ms': "ts = Some ms'" "map (blank ch) ms = map (blank ch) ms'"
      by (cases ts) auto
    with ms m have "same_db ch (d\<lparr>t_messages := Some (ms @ [?m q])\<rparr>) (d\<lparr>t_messages := Some (ms' @ [?m q'])\<rparr>)"
      using same_dbI [of ch "d\<lparr>t_messages := Some (ms @ [?m q])\<rparr>" "Some (ms' @ [?m q'])"] by simp
    moreover have "SaveMessage f n i d' q' u c = (Inr (?m q'), d\<lparr>t_messages := Some (ms' @ [?m q'])\<rparr>)"
      using ms ms' blank_rows(1) [OF ms'(2)] by (simp add: SaveMessage_def ts(1) exec_insert_def ins_message_def Let_def)
    moreover have "x = Inr (?m q)" "d1 = d\<lparr>t_messages := Some (ms @ [?m q])\<rparr>"
      using assms(3) Some ms by (simp_all add: SaveMessage_def Let_def)
    ultimately show ?thesis using that m by blast
  qed
qed

subsection \<open>Delivery\<close>

lemma blank_client_eqD:
  assumes "blank_client ch c = blank_client ch c'"
  shows "cl_user c' = cl_user c" "cl_closed c' = cl_closed c" "length (cl_queue c') = length (cl_queue c)"
    "map (blank ch) (cl_queue c) = map (blank ch) (cl_queue c')"
  using arg_cong [OF assms, of cl_user] arg_cong [OF assms, of cl_closed] arg_cong [OF assms, of cl_queue]
  by (auto simp: blank_client_def dest: map_eq_imp_length_eq)

lemma blank_router_updates:
  "blank_router ch (s\<lparr>rt_heap := h\<rparr>) = (blank_router ch s)\<lparr>rt_heap := map_option (blank_client ch) \<circ> h\<rparr>"
  "blank_router ch (s\<lparr>rt_panicked := p\<rparr>) = (blank_router ch s)\<lparr>rt_panicked := p\<rparr>"
  by (simp_all add: blank_router_def)

lemma blank_heap: "map_option (blank_client ch) \<circ> rt_heap s = rt_heap (blank_router ch s)"
  by (simp add: blank_router_def)

lemma alike_trySend:
  assumes "alike ch s t" "blank ch m = blank ch m'"
  shows "alike ch (trySend m n s) (trySend m' n t)"
proof (cases "rt_heap s n")
  case None
  then have "rt_heap t n = None" using alikeD(6) [OF assms(1), of n] by simp
  with None assms(1) show ?thesis by (simp add: trySend_def alike_def blank_router_updates)
next
  case (Some c)
  then obtain c' where c': "rt_heap t n = Some c'" "blank_client ch c = blank_client ch c'"
    using alikeD(6) [OF assms(1), of n] by (cases "rt_heap t n") auto
  note q = blank_client_eqD [OF c'(2)]
  have add: "blank_client ch (c\<lparr>cl_queue := cl_queue c @ [m]\<rparr>) = blank_client ch (c'\<lparr>cl_queue := cl_queue c' @ [m']\<rparr>)"
    using q(1,2,4) assms(2) by (simp add: blank_client_def)
  show ?thesis
    using Some c'(1) q(2,3) assms(1) add
    by (simp add: trySend_def alike_def blank_router_updates fun_upd_comp blank_heap)
qed

lemma alike_deliver:
  assumes "alike ch s t" "blank ch m = blank ch m'"
  shows "alike ch (deliver m mt s) (deliver m' mt t)"
proof -
  have "alike ch (foldl (\<lambda>t n. trySend m n t) s ns) (foldl (\<lambda>t n. trySend m' n t) t ns)" for ns
    using assms(1) by (induction ns arbitrary: s t) (auto intro: alike_trySend assms(2))
  then show ?thesis using alikeD(3) [OF assms(1)] by (simp add: deliver_def broadcast_targets_def)
qed

lemma alike_Broadcast:
  assumes "alike ch s t" "blank ch m = blank ch m'" "Broadcast f m s = (b, s1)"
  obtains t1 where "Broadcast f m' t = (b, t1)" "alike ch s1 t1"
proof -
  have "getChannelMembers f (rt_db t) (msg_channel_id m') = getChannelMembers f (rt_db s) (msg_channel_id m)"
    using same_db_lookups(2) [OF alike_same_db [OF assms(1)]] blank_eqD(2) [OF assms(2)] by simp
  with assms that show ?thesis
    by (auto simp: Broadcast_def split: sum.splits intro: alike_deliver)
qed

text \<open>Storing and broadcasting a message in alike states.\<close>

lemma store_alike:
  assumes "alike ch s t" "same_db ch d d'" "same_request ch c q q'"
    and "SaveMessage f n i d q u c = (y, d2)"
  obtains y' d2' where "SaveMessage f n i d' q' u c = (y', d2')"
    "alike ch (set_db d2 (set_db d s)) (set_db d2' (set_db d' t))"
    "(\<exists>e. y = Inl e \<and> y' = Inl e) \<or>
     (\<exists>m m'. y = Inr m \<and> y' = Inr m' \<and> msg_id m' = msg_id m \<and> (\<forall>g. \<exists>b s3 t3.
        Broadcast g m (set_db d2 (set_db d s)) = (b, s3) \<and>
        Broadcast g m' (set_db d2' (set_db d' t)) = (b, t3) \<and> alike ch s3 t3))"
proof -
  obtain y' d2' where sv: "SaveMessage f n i d' q' u c = (y', d2')" and d2: "same_db ch d2 d2'"
    and y: "(\<exists>e. y = Inl e \<and> y' = Inl e) \<or> (\<exists>m m'. y = Inr m \<and> y' = Inr m' \<and> blank ch m = blank ch m')"
    using same_db_save [OF assms(2-4)] .
  note al = alike_set_db [OF alike_set_db [OF assms(1,2)] d2]
  have "\<exists>b s3 t3. Broadcast g m (set_db d2 (set_db d s)) = (b, s3) \<and>
      Broadcast g m' (set_db d2' (set_db d' t)) = (b, t3) \<and> alike ch s3 t3"
    if "blank ch m = blank ch m'" for g m m'
    using alike_Broadcast [OF al that] by (metis prod.collapse)
  with y have "(\<exists>e. y = Inl e \<and> y' = Inl e) \<or>
     (\<exists>m m'. y = Inr m \<and> y' = Inr m' \<and> msg_id m' = msg_id m \<and> (\<forall>g. \<exists>b s3 t3.
        Broadcast g m (set_db d2 (set_db d s)) = (b, s3) \<and>
        Broadcast g m' (set_db d2' (set_db d' t)) = (b, t3) \<and> alike ch s3 t3))"
    using blank_eqD(1) by blast
  with sv al show ?thesis by (rule that)
qed

subsection \<open>Requests\<close>

text \<open>\<open>e'\<close> is \<open>e\<close> but for the decoder of the body, which gives the same request in both, or contents that
  differ for the channel.\<close>

lemma send_accepted_alike:
  assumes a: "alike ch s t" and d: "same_db ch d d'" and h: "sendHandler e w r s = (rep, s1)"
    and env: "me_fault e' = me_fault e" "me_now e' = me_now e" "me_uuid e' = me_uuid e"
    and q: "rq_method r = ''POST''" "me_decode_send e (rq_body r) = Some q" "me_decode_send e' (rq_body r) = Some q'"
      "sr_channel_id q' = sr_channel_id q" "same_request ch ci q q'"
    and u: "authenticate e (rt_db s) r = Inr u" "authenticate e' (rt_db t) r = Inr u"
    and res: "resolveRequestedChannel (at (me_fault e) C_Resolve) (rt_db s) u (sr_channel_id q) = (Inr ci, d)"
      "resolveRequestedChannel (at (me_fault e) C_Resolve) (rt_db t) u (sr_channel_id q) = (Inr ci, d')"
    and acc: "authorizeChannelAccess (at (me_fault e) C_Authorize) d u ci = None"
  shows "\<exists>t1. sendHandler e' w r t = (rep, t1) \<and> alike ch s1 t1"
proof -
  obtain y d2 where sv: "SaveMessage (at (me_fault e) C_Save) (me_now e) (me_uuid e) d q u ci = (y, d2)"
    by (cases "SaveMessage (at (me_fault e) C_Save) (me_now e) (me_uuid e) d q u ci")
  note start = h env q u res acc sv
  show ?thesis
  proof (rule store_alike [OF a d q(5) sv])
    fix y' d2'
    assume sv': "SaveMessage (at (me_fault e) C_Save) (me_now e) (me_uuid e) d' q' u ci = (y', d2')"
      and set2: "alike ch (set_db d2 (set_db d s)) (set_db d2' (set_db d' t))"
      and y: "(\<exists>e. y = Inl e \<and> y' = Inl e) \<or>
        (\<exists>m m'. y = Inr m \<and> y' = Inr m' \<and> msg_id m' = msg_id m \<and> (\<forall>g. \<exists>b s3 t3.
          Broadcast g m (set_db d2 (set_db d s)) = (b, s3) \<and>
          Broadcast g m' (set_db d2' (set_db d' t)) = (b, t3) \<and> alike ch s3 t3))"
    from y consider (bad) x where "y = Inl x" "y' = Inl x"
      | (good) m m' b s3 t3 where "y = Inr m" "y' = Inr m'" "msg_id m' = msg_id m"
          "Broadcast (at (me_fault e) C_Broadcast) m (set_db d2 (set_db d s)) = (b, s3)"
          "Broadcast (at (me_fault e) C_Broadcast) m' (set_db d2' (set_db d' t)) = (b, t3)" "alike ch s3 t3"
      by metis
    then show ?thesis
    proof cases
      case bad
      with start sv' set2 show ?thesis by (auto simp: sendHandler_def same_db_lookups(1) [OF d])
    next
      case good
      with start sv' show ?thesis
        by (auto simp: sendHandler_def same_db_lookups(1) [OF d] split: option.splits)
    qed
  qed
qed

lemma send_alike:
  assumes a: "alike ch s t" and h: "sendHandler e w r s = (rep, s1)"
    and q: "me_decode_send e (rq_body r) = Some q" "me_decode_send e' (rq_body r) = Some q'"
      "sr_channel_id q' = sr_channel_id q" "e' = e\<lparr>me_decode_send := me_decode_send e'\<rparr>"
    and c: "\<And>u c d. authenticate e (rt_db s) r = Inr u \<Longrightarrow>
      resolveRequestedChannel (at (me_fault e) C_Resolve) (rt_db s) u (sr_channel_id q) = (Inr c, d) \<Longrightarrow>
      same_request ch c q q'"
  shows "\<exists>t1. sendHandler e' w r t = (rep, t1) \<and> alike ch s1 t1"
proof -
  have env: "me_fault e' = me_fault e" "me_now e' = me_now e" "me_uuid e' = me_uuid e"
    "authenticate e' d r = authenticate e d r" for d
    by (subst q(4), simp add: authenticate_def validateToken_def Let_def cong: option.case_cong if_cong)+
  note base = alike_same_db [OF a]
  note auth = same_db_lookups(4) [OF base, of e r]
  show ?thesis
  proof (cases "rq_method r = ''POST'' \<and> (\<exists>u. authenticate e (rt_db s) r = Inr u)")
    case False
    with h a q(1,2) env auth show ?thesis
      by (cases "authenticate e (rt_db s) r") (auto simp: sendHandler_def Let_def split: if_splits)
  next
    case True
    then obtain u where post: "rq_method r = ''POST''" and u: "authenticate e (rt_db s) r = Inr u" by blast
    obtain x d where res: "resolveRequestedChannel (at (me_fault e) C_Resolve) (rt_db s) u (sr_channel_id q) = (x, d)"
      by (cases "resolveRequestedChannel (at (me_fault e) C_Resolve) (rt_db s) u (sr_channel_id q)")
    obtain d' where res': "resolveRequestedChannel (at (me_fault e) C_Resolve) (rt_db t) u (sr_channel_id q) = (x, d')"
      and d: "same_db ch d d'" using same_db_resolve [OF base res] .
    show ?thesis
    proof (cases "\<exists>ci. x = Inr ci \<and> authorizeChannelAccess (at (me_fault e) C_Authorize) d u ci = None")
      case True
      then obtain ci where x: "x = Inr ci" and acc: "authorizeChannelAccess (at (me_fault e) C_Authorize) d u ci = None"
        by blast
      show ?thesis
        using send_accepted_alike [OF a d h env(1-3) post q(1-3) c [OF u res [unfolded x]] u _ res [unfolded x]
            res' [unfolded x] acc] env(4) auth u by simp
    next
      case False
      with h post q(1-3) env auth u res res' alike_set_db [OF a d] show ?thesis
        by (cases x) (auto simp: sendHandler_def same_db_lookups(1) [OF d])
    qed
  qed
qed

lemma history_alike:
  assumes a: "alike ch s t" and h: "HistoryHandler e w r s = (rep, s1)"
  shows "\<exists>rep' t1. HistoryHandler e w r t = (rep', t1) \<and> alike ch s1 t1 \<and>
    (rep' = rep \<or> (\<exists>u. authenticate e (rt_db s) r = Inr u \<and> may_access (rt_db s1) u ch))"
proof (cases "authenticate e (rt_db s) r")
  case (Inl x)
  with h a show ?thesis by (auto simp: HistoryHandler_def Let_def same_db_lookups(4) [OF alike_same_db [OF a]])
next
  case u: (Inr u)
  let ?q = "rq_query r ''channel_id''"
  note base = alike_same_db [OF a]
  obtain x d where res: "resolveRequestedChannel (at (me_fault e) C_Resolve) (rt_db s) u ?q = (x, d)"
    by (cases "resolveRequestedChannel (at (me_fault e) C_Resolve) (rt_db s) u ?q")
  obtain d' where res': "resolveRequestedChannel (at (me_fault e) C_Resolve) (rt_db t) u ?q = (x, d')"
    and d: "same_db ch d d'" using same_db_resolve [OF base res] .
  note set1 = alike_set_db [OF a d]
  note start = h u res res' same_db_lookups(4) [OF base]
  show ?thesis
  proof (cases "?q = [] \<or> (\<exists>y. x = Inl y) \<or>
      (\<exists>c. x = Inr c \<and> authorizeChannelAccess (at (me_fault e) C_Authorize) d u c \<noteq> None)")
    case True
    with start set1 a show ?thesis
      by (auto simp: HistoryHandler_def Let_def same_db_lookups(1) [OF d] split: if_splits)
  next
    case False
    then obtain c where x: "x = Inr c" "?q \<noteq> []" and acc: "authorizeChannelAccess (at (me_fault e) C_Authorize) d u c = None"
      by (cases x) auto
    have may: "may_access d u c" using acc by (simp add: authorize_grants_iff)
    show ?thesis
    proof (cases "query (me_fault e [C_List]) (t_messages d)")
      case (Inl y)
      then have "query (me_fault e [C_List]) (t_messages d') = Inl DriverErr"
        using d by (auto simp: query_def same_db_def split: if_splits option.splits)
      with start x acc Inl set1 show ?thesis by (auto simp: HistoryHandler_def Let_def same_db_lookups(1) [OF d])
    next
      case (Inr ms)
      then obtain ms' where ms': "query (me_fault e [C_List]) (t_messages d') = Inr ms'"
        "map (blank ch) ms = map (blank ch) ms'"
        using d by (cases "t_messages d'") (auto simp: query_def same_db_def split: if_splits option.splits)
      have "history_rows c ms' = history_rows c ms" if "c \<noteq> ch"
        using blank_rows(2) [OF ms'(2) that] by (simp add: history_rows_def)
      with start x acc Inr ms'(1) set1 may show ?thesis
        by (cases "c = ch") (auto simp: HistoryHandler_def Let_def same_db_lookups(1) [OF d])
    qed
  qed
qed

lemma reads_alike:
  assumes "alike ch s t"
  shows "fst (ChannelsHandler e w r t) = fst (ChannelsHandler e w r s)" "snd (ChannelsHandler e w r s) = s"
    "fst (ChannelMembersHandler e w r t) = fst (ChannelMembersHandler e w r s)"
    "snd (ChannelMembersHandler e w r s) = s"
  by (auto simp: ChannelsHandler_def ChannelMembersHandler_def same_db_lookups [OF alike_same_db [OF assms]] Let_def
      split: sum.splits option.splits)

lemma dm_alike:
  assumes a: "alike ch s t" and h: "CreateDMHandler e w r s = (rep, s1)"
  shows "\<exists>t1. CreateDMHandler e w r t = (rep, t1) \<and> alike ch s1 t1"
proof -
  note base = alike_same_db [OF a]
  have dm: "\<exists>d1'. findOrCreateDMChannel f (rt_db t) u v = (x, d1') \<and> alike ch (set_db d1 s) (set_db d1' t)"
    if "findOrCreateDMChannel f (rt_db s) u v = (x, d1)" for f u v x d1
    using same_db_find_dm [OF base that] alike_set_db [OF a] by metis
  show ?thesis
    using h a
    by (auto simp: CreateDMHandler_def same_db_lookups [OF base] Let_def
        split: sum.splits option.splits prod.splits if_splits dest!: dm)
qed

lemma frame_alike:
  assumes a: "alike ch s t"
  shows "alike ch (ws_read e u fr s) (ws_read e u fr t)"
proof (cases "me_decode_frame e fr")
  case None
  with a show ?thesis by (simp add: ws_read_def)
next
  case (Some q)
  note base = alike_same_db [OF a]
  obtain x d where res: "resolveRequestedChannel (at (me_fault e) C_Resolve) (rt_db s) u (sr_channel_id q) = (x, d)"
    by (cases "resolveRequestedChannel (at (me_fault e) C_Resolve) (rt_db s) u (sr_channel_id q)")
  obtain d' where res': "resolveRequestedChannel (at (me_fault e) C_Resolve) (rt_db t) u (sr_channel_id q) = (x, d')"
    and d: "same_db ch d d'" using same_db_resolve [OF base res] .
  note set1 = alike_set_db [OF a d] and start = Some res res' same_db_lookups(1) [OF d]
  show ?thesis
  proof (cases "\<exists>c. x = Inr c \<and> authorizeChannelAccess (at (me_fault e) C_Authorize) d u c = None")
    case False
    with start set1 show ?thesis by (cases x) (auto simp: ws_read_def Let_def)
  next
    case True
    then obtain c where c: "x = Inr c" "authorizeChannelAccess (at (me_fault e) C_Authorize) d u c = None" by blast
    obtain y d2 where sv: "SaveMessage (at (me_fault e) C_Save) (me_now e) (me_uuid e) d q u c = (y, d2)"
      by (cases "SaveMessage (at (me_fault e) C_Save) (me_now e) (me_uuid e) d q u c")
    have "same_request ch c q q" by (simp add: same_request_def)
    then show ?thesis
    proof (rule store_alike [OF a d _ sv])
      fix y' d2'
      assume "SaveMessage (at (me_fault e) C_Save) (me_now e) (me_uuid e) d' q u c = (y', d2')"
        and "alike ch (set_db d2 (set_db d s)) (set_db d2' (set_db d' t))"
        and y: "(\<exists>e. y = Inl e \<and> y' = Inl e) \<or>
          (\<exists>m m'. y = Inr m \<and> y' = Inr m' \<and> msg_id m' = msg_id m \<and> (\<forall>g. \<exists>b s3 t3.
            Broadcast g m (set_db d2 (set_db d s)) = (b, s3) \<and>
            Broadcast g m' (set_db d2' (set_db d' t)) = (b, t3) \<and> alike ch s3 t3))"
      with start c sv show ?thesis
        by (auto simp: ws_read_def Let_def dest!: spec [of _ "at (me_fault e) C_Broadcast"])
    qed
  qed
qed

subsection \<open>Sequences of requests\<close>

text \<open>The handlers a request can reach, and a frame that arrives on a connection of user \<open>u\<close>.\<close>

datatype msg_call =
    Call_Send writer request
  | Call_History writer request
  | Call_Channels writer request
  | Call_Members writer request
  | Call_DM writer request
  | Call_Frame string string

fun call_handler :: "msg_call \<Rightarrow> msg_env \<Rightarrow> router \<Rightarrow> (request \<times> msg_payload reply) option \<times> router" where
  "call_handler (Call_Send w r) e s = (let (a, t) = sendHandler e w r s in (Some (r, a), t))"
| "call_handler (Call_History w r) e s = (let (a, t) = HistoryHandler e w r s in (Some (r, a), t))"
| "call_handler (Call_Channels w r) e s = (let (a, t) = ChannelsHandler e w r s in (Some (r, a), t))"
| "call_handler (Call_Members w r) e s = (let (a, t) = ChannelMembersHandler e w r s in (Some (r, a), t))"
| "call_handler (Call_DM w r) e s = (let (a, t) = CreateDMHandler e w r s in (Some (r, a), t))"
| "call_handler (Call_Frame u fr) e s = (None, ws_read e u fr s)"

text \<open>Whether the request is one of a user who has access to the channel when it is answered.\<close>

definition insider :: "string \<Rightarrow> msg_env \<Rightarrow> request \<Rightarrow> router \<Rightarrow> router \<Rightarrow> bool" where
  "insider ch e r s t \<longleftrightarrow>
    (case authenticate e (rt_db s) r of Inl _ \<Rightarrow> False | Inr u \<Rightarrow> may_access (rt_db t) u ch)"

text \<open>The answers that everybody else gets in a sequence of calls.\<close>

fun outsiders_see :: "string \<Rightarrow> (msg_call \<times> msg_env) list \<Rightarrow> router \<Rightarrow> msg_payload reply list" where
  "outsiders_see ch [] s = []"
| "outsiders_see ch ((k, e) # cs) s =
    (let (x, t) = call_handler k e s
     in (case x of None \<Rightarrow> [] | Some (r, a) \<Rightarrow> (if insider ch e r s t then [] else [a])) @ outsiders_see ch cs t)"

lemma call_alike:
  assumes a: "alike ch s t" and k: "call_handler k e s = (x, s1)"
  shows "\<exists>y t1. call_handler k e t = (y, t1) \<and> alike ch s1 t1 \<and>
    (x = None \<and> y = None \<or> (\<exists>r p p'. x = Some (r, p) \<and> y = Some (r, p') \<and> (p' = p \<or> insider ch e r s s1)))"
proof (cases k)
  case (Call_Send w r)
  obtain p s2 where h: "sendHandler e w r s = (p, s2)" by (cases "sendHandler e w r s")
  have "\<exists>t1. sendHandler e w r t = (p, t1) \<and> alike ch s2 t1"
  proof (cases "me_decode_send e (rq_body r)")
    case None
    with h a show ?thesis by (auto simp: sendHandler_def Let_def split: if_splits)
  next
    case (Some q)
    show ?thesis by (rule send_alike [OF a h Some Some]) (simp_all add: same_request_def)
  qed
  with Call_Send h k show ?thesis by auto
next
  case (Call_History w r)
  obtain p s2 where h: "HistoryHandler e w r s = (p, s2)" by (cases "HistoryHandler e w r s")
  from history_alike [OF a h] Call_History h k show ?thesis by (auto simp: insider_def)
next
  case (Call_Channels w r)
  with k reads_alike(1,2) [OF a, of e w r] reads_alike(2) [OF alike_sym [OF a], of e w r] a show ?thesis
    by (auto simp: case_prod_beta Let_def)
next
  case (Call_Members w r)
  with k reads_alike(3,4) [OF a, of e w r] reads_alike(4) [OF alike_sym [OF a], of e w r] a show ?thesis
    by (auto simp: case_prod_beta Let_def)
next
  case (Call_DM w r)
  obtain p s2 where h: "CreateDMHandler e w r s = (p, s2)" by (cases "CreateDMHandler e w r s")
  from dm_alike [OF a h] Call_DM h k show ?thesis by auto
next
  case (Call_Frame u fr)
  with k frame_alike [OF a] show ?thesis by auto
qed

lemma insider_alike:
  "alike ch s t \<Longrightarrow> alike ch s1 t1 \<Longrightarrow> insider ch e r t t1 = insider ch e r s s1"
  using same_db_lookups(4) [OF alike_same_db, of ch s t e r] same_db_lookups(5) [OF alike_same_db, of ch s1 t1]
  by (simp add: insider_def split: sum.splits)

lemma outsiders_alike: "alike ch s t \<Longrightarrow> outsiders_see ch cs t = outsiders_see ch cs s"
proof (induction cs arbitrary: s t)
  case (Cons c cs)
  obtain k e where c: "c = (k, e)" by (cases c)
  obtain x s1 where ks: "call_handler k e s = (x, s1)" by (cases "call_handler k e s")
  from call_alike [OF Cons.prems ks] obtain y t1 where kt: "call_handler k e t = (y, t1)" and al: "alike ch s1 t1"
    and xy: "x = None \<and> y = None \<or> (\<exists>r p p'. x = Some (r, p) \<and> y = Some (r, p') \<and> (p' = p \<or> insider ch e r s s1))"
    by blast
  from Cons.IH [OF al] ks kt xy insider_alike [OF Cons.prems al, of e] show ?case by (auto simp: c)
qed simp

text \<open>C4: What is written in a message stays in its channel.  Let a user send a message to channel
  \<open>ch\<close>, and in another run a message of another type, content, nonce and signature.  Then in every
  sequence of requests and frames that follows, of any users, all answers to those without access
  to \<open>ch\<close> are the same in both runs.\<close>

theorem contents_stay_in_channel:
  assumes "sendHandler e w r s = (Json p, s1)" and "me_decode_send e (rq_body r) = Some q"
    and "sendHandler (e\<lparr>me_decode_send := (\<lambda>_. Some (q\<lparr>sr_content := x, sr_nonce := y, sr_signature := z, sr_type := n\<rparr>))\<rparr>)
           w r s = (a, s2)"
    and "ch = msg_channel_id (last (messages_of (rt_db s1)))"
  shows "a = Json p \<and> outsiders_see ch cs s2 = outsiders_see ch cs s1"
proof -
  let ?q = "q\<lparr>sr_content := x, sr_nonce := y, sr_signature := z, sr_type := n\<rparr>"
  let ?e = "e\<lparr>me_decode_send := (\<lambda>_. Some ?q)\<rparr>"
  obtain q0 u c db1 m db2 where s: "me_decode_send e (rq_body r) = Some q0" "authenticate e (rt_db s) r = Inr u"
    "resolveRequestedChannel (at (me_fault e) C_Resolve) (rt_db s) u (sr_channel_id q0) = (Inr c, db1)"
    "SaveMessage (at (me_fault e) C_Save) (me_now e) (me_uuid e) db1 q0 u c = (Inr m, db2)"
    "Broadcast (at (me_fault e) C_Broadcast) m (set_db db2 (set_db db1 s)) = (None, s1)"
    using assms(1) by (rule send_Json_cases)
  have "rt_db s1 = db2" using Broadcast_db [of "at (me_fault e) C_Broadcast" m "set_db db2 (set_db db1 s)"] s(5) by simp
  with SaveMessage_Inr [OF s(4)] assms(4) have "c = ch" by (auto simp: messages_of_def)
  with s(1-3) assms(2) have req: "\<And>u' c' d. authenticate e (rt_db s) r = Inr u' \<Longrightarrow>
      resolveRequestedChannel (at (me_fault e) C_Resolve) (rt_db s) u' (sr_channel_id q) = (Inr c', d) \<Longrightarrow>
      same_request ch c' q ?q"
    by (auto simp: same_request_def)
  have "\<exists>t1. sendHandler ?e w r s = (Json p, t1) \<and> alike ch s1 t1"
    by (rule send_alike [OF alike_refl assms(1,2) _ _ _ req]) simp_all
  with assms(3) outsiders_alike show ?thesis by auto
qed

text \<open>Alice writes to Bob; Carol asks for their history and her channels.\<close>

definition ex_outsider_calls :: "(msg_call \<times> msg_env) list" where
  "ex_outsider_calls =
    [(Call_History ex_writer (ex_req ''GET'' ''carol'' ''dm:a:b''), ex_env),
     (Call_Channels ex_writer (ex_req ''GET'' ''carol'' []), ex_env),
     (Call_History ex_writer (ex_req ''GET'' ''bob'' ''dm:a:b''), ex_env)]"

theorem contents_stay_in_channel_witness:
  "\<exists>s1 s2. sendHandler ex_env ex_writer (ex_req ''POST'' ''alice'' ''b'') ex_router = (Json (P_Send ''m1'' True), s1) \<and>
    map msg_content (messages_of (rt_db s1)) = [''hi''] \<and> map msg_content (messages_of (rt_db s2)) = [''other''] \<and>
    outsiders_see ''dm:a:b'' ex_outsider_calls s2 = outsiders_see ''dm:a:b'' ex_outsider_calls s1 \<and>
    outsiders_see ''dm:a:b'' ex_outsider_calls s1 =
      [Http_Error 403 ''forbidden'', Json (P_Channels [(''g'', ''general'', ''public'')])]"
proof -
  let ?r = "ex_req ''POST'' ''alice'' ''b''"
  let ?q = "\<lparr>sr_channel_id = ''b'', sr_content = ''hi'', sr_nonce = [], sr_signature = [], sr_type = 0\<rparr>"
  let ?e = "ex_env\<lparr>me_decode_send := (\<lambda>_. Some (?q\<lparr>sr_content := ''other'', sr_nonce := [], sr_signature := [], sr_type := 1\<rparr>))\<rparr>"
  let ?h1 = "sendHandler ex_env ex_writer ?r ex_router" and ?h2 = "sendHandler ?e ex_writer ?r ex_router"
  have "fst ?h1 = Json (P_Send ''m1'' True)" by code_simp
  then have h1: "?h1 = (Json (P_Send ''m1'' True), snd ?h1)" by (simp add: prod_eq_iff)
  have q: "me_decode_send ex_env (rq_body ?r) = Some ?q" by (simp add: ex_env_def ex_req_def)
  have ch: "''dm:a:b'' = msg_channel_id (last (messages_of (rt_db (snd ?h1))))" by code_simp
  have out: "outsiders_see ''dm:a:b'' ex_outsider_calls (snd ?h1) =
      [Http_Error 403 ''forbidden'', Json (P_Channels [(''g'', ''general'', ''public'')])]"
    unfolding ex_outsider_calls_def by code_simp
  have m1: "map msg_content (messages_of (rt_db (snd ?h1))) = [''hi'']" by code_simp
  have m2: "map msg_content (messages_of (rt_db (snd ?h2))) = [''other'']" by code_simp
  have "?h2 = (fst ?h2, snd ?h2)" by simp
  from contents_stay_in_channel [OF h1 q this ch, of ex_outsider_calls] h1 out m1 m2 show ?thesis
    by (intro exI [of _ "snd ?h1"] exI [of _ "snd ?h2"]) simp
qed

end
