(* ===== verification/Services.thy ===== *)
theory Services
  imports Auth AuditChain FileTransfer Cluster Presence MessagingHandlers
begin

section \<open>The servers of the services\<close>

text \<open>
  What \<open>main\<close> of each service serves: \<open>http.ServeMux\<close> with its routes, every one behind the tracing
  middleware.  The patterns are fixed paths; a request for another path never reaches a handler
  (the multiplexer answers it itself, with 404 or a redirect to the cleaned path), which is \<open>None\<close> here.
  A limited server keeps its limiter, shared by all routes, beside the service's state.
\<close>

type_synonym ('s, 'b) traced_handler = "trace_env \<Rightarrow> writer \<Rightarrow> request \<Rightarrow> 's \<Rightarrow> 'b traced \<times> 's"
type_synonym ('s, 'b) server = "trace_env \<Rightarrow> writer \<Rightarrow> request \<Rightarrow> 's \<Rightarrow> 'b traced option \<times> 's"

definition serve_mux :: "(string \<times> ('s, 'b) traced_handler) list \<Rightarrow> ('s, 'b) server" where
  "serve_mux routes t w r s =
    (case map_of routes (rq_path r) of
       None \<Rightarrow> (None, s)
     | Some h \<Rightarrow> (let (a, s') = h t w r s in (Some a, s')))"

definition defaultAuthBodyLimit :: nat where "defaultAuthBodyLimit = push_bit 20 1"
definition defaultAuditBodyLimit :: nat where "defaultAuditBodyLimit = push_bit 10 64"
definition defaultUploadLimit :: nat where "defaultUploadLimit = push_bit 20 20"

definition auth_routes :: "auth_env \<Rightarrow> (string \<times> (limiter \<times> platform_db, auth_payload) traced_handler) list" where
  "auth_routes e =
    [(''/register'', auth_withRequestTrace ''register'' defaultAuthBodyLimit (RegisterHandler e)),
     (''/login'', auth_withRequestTrace ''login'' defaultAuthBodyLimit (LoginHandler e)),
     (''/health'', auth_withRequestTrace ''health'' 0 auth_healthHandler)]"

definition audit_routes :: "audit_env \<Rightarrow> (string \<times> (limiter \<times> audit_service, unit) traced_handler) list" where
  "audit_routes e = [(''/log'', audit_withRequestTrace ''log'' defaultAuditBodyLimit (LogHandler e))]"

definition file_routes :: "file_env \<Rightarrow> (string \<times> (limiter \<times> storage, file_payload) traced_handler) list" where
  "file_routes e =
    [(''/upload'', filetransfer_withRequestTrace ''upload'' (defaultUploadLimit + 1024 * 1024) (UploadHandler e)),
     (''/download'', filetransfer_withRequestTrace ''download'' 0 (DownloadHandler e)),
     (''/health'', filetransfer_withRequestTrace ''health'' 0 file_healthHandler)]"

definition cluster_routes :: "unit \<Rightarrow> (string \<times> (limiter \<times> raft_node, unit) traced_handler) list" where
  "cluster_routes e = [(''/join'', cluster_withRequestTrace ''join'' JoinHandler)]"

definition presence_routes :: "presence_env \<Rightarrow> (string \<times> (platform_db, presence_payload) traced_handler) list" where
  "presence_routes e =
    [(''/heartbeat'', presence_withRequestTrace ''heartbeat'' (HeartbeatHandler e)),
     (''/status'', presence_withRequestTrace ''status'' (StatusHandler e)),
     (''/health'', presence_withRequestTrace ''health'' presence_healthHandler)]"

text \<open>\<open>up\<close> is the outcome of the WebSocket upgrade.\<close>

definition messaging_routes ::
  "msg_env \<times> (writer \<Rightarrow> request \<Rightarrow> nat option) \<Rightarrow> (string \<times> (router, msg_payload) traced_handler) list" where
  "messaging_routes = (\<lambda>(e, up).
    [(''/ws'', messaging_withRequestTrace ''ws'' (HandleWS e up)),
     (''/history'', messaging_withRequestTrace ''history'' (HistoryHandler e)),
     (''/channels'', messaging_withRequestTrace ''channels'' (ChannelsHandler e)),
     (''/channel-members'', messaging_withRequestTrace ''channel-members'' (ChannelMembersHandler e)),
     (''/dm'', messaging_withRequestTrace ''dm'' (CreateDMHandler e)),
     (''/health'', messaging_withRequestTrace ''health'' msg_healthHandler),
     (''/send'', messaging_withRequestTrace ''send'' (sendHandler e))])"

definition auth_server :: "auth_env \<Rightarrow> (limiter \<times> platform_db, auth_payload) server" where
  "auth_server e = serve_mux (auth_routes e)"

definition audit_server :: "audit_env \<Rightarrow> (limiter \<times> audit_service, unit) server" where
  "audit_server e = serve_mux (audit_routes e)"

definition file_server :: "file_env \<Rightarrow> (limiter \<times> storage, file_payload) server" where
  "file_server e = serve_mux (file_routes e)"

definition cluster_server :: "unit \<Rightarrow> (limiter \<times> raft_node, unit) server" where
  "cluster_server e = serve_mux (cluster_routes e)"

definition presence_server :: "presence_env \<Rightarrow> (platform_db, presence_payload) server" where
  "presence_server e = serve_mux (presence_routes e)"

definition messaging_server ::
  "msg_env \<times> (writer \<Rightarrow> request \<Rightarrow> nat option) \<Rightarrow> (router, msg_payload) server" where
  "messaging_server e = serve_mux (messaging_routes e)"

subsection \<open>Serving one request after another\<close>

text \<open>The requests, each with what the handlers get from their surroundings, and their answers.\<close>

type_synonym 'e call = "'e \<times> trace_env \<times> writer \<times> request"

fun serve :: "('e \<Rightarrow> ('s, 'b) server) \<Rightarrow> 'e call list \<Rightarrow> 's \<Rightarrow> ('e call \<times> 'b traced option) list \<times> 's" where
  "serve srv [] s = ([], s)"
| "serve srv ((e, t, w, r) # qs) s =
    (let (a, s1) = srv e t w r s; (as, s2) = serve srv qs s1 in (((e, t, w, r), a) # as, s2))"

definition call_time :: "'e call \<Rightarrow> instant" where
  "call_time q = te_allow (fst (snd q))"

definition call_ip :: "'e call \<Rightarrow> string" where
  "call_ip q = clientIP (snd (snd (snd q)))"

text \<open>The calls of a client address that reached a handler, by the time their quota was checked.\<close>

definition processed :: "string \<Rightarrow> ('e call \<times> 'b traced option) list \<Rightarrow> instant list" where
  "processed k as = map (\<lambda>(q, a). call_time q)
    (filter (\<lambda>(q, a). call_ip q = k \<and> (case a of None \<Rightarrow> False | Some x \<Rightarrow> status_of (tr_reply x) \<noteq> 429)) as)"

lemma sorted_subseq: "subseq xs ys \<Longrightarrow> sorted ys \<Longrightarrow> sorted xs"
  by (induction rule: list_emb.induct) (auto dest: list_emb_set)

text \<open>
  The contract of a limited server: every route is a limited trace around a handler that never answers
  429 itself.  Then all routes together share one quota.
\<close>

locale limited_server =
  fixes routes :: "'e \<Rightarrow> (string \<times> (limiter \<times> 's, 'b) traced_handler) list"
  assumes route_limited: "(p, h) \<in> set (routes e) \<Longrightarrow>
    \<exists>svc name mb nxt. h = limited_trace svc name mb nxt \<and> never_limits nxt"
begin

lemma served_cases:
  obtains "serve_mux (routes e) t w r s = (None, s)"
  | svc name mb nxt where "never_limits nxt"
    "serve_mux (routes e) t w r s = map_prod Some id (limited_trace svc name mb nxt t w r s)"
proof (cases "map_of (routes e) (rq_path r)")
  case None
  then show ?thesis using that(1) by (simp add: serve_mux_def)
next
  case (Some h)
  from route_limited [OF map_of_SomeD [OF Some]] obtain svc name mb nxt where
    "h = limited_trace svc name mb nxt" "never_limits nxt" by blast
  with Some show ?thesis using that(2) [of nxt svc name mb] by (simp add: serve_mux_def case_prod_beta map_prod_def)
qed

lemma over_quota_keeps_state:
  assumes "\<not> fst (Allow (te_allow t) (clientIP r) (fst s))"
  shows "snd (snd (serve_mux (routes e) t w r s)) = snd s \<and>
    (case fst (serve_mux (routes e) t w r s) of None \<Rightarrow> True | Some a \<Rightarrow> status_of (tr_reply a) = 429)"
  using served_cases [of e t w r s]
  by (rule; simp add: limited_trace_rejects [OF assms] too_many_def)

lemma serve_admits:
  "\<exists>rs. processed k (fst (serve (\<lambda>e. serve_mux (routes e)) qs s)) =
      times_of k (snd (admit_run Allow rs (fst s))) \<and>
    subseq (map fst rs) (map call_time qs)"
proof (induction qs arbitrary: s)
  case Nil
  show ?case by (intro exI [of _ "[]"]) (simp add: processed_def)
next
  case (Cons q qs)
  obtain e t w r where q: "q = (e, t, w, r)" by (cases q)
  obtain a s1 where step: "serve_mux (routes e) t w r s = (a, s1)" by (cases "serve_mux (routes e) t w r s")
  from Cons.IH [of s1] obtain rs where
    rs: "processed k (fst (serve (\<lambda>e. serve_mux (routes e)) qs s1)) = times_of k (snd (admit_run Allow rs (fst s1)))"
    "subseq (map fst rs) (map call_time qs)" by blast
  have unfold: "processed k (fst (serve (\<lambda>e. serve_mux (routes e)) (q # qs) s)) =
      (if clientIP r = k \<and> (case a of None \<Rightarrow> False | Some x \<Rightarrow> status_of (tr_reply x) \<noteq> 429)
       then [te_allow t] else []) @ processed k (fst (serve (\<lambda>e. serve_mux (routes e)) qs s1))"
    by (simp add: q step processed_def call_time_def call_ip_def case_prod_beta)
  show ?case
  proof (rule served_cases [of e t w r s])
    assume "serve_mux (routes e) t w r s = (None, s)"
    with step have "a = None" "s1 = s" by simp_all
    with rs unfold show ?thesis by (intro exI [of _ rs]) auto
  next
    fix svc name mb nxt
    assume nxt: "never_limits nxt"
      and "serve_mux (routes e) t w r s = map_prod Some id (limited_trace svc name mb nxt t w r s)"
    with step have a: "a = Some (fst (limited_trace svc name mb nxt t w r s))"
      and s1: "s1 = snd (limited_trace svc name mb nxt t w r s)" by (simp_all add: map_prod_def case_prod_beta)
    have time: "call_time q = te_allow t" by (simp add: q call_time_def)
    have lim: "fst s1 = snd (Allow (te_allow t) (clientIP r) (fst s))"
      by (simp add: s1 limited_trace_limiter)
    have "(status_of (tr_reply (fst (limited_trace svc name mb nxt t w r s))) \<noteq> 429) =
        fst (Allow (te_allow t) (clientIP r) (fst s))"
      using limited_trace_429 [OF nxt] by blast
    with a rs unfold lim show ?thesis
      by (intro exI [of _ "(te_allow t, clientIP r) # rs"]) (auto simp: time Let_def)
  qed
qed

lemma quota:
  assumes "sorted (map call_time qs)" and "0 \<le> c"
  shows "int (in_window win T (processed k (fst (serve (\<lambda>e. serve_mux (routes e)) qs (newIPRateLimiter c win, s))))) \<le> c"
proof -
  let ?l = "newIPRateLimiter c win"
  obtain rs where
    rs: "processed k (fst (serve (\<lambda>e. serve_mux (routes e)) qs (?l, s))) = times_of k (snd (admit_run Allow rs ?l))"
    and sub: "subseq (map fst rs) (map call_time qs)"
    using serve_admits [of k qs "(?l, s)"] by auto
  have "sorted (map fst rs)" using sorted_subseq [OF sub] assms(1) by simp
  from rl.window_bound [of ?l k rs T] this assms(2) rs show ?thesis by simp
qed

end

lemma trace_defs: "auth_withRequestTrace = limited_trace ''auth''" "audit_withRequestTrace = limited_trace ''audit''"
  "filetransfer_withRequestTrace = limited_trace ''filetransfer''"
  "cluster_withRequestTrace name = limited_trace ''cluster'' name 0"
  by (simp_all add: auth_withRequestTrace_def audit_withRequestTrace_def filetransfer_withRequestTrace_def
      cluster_withRequestTrace_def)

lemma auth_never_limits: "never_limits (RegisterHandler e)" "never_limits (LoginHandler e)" "never_limits auth_healthHandler"
  unfolding never_limits_def RegisterHandler_def LoginHandler_def auth_healthHandler_def
  by (auto simp: Let_def split: option.splits sum.splits)

lemma other_never_limits: "never_limits (LogHandler ae)" "never_limits (UploadHandler fe)"
  "never_limits (DownloadHandler fe)" "never_limits file_healthHandler" "never_limits JoinHandler"
  unfolding never_limits_def LogHandler_def UploadHandler_def DownloadHandler_def file_healthHandler_def JoinHandler_def
  by (auto simp: Let_def split: option.splits list.splits prod.splits write_result.splits)

interpretation auth_srv: limited_server auth_routes
  by unfold_locales (auto simp: auth_routes_def trace_defs; metis auth_never_limits)

interpretation audit_srv: limited_server audit_routes
  by unfold_locales (auto simp: audit_routes_def trace_defs; metis other_never_limits)

interpretation file_srv: limited_server file_routes
  by unfold_locales (auto simp: file_routes_def trace_defs; metis other_never_limits)

interpretation cluster_srv: limited_server cluster_routes
  by unfold_locales (auto simp: cluster_routes_def trace_defs; metis other_never_limits)



end
