(* ===== verification/World.thy ===== *)
theory World
  imports Services PlatformProps AdminServer MessagingProps
begin

section \<open>The deployment: the servers on the shared database\<close>

text \<open>
  The auth, messaging, presence and admin servers as they face the network, with one database between
  them (kept in the router's state), their in-memory states, and their restarts.  A step is one request
  through a server's routes and middleware, a frame or a write of a connection, a tick of the
  presence cleanup, or the start of a service.  The deployment refines the steps of \<open>Platform\<close>.
\<close>

record 'f world =
  w_router :: router
  w_limiter :: limiter
  w_admin :: "'f server_state"

abbreviation w_db :: "'f world \<Rightarrow> platform_db" where
  "w_db v \<equiv> rt_db (w_router v)"

definition put_db :: "platform_db \<Rightarrow> 'f world \<Rightarrow> 'f world" where
  "put_db db v = v\<lparr>w_router := set_db db (w_router v)\<rparr>"

text \<open>Fresh identifiers contain no colon, as the UUID library's do not.\<close>

inductive world_step :: "('f :: linorder) world \<Rightarrow> 'f world \<Rightarrow> bool" where
  wst_auth: "auth_server e t w r (w_limiter v, w_db v) = (a, l, db) \<Longrightarrow> colon_free (au_uuid e) \<Longrightarrow>
    world_step v (put_db db (v\<lparr>w_limiter := l\<rparr>))"
| wst_presence: "presence_server pe t w r (w_db v) = (b, db) \<Longrightarrow> world_step v (put_db db v)"
| wst_messaging: "messaging_server (me, up) t w r (w_router v) = (c, s) \<Longrightarrow> world_step v (v\<lparr>w_router := s\<rparr>)"
| wst_admin: "server ro se r ((w_admin v)\<lparr>sv_db := w_db v\<rparr>) = (d, s) \<Longrightarrow> colon_free (ad_uuid (se_admin se)) \<Longrightarrow>
    world_step v (put_db (sv_db s) (v\<lparr>w_admin := s\<rparr>))"
| wst_frame: "rt_heap (w_router v) n = Some cl \<Longrightarrow>
    world_step v (v\<lparr>w_router := ws_read me (cl_user cl) fr (w_router v)\<rparr>)"
| wst_write: "world_step v (v\<lparr>w_router := snd (write_loop_recv n (w_router v))\<rparr>)"
| wst_close: "rt_heap (w_router v) n \<noteq> None \<Longrightarrow> world_step v (v\<lparr>w_router := Unregister n (w_router v)\<rparr>)"
| wst_cleanup: "world_step v (put_db (cleanup_tick now f (w_db v)) v)"
| wst_start_messaging: "world_step v (v\<lparr>w_router := NewMessageRouter (w_db v)\<rparr>)"
| wst_start_auth: "colon_free (au_uuid e) \<Longrightarrow>
    world_step v (put_db (auth_main_init e f (w_db v)) (v\<lparr>w_limiter := authLimiter\<rparr>))"
| wst_start_presence: "world_step v (put_db (presence_initDB (w_db v)) v)"
| wst_start_admin: "s = admin_main_init ae (w_db v) \<Longrightarrow> world_step v (put_db (sv_db s) (v\<lparr>w_admin := s\<rparr>))"

text \<open>At first no service has run: the file is empty.\<close>

definition world_init :: "('f :: linorder) world" where
  "world_init =
    \<lparr>w_router = (NewMessageRouter empty_db)\<lparr>rt_db := empty_db\<rparr>, w_limiter = authLimiter,
     w_admin = \<lparr>sv_db = empty_db, sv_metrics = Map.empty, sv_cache = resetOverviewCache, sv_hub = NewHub,
       sv_sink = \<lparr>as_date = [], as_file = None, as_files = Map.empty\<rparr>\<rparr>\<rparr>"

lemma put_db_simps [simp]: "w_db (put_db db v) = db" "w_limiter (put_db db v) = w_limiter v"
  "w_admin (put_db db v) = w_admin v" "w_router (put_db db v) = set_db db (w_router v)"
  by (simp_all add: put_db_def)

subsection \<open>What a server does is what one of its handlers does\<close>

lemma plain_trace_state:
  "snd (plain_trace svc name nxt t w r s) =
    snd (nxt (statusRecorder w) (set_header requestIDHeader (getOrCreateRequestID (te_rnd t) (te_fallback t) r) r) s)"
  by (simp add: plain_trace_def case_prod_beta Let_def)

lemma limited_trace_state:
  "\<exists>w' r'. snd (snd (limited_trace svc name mb nxt t w r ls)) \<in> {snd ls, snd (nxt w' r' (snd ls))}"
  by (auto simp: limited_trace_def case_prod_beta Let_def)

lemma messaging_server_state:
  "\<exists>w' r'. snd (messaging_server (e, up) t w r s) \<in>
    {s, snd (HandleWS e up w' r' s), snd (HistoryHandler e w' r' s), snd (ChannelsHandler e w' r' s),
     snd (ChannelMembersHandler e w' r' s), snd (CreateDMHandler e w' r' s), snd (sendHandler e w' r' s)}"
proof -
  let ?w = "statusRecorder w"
  let ?r = "set_header requestIDHeader (getOrCreateRequestID (te_rnd t) (te_fallback t) r) r"
  have "snd (messaging_server (e, up) t w r s) \<in>
    {s, snd (HandleWS e up ?w ?r s), snd (HistoryHandler e ?w ?r s), snd (ChannelsHandler e ?w ?r s),
     snd (ChannelMembersHandler e ?w ?r s), snd (CreateDMHandler e ?w ?r s), snd (sendHandler e ?w ?r s)}"
    by (simp add: messaging_server_def serve_mux_def messaging_routes_def messaging_withRequestTrace_def
        case_prod_beta Let_def plain_trace_state msg_healthHandler_def)
  then show ?thesis by blast
qed

lemma presence_server_state:
  "\<exists>ev. snd (presence_server e t w r db) \<in> {db, presence_step ev db}"
proof -
  let ?w = "statusRecorder w"
  let ?r = "set_header requestIDHeader (getOrCreateRequestID (te_rnd t) (te_fallback t) r) r"
  have "snd (presence_server e t w r db) \<in>
    {db, presence_step (PE_Heartbeat e ?w ?r) db, presence_step (PE_Query e ?w ?r) db}"
    by (simp add: presence_server_def serve_mux_def presence_routes_def presence_withRequestTrace_def
        case_prod_beta Let_def plain_trace_state presence_healthHandler_def)
  then show ?thesis by blast
qed

lemma auth_server_state:
  "\<exists>w' r'. snd (snd (auth_server e t w r ls)) \<in>
    {snd ls, snd (RegisterHandler e w' r' (snd ls)), snd (LoginHandler e w' r' (snd ls))}"
proof -
  have "\<exists>w' r'. snd (snd (limited_trace svc name mb nxt t w r ls)) \<in>
      {snd ls, snd (RegisterHandler e w' r' (snd ls)), snd (LoginHandler e w' r' (snd ls))}"
    if "nxt \<in> {RegisterHandler e, LoginHandler e, auth_healthHandler}" for svc name mb nxt
    using limited_trace_state [of svc name mb nxt t w r ls] that by (auto simp: auth_healthHandler_def)
  then show ?thesis
    by (auto simp: auth_server_def serve_mux_def auth_routes_def auth_withRequestTrace_def case_prod_beta Let_def
        split: option.splits)
qed

lemma admin_server_state:
  "\<exists>ro'. sv_db (snd (server ro e r s)) \<in>
    {sv_db s, snd (AdminLoginHandler (se_admin e) r (sv_db s)), snd (admin_serve ro' (se_admin e) r (sv_db s))}"
proof -
  have "\<exists>ro'. sv_db (snd (dispatch ro e r s)) \<in>
    {sv_db s, snd (AdminLoginHandler (se_admin e) r (sv_db s)), snd (admin_serve ro' (se_admin e) r (sv_db s))}"
    by (cases ro) (auto simp: case_prod_beta guarded_def split: sum.splits option.splits)
  then show ?thesis by (auto simp: server_parts(2) cors_def)
qed

subsection \<open>The identifiers of the users\<close>

lemma ids_plain_same: "t_users db' = t_users db \<Longrightarrow> ids_plain db' = ids_plain db"
  by (simp add: ids_plain_def)

lemma ids_plain_put [simp]: "ids_plain (db\<lparr>t_users := t\<rparr>) \<longleftrightarrow> (\<forall>us. t = Some us \<longrightarrow> (\<forall>u\<in>set us. colon_free (usr_id u)))"
  by (simp add: ids_plain_def)

lemma ids_plain_insert:
  "exec_insert f ins_user u (t_users db) = Some t \<Longrightarrow> ids_plain db \<Longrightarrow> colon_free (usr_id u) \<Longrightarrow>
    ids_plain (db\<lparr>t_users := t\<rparr>)"
  by (auto simp: exec_insert_def ins_user_def ids_plain_def split: if_splits option.splits)

lemma ids_plain_update:
  "exec_update f ok P g (t_users db) = Some t \<Longrightarrow> ids_plain db \<Longrightarrow> (\<And>u. usr_id (g u) = usr_id u) \<Longrightarrow>
    ids_plain (db\<lparr>t_users := t\<rparr>)"
  by (auto simp: exec_update_def ids_plain_def Let_def split: if_splits option.splits)

lemma ids_plain_log [simp]: "ids_plain (audit_Log e k c a g d r db) = ids_plain db"
  by (rule ids_plain_same) (simp add: audit_Log_def split: option.splits)

lemma ids_plain_auth:
  assumes "ids_plain db" "colon_free (au_uuid e)"
  shows "ids_plain (snd (RegisterHandler e w r db))" "ids_plain (snd (LoginHandler e w r db))"
    "ids_plain (snd (ensureDefaultUser e f0 n p g db))"
  using assms
  by (auto simp: RegisterHandler_def LoginHandler_def ensureDefaultUser_def Let_def simp del: ids_plain_put
      split: option.splits sum.splits intro!: ids_plain_insert)

lemma ids_plain_delete:
  "exec_delete f P (t_users db) = Some (t, n) \<Longrightarrow> ids_plain db \<Longrightarrow> ids_plain (db\<lparr>t_users := t\<rparr>)"
  by (auto simp: exec_delete_def ids_plain_def split: if_splits option.splits)

lemma ids_plain_users:
  assumes "ids_plain db" "colon_free (ad_uuid e)"
  shows "ids_plain (snd (users_Create e c r db))" "ids_plain (snd (users_Update i e c r db))"
    "ids_plain (snd (users_ResetPassword i e c r db))" "ids_plain (snd (users_Delete i e c r db))"
proof -
  show "ids_plain (snd (users_Create e c r db))"
    using assms by (auto simp: users_Create_def Let_def simp del: ids_plain_put split: option.splits
        intro!: ids_plain_insert)
  show "ids_plain (snd (users_Update i e c r db))" "ids_plain (snd (users_ResetPassword i e c r db))"
    unfolding users_Update_def users_ResetPassword_def using assms
    by (auto simp: user_update_id simp del: ids_plain_put split: option.splits intro!: ids_plain_update)
  show "ids_plain (snd (users_Delete i e c r db))"
    using assms by (auto simp: users_Delete_def delete_reply_def simp del: ids_plain_put split: option.splits
        intro!: ids_plain_delete)
qed

text \<open>The other handlers do not touch the table.\<close>

lemma users_kept_writes:
  "t_users (snd (CreateAdminHandler e c r db)) = t_users db" "t_users (snd (departments_Create e c r db)) = t_users db"
  "t_users (snd (roles_Create e c r db)) = t_users db" "t_users (snd (channels_Create e c r db)) = t_users db"
  "t_users (snd (channels_AddMember i e c r db)) = t_users db"
  unfolding CreateAdminHandler_def departments_Create_def roles_Create_def channels_Create_def
    channels_AddMember_def CreateAdminUser_def
  by (auto simp: Let_def audit_Log_def split: option.splits)

lemma users_kept_deletes:
  "t_users (snd (roles_Delete i e c r db)) = t_users db" "t_users (snd (departments_Delete i e c r db)) = t_users db"
  "t_users (snd (devices_Delete i e c r db)) = t_users db" "t_users (snd (channels_Delete i e c r db)) = t_users db"
  "t_users (snd (channels_RemoveMember i u e c r db)) = t_users db"
  unfolding delete_defs delete_reply_def
  by (auto simp: audit_Log_def split: option.splits)

lemma users_kept_roles: "t_users (snd (roles_Update i e c r db)) = t_users db"
  by (auto simp: roles_Update_def update_roles_def Let_def audit_Log_def split: option.splits)

lemmas ids_plain_kept = users_kept_writes [THEN ids_plain_same] users_kept_deletes [THEN ids_plain_same]
  users_kept_roles [THEN ids_plain_same]

lemma ids_plain_handler:
  assumes "ids_plain db" "colon_free (ad_uuid e)"
  shows "ids_plain (snd (handler_of ro e c r db))"
  using assms by (cases ro) (simp_all add: ids_plain_kept ids_plain_users read_only)

lemma ids_plain_serve:
  assumes "ids_plain db" "colon_free (ad_uuid e)"
  shows "ids_plain (snd (admin_serve ro e r db))"
  using ids_plain_handler [OF assms, of ro _ r] assms(1)
  by (auto simp: admin_serve_def protected_def route_handler_def Audit_def case_prod_beta Let_def
      split: sum.splits option.splits)

lemma users_kept_messaging:
  "t_users (rt_db (snd (HandleWS e up w r s))) = t_users (rt_db s)"
  "t_users (rt_db (snd (HistoryHandler e w r s))) = t_users (rt_db s)"
  "t_users (rt_db (snd (ChannelsHandler e w r s))) = t_users (rt_db s)"
  "t_users (rt_db (snd (ChannelMembersHandler e w r s))) = t_users (rt_db s)"
  by (auto simp: HandleWS_def HistoryHandler_def ChannelsHandler_def ChannelMembersHandler_def Register_def Let_def
      set_db_def split: option.splits sum.splits prod.splits dest: resolve_tables(2))

lemma users_kept_dm:
  "findOrCreateDMChannel f db a b = (x, db') \<Longrightarrow> t_users db' = t_users db"
  "t_users (rt_db (snd (CreateDMHandler e w r s))) = t_users (rt_db s)"
proof -
  show dm: "t_users db' = t_users db" if "findOrCreateDMChannel f db a b = (x, db')" for f db a b x db'
    using that findOrCreate_error findOrCreate_success dm_transaction_rows by (cases x) fastforce+
  show "t_users (rt_db (snd (CreateDMHandler e w r s))) = t_users (rt_db s)"
    by (auto simp: CreateDMHandler_def Let_def set_db_def split: option.splits sum.splits prod.splits dest: dm)
qed

lemma users_kept_save: "SaveMessage f n i db q u ch = (x, db') \<Longrightarrow> t_users db' = t_users db"
  using message_writes by fastforce

lemma Broadcast_rt_db: "Broadcast f m s = (b, t) \<Longrightarrow> rt_db t = rt_db s"
  using Broadcast_db [of f m s] by simp

lemma users_kept_send:
  "t_users (rt_db (snd (sendHandler e w r s))) = t_users (rt_db s)"
  "t_users (rt_db (ws_read e u fr s)) = t_users (rt_db s)"
  by (auto simp: sendHandler_def ws_read_def Let_def set_db_def split: option.splits sum.splits prod.splits
      dest!: Broadcast_rt_db resolve_tables(2) users_kept_save)

lemma users_kept_presence: "t_users (presence_step ev db) = t_users db"
  using presence_writes [of ev db] by auto

lemma users_kept_start: "ids_plain db \<Longrightarrow> ids_plain (start_service sv db)"
  by (cases sv) (auto simp: init_defs ids_plain_def create_def Let_def split: option.splits)

lemma users_kept_super: "t_users (EnsureSuperAdmin e n p db) = t_users db"
  using EnsureSuperAdmin_cases [of e n p db]
  by (auto simp: CreateAdminUser_def Let_def split: option.splits)

subsection \<open>The refinement\<close>

lemma messaging_platform_steps:
  assumes "ids_plain (rt_db s)"
  shows "platform_steps (rt_db s) (rt_db (snd (messaging_server (e, up) t w r s))) \<and>
    ids_plain (rt_db (snd (messaging_server (e, up) t w r s)))"
proof -
  obtain w' r' where "snd (messaging_server (e, up) t w r s) \<in>
    {s, snd (HandleWS e up w' r' s), snd (HistoryHandler e w' r' s), snd (ChannelsHandler e w' r' s),
     snd (ChannelMembersHandler e w' r' s), snd (CreateDMHandler e w' r' s), snd (sendHandler e w' r' s)}"
    using messaging_server_state by blast
  moreover have "rt_db (snd (HandleWS e up w' r' s)) = rt_db s"
    by (simp add: HandleWS_def Register_def Let_def split: sum.splits option.splits)
  ultimately show ?thesis
    using assms send_platform_steps [OF assms] other_platform_steps [OF assms]
      ids_plain_same [OF users_kept_messaging(2)] ids_plain_same [OF users_kept_dm(2)] ids_plain_same [OF users_kept_send(1)]
    by auto
qed

lemma messaging_router_steps: "router_steps s (snd (messaging_server (e, up) t w r s))"
  using messaging_server_state [of e up t w r s] send_steps other_steps by auto

lemma frame_platform_steps:
  assumes "ids_plain (rt_db s)" "colon_free u"
  shows "platform_steps (rt_db s) (rt_db (ws_read e u fr s))"
proof -
  have save: "platform_steps (rt_db s) db2"
    if "resolveRequestedChannel f (rt_db s) u q = (x, db)" "SaveMessage f' n i db q' u ch = (y, db2)"
    for f f' n i q' ch x y db db2 q
    using resolve_steps [OF that(1) assms] ps_save [OF that(2)] by (rule rtranclp.rtrancl_into_rtrancl)
  show ?thesis
    by (auto simp: ws_read_def Let_def set_db_def split: option.splits sum.splits prod.splits
        dest: Broadcast_rt_db intro: resolve_steps [OF _ assms] save)
qed

text \<open>The users of the connections: only a registration adds one, and it is an authenticated user.\<close>

definition conn_users :: "router \<Rightarrow> nat \<Rightarrow> string option" where
  "conn_users s n = map_option cl_user (rt_heap s n)"

definition conns_plain :: "router \<Rightarrow> bool" where
  "conns_plain s \<longleftrightarrow> (\<forall>n u. conn_users s n = Some u \<longrightarrow> colon_free u)"

lemma conn_users_simps [simp]:
  "conn_users (set_db db s) = conn_users s" "conn_users (Unregister k s) = conn_users s"
  "conn_users (snd (write_loop_recv k s)) = conn_users s" "conn_users (trySend m k s) = conn_users s"
  by (auto simp: fun_eq_iff conn_users_def set_db_def Unregister_def close_chan_def write_loop_recv_def trySend_def
      Let_def split: option.splits list.splits)

lemma conn_users_deliver [simp]: "conn_users (deliver m mt s) = conn_users s"
proof -
  have "conn_users (foldl (\<lambda>t k. trySend m k t) s ks) = conn_users s" for ks
    by (induction ks arbitrary: s) simp_all
  then show ?thesis by (simp add: deliver_def)
qed

lemma conn_users_Broadcast [simp]: "conn_users (snd (Broadcast f m s)) = conn_users s"
  by (simp add: Broadcast_def split: sum.splits)

lemma conn_users_BroadcastD: "Broadcast f m s = (b, t) \<Longrightarrow> conn_users t = conn_users s"
  using conn_users_Broadcast [of f m s] by simp

lemma conn_users_handlers:
  "conn_users (snd (sendHandler e w r s)) = conn_users s" "conn_users (snd (HistoryHandler e w r s)) = conn_users s"
  "conn_users (snd (ChannelsHandler e w r s)) = conn_users s" "conn_users (snd (CreateDMHandler e w r s)) = conn_users s"
  "conn_users (snd (ChannelMembersHandler e w r s)) = conn_users s" "conn_users (ws_read e u fr s) = conn_users s"
  by (auto simp: handler_defs Let_def split: option.splits sum.splits prod.splits dest: conn_users_BroadcastD)

lemma conns_plain_ws:
  assumes "conns_plain s" "ids_plain (rt_db s)" shows "conns_plain (snd (HandleWS e up w r s))"
  using assms authenticated_plain [OF assms(2)]
  by (auto simp: HandleWS_def Register_def Let_def conns_plain_def conn_users_def split: sum.splits option.splits if_splits)

lemma conns_plain_server:
  assumes "conns_plain s" "ids_plain (rt_db s)" shows "conns_plain (snd (messaging_server (e, up) t w r s))"
proof -
  have ws: "conns_plain (snd (HandleWS e up w' r' s))" for w' r' by (rule conns_plain_ws [OF assms])
  show ?thesis
    using messaging_server_state [of e up t w r s] ws assms(1)
    by (auto simp: conns_plain_def conn_users_handlers)
qed

definition world_inv :: "('f :: linorder) world \<Rightarrow> bool" where
  "world_inv v \<longleftrightarrow> platform_reach (w_db v) \<and> router_reach (w_router v) \<and> ids_plain (w_db v) \<and>
    conns_plain (w_router v)"

lemma world_inv_put:
  assumes "world_inv v" "platform_steps (w_db v) db" "ids_plain db" "w_router v' = w_router v"
  shows "platform_steps (w_db v) (w_db (put_db db v')) \<and> world_inv (put_db db v')"
  using assms platform_runs.steps rr_step [OF _ rs_db]
  by (auto simp: world_inv_def conns_plain_def)

lemma world_inv_router:
  assumes "world_inv v" "platform_steps (w_db v) (rt_db s)" "ids_plain (rt_db s)" "conns_plain s"
    "router_reach s"
  shows "platform_steps (w_db v) (w_db (v\<lparr>w_router := s\<rparr>)) \<and> world_inv (v\<lparr>w_router := s\<rparr>)"
  using assms platform_runs.steps by (auto simp: world_inv_def)

lemma start_steps: "platform_steps db (start_service sv db)"
  by (rule r_into_rtranclp) (rule ps_start)

text \<open>One lemma per server: its step is a sequence of platform steps and keeps the invariant.\<close>

lemma world_invD:
  assumes "world_inv v"
  shows "ids_plain (w_db v)" "conns_plain (w_router v)" "router_reach (w_router v)"
  using assms by (simp_all add: world_inv_def)

lemma auth_step:
  assumes "world_inv v" "auth_server e t w r (w_limiter v, w_db v) = (a, l, db)" "colon_free (au_uuid e)"
  shows "platform_steps (w_db v) db \<and> ids_plain db"
proof -
  obtain w' r' where "db \<in> {w_db v, snd (RegisterHandler e w' r' (w_db v)), snd (LoginHandler e w' r' (w_db v))}"
    using auth_server_state [of e t w r "(w_limiter v, w_db v)"] assms(2) by auto
  then show ?thesis
    using ids_plain_auth [OF world_invD(1) [OF assms(1)] assms(3)] world_invD(1) [OF assms(1)]
      r_into_rtranclp [of platform_step] ps_register ps_login by blast
qed

lemma presence_server_step:
  assumes "world_inv v" "presence_server pe t w r (w_db v) = (b, db)"
  shows "platform_steps (w_db v) db \<and> ids_plain db"
proof -
  obtain ev where "db \<in> {w_db v, presence_step ev (w_db v)}"
    using presence_server_state [of pe t w r "w_db v"] assms(2) by auto
  then show ?thesis
    using ids_plain_same [OF users_kept_presence] world_invD(1) [OF assms(1)] r_into_rtranclp [of platform_step] ps_presence
    by blast
qed

lemma admin_step:
  assumes "world_inv v" "server ro se r ((w_admin v)\<lparr>sv_db := w_db v\<rparr>) = (d, s)" "colon_free (ad_uuid (se_admin se))"
  shows "platform_steps (w_db v) (sv_db s) \<and> ids_plain (sv_db s)"
proof -
  have s: "s = snd (server ro se r ((w_admin v)\<lparr>sv_db := w_db v\<rparr>))" using assms(2) by simp
  obtain ro' where "sv_db s \<in> {w_db v, snd (AdminLoginHandler (se_admin se) r (w_db v)),
      snd (admin_serve ro' (se_admin se) r (w_db v))}"
    using admin_server_state [of ro se r "(w_admin v)\<lparr>sv_db := w_db v\<rparr>"] unfolding s by auto
  then show ?thesis
    using ids_plain_serve [OF world_invD(1) [OF assms(1)] assms(3)] world_invD(1) [OF assms(1)]
      r_into_rtranclp [of platform_step] ps_admin login_keeps by auto
qed

lemma auth_start_step:
  assumes "world_inv v" "colon_free (au_uuid e)"
  shows "platform_steps (w_db v) (auth_main_init e f (w_db v)) \<and> ids_plain (auth_main_init e f (w_db v))"
proof -
  let ?db = "start_service Auth (w_db v)"
  have eq: "auth_main_init e f (w_db v) = snd (ensureDefaultUser e f ''admin'' ''password'' ''admin'' ?db)"
    by (simp add: auth_main_init_def)
  have "platform_steps (w_db v) (auth_main_init e f (w_db v))"
    unfolding eq using start_steps ps_default_user by (rule rtranclp.rtrancl_into_rtrancl)
  moreover have "ids_plain (auth_main_init e f (w_db v))"
    unfolding eq by (rule ids_plain_auth(3)) (rule users_kept_start [OF world_invD(1) [OF assms(1)]], rule assms(2))
  ultimately show ?thesis by blast
qed

lemma admin_start_step:
  assumes "world_inv v"
  shows "platform_steps (w_db v) (EnsureSuperAdmin ae n p (admin_migrate (w_db v))) \<and>
    ids_plain (EnsureSuperAdmin ae n p (admin_migrate (w_db v)))"
proof -
  let ?db = "start_service Admin (w_db v)"
  have "platform_steps (w_db v) (EnsureSuperAdmin ae n p ?db)"
    using start_steps ps_super_admin by (rule rtranclp.rtrancl_into_rtrancl)
  moreover have "ids_plain (EnsureSuperAdmin ae n p ?db)"
    unfolding ids_plain_same [OF users_kept_super] by (rule users_kept_start [OF world_invD(1) [OF assms]])
  ultimately show ?thesis by simp
qed

lemma connection_steps:
  assumes "world_inv v"
  shows "rt_heap (w_router v) n = Some cl \<Longrightarrow> s = ws_read me (cl_user cl) fr (w_router v) \<Longrightarrow>
      platform_steps (w_db v) (rt_db s) \<and> ids_plain (rt_db s) \<and> conns_plain s \<and> router_reach s"
    and "s = snd (write_loop_recv n (w_router v)) \<Longrightarrow>
      platform_steps (w_db v) (rt_db s) \<and> ids_plain (rt_db s) \<and> conns_plain s \<and> router_reach s"
    and "rt_heap (w_router v) n \<noteq> None \<Longrightarrow> s = Unregister n (w_router v) \<Longrightarrow>
      platform_steps (w_db v) (rt_db s) \<and> ids_plain (rt_db s) \<and> conns_plain s \<and> router_reach s"
proof -
  note plain = world_invD [OF assms]
  have db: "rt_db (snd (write_loop_recv n (w_router v))) = w_db v" "rt_db (Unregister n (w_router v)) = w_db v"
    by (simp_all add: write_loop_recv_def Unregister_def close_chan_def Let_def split: option.splits list.splits)
  show "platform_steps (w_db v) (rt_db s) \<and> ids_plain (rt_db s) \<and> conns_plain s \<and> router_reach s"
    if "rt_heap (w_router v) n = Some cl" "s = ws_read me (cl_user cl) fr (w_router v)"
  proof -
    have "colon_free (cl_user cl)" using plain(2) that(1) by (auto simp: conns_plain_def conn_users_def)
    moreover have "conns_plain s" using plain(2) by (simp add: that(2) conns_plain_def conn_users_handlers)
    ultimately show ?thesis
      using frame_platform_steps [OF plain(1)] plain(1) ids_plain_same [OF users_kept_send(2)]
        reach_steps [OF ws_read_steps plain(3)] unfolding that(2) by blast
  qed
  show "platform_steps (w_db v) (rt_db s) \<and> ids_plain (rt_db s) \<and> conns_plain s \<and> router_reach s"
    if "s = snd (write_loop_recv n (w_router v))"
    using plain rr_step [OF plain(3) rs_recv] db(1) by (simp add: that conns_plain_def)
  show "platform_steps (w_db v) (rt_db s) \<and> ids_plain (rt_db s) \<and> conns_plain s \<and> router_reach s"
    if "rt_heap (w_router v) n \<noteq> None" "s = Unregister n (w_router v)"
    using plain rr_step [OF plain(3) router_step.rs_unregister [OF that(1)]] db(2) by (simp add: that(2) conns_plain_def)
qed

lemma messaging_steps:
  assumes "world_inv v" "s = snd (messaging_server (me, up) t w r (w_router v)) \<or> s = NewMessageRouter (w_db v)"
  shows "platform_steps (w_db v) (rt_db s) \<and> ids_plain (rt_db s) \<and> conns_plain s \<and> router_reach s"
proof -
  note plain = world_invD [OF assms(1)]
  have "rt_db (NewMessageRouter (w_db v)) = start_service Messaging (w_db v)" "conns_plain (NewMessageRouter (w_db v))"
    by (simp_all add: NewMessageRouter_def conns_plain_def conn_users_def)
  with assms(2) show ?thesis
    using messaging_platform_steps [OF plain(1)] conns_plain_server [OF plain(2,1)]
      reach_steps [OF messaging_router_steps plain(3)] start_steps users_kept_start [OF plain(1)] rr_init
    by metis
qed

lemma world_step_inv:
  assumes "world_step v v'" and inv: "world_inv v"
  shows "platform_steps (w_db v) (w_db v') \<and> world_inv v'"
proof -
  note put = world_inv_put [OF inv] and router = world_inv_router [OF inv]
  show ?thesis
    using assms(1)
  proof (cases rule: world_step.cases)
    case (wst_auth e t w r a l db)
    with auth_step [OF inv wst_auth(2,3)] put [of db "v\<lparr>w_limiter := l\<rparr>"] show ?thesis by simp
  next
    case (wst_presence pe t w r b db)
    with presence_server_step [OF inv wst_presence(2)] put [of db v] show ?thesis by simp
  next
    case (wst_messaging me up t w r c s)
    then show ?thesis using messaging_steps [OF inv, of s me up t w r] router [of s] by auto
  next
    case (wst_admin ro se r d s)
    with admin_step [OF inv wst_admin(2,3)] put [of "sv_db s" "v\<lparr>w_admin := s\<rparr>"] show ?thesis by simp
  next
    case (wst_frame n cl me fr)
    with connection_steps(1) [OF inv wst_frame(2) refl] router show ?thesis by blast
  next
    case (wst_write n)
    with connection_steps(2) [OF inv refl] router show ?thesis by blast
  next
    case (wst_close n)
    with connection_steps(3) [OF inv wst_close(2) refl] router show ?thesis by blast
  next
    case (wst_cleanup now f)
    have "platform_steps (w_db v) (cleanup_tick now f (w_db v))"
      using r_into_rtranclp [of platform_step, OF ps_presence [of "w_db v" "PE_Tick now f"]] by simp
    moreover have "ids_plain (cleanup_tick now f (w_db v))"
      using ids_plain_same [OF users_kept_presence [of "PE_Tick now f" "w_db v"]] world_invD(1) [OF inv] by simp
    ultimately show ?thesis using put [of "cleanup_tick now f (w_db v)" v] wst_cleanup by simp
  next
    case wst_start_messaging
    with messaging_steps [OF inv, of "NewMessageRouter (w_db v)"] router show ?thesis by blast
  next
    case (wst_start_auth e f)
    with auth_start_step [OF inv wst_start_auth(2), of f] put [of _ "v\<lparr>w_limiter := authLimiter\<rparr>"]
    show ?thesis by simp
  next
    case wst_start_presence
    then show ?thesis
      using put [of "presence_initDB (w_db v)" v] start_steps [of "w_db v" Presence]
        users_kept_start [OF world_invD(1) [OF inv], of Presence] by simp
  next
    case (wst_start_admin s ae)
    then show ?thesis
      using admin_start_step [OF inv, of ae "''admin''" "''admin''"] put [of "sv_db s" "v\<lparr>w_admin := s\<rparr>"]
      by (simp add: admin_main_init_def)
  qed
qed

interpretation deployment: simulation world_step world_inv platform_step w_db
  by unfold_locales (use world_step_inv in blast)+

lemma world_init_inv: "world_inv world_init"
proof -
  have "router_reach (set_db empty_db (NewMessageRouter empty_db))" by (rule rr_step [OF rr_init rs_db])
  moreover have "ids_plain empty_db" by (simp add: ids_plain_def empty_db_def)
  ultimately show ?thesis
    by (simp add: world_inv_def world_init_def set_db_def pr_empty conns_plain_def conn_users_def
        NewMessageRouter_def)
qed

abbreviation world_steps :: "('f :: linorder) world \<Rightarrow> 'f world \<Rightarrow> bool" where
  "world_steps \<equiv> world_step\<^sup>*\<^sup>*"

text \<open>C6: Every run of the deployment, with requests through the servers, frames, writes, restarts in any
  order, is on the shared database a sequence of the platform's steps, from any state that the
  deployment reaches; so the constraints of all tables hold, user identifiers stay free of colons, no
  goroutine of the messaging service has panicked and no connection waits with more than 256 messages.\<close>

theorem deployment_refines_platform:
  assumes "world_steps world_init v" and "world_steps v v'"
  shows "platform_steps (w_db v) (w_db v') \<and> platform_inv (w_db v') \<and> ids_plain (w_db v') \<and>
    \<not> rt_panicked (w_router v') \<and>
    (\<forall>n. case rt_heap (w_router v') n of None \<Rightarrow> True | Some c \<Rightarrow> length (cl_queue c) \<le> 256 \<and> colon_free (cl_user c))"
proof -
  have inv: "world_inv v" using deployment.steps [OF assms(1) world_init_inv] .
  have run: "platform_steps (w_db v) (w_db v')" using deployment.runs [OF assms(2) inv] .
  have "world_inv v'" using deployment.steps [OF assms(2) inv] .
  then have i: "platform_inv (w_db v')" "clients_inv (w_router v')" "ids_plain (w_db v')" "conns_plain (w_router v')"
    using reach_inv router_reach_inv by (auto simp: world_inv_def)
  show ?thesis
    using run i clients_invD(6,8) [OF i(2)]
    by (auto simp: sendBufferSize_def conns_plain_def conn_users_def split: option.splits)
qed

theorem deployment_refines_platform_witness:
  "\<exists>v :: int world. world_steps world_init v \<and> t_messages (w_db v) = Some [] \<and> platform_inv (w_db v)"
proof -
  let ?v = "world_init :: int world"
  let ?v1 = "?v\<lparr>w_router := NewMessageRouter (w_db ?v)\<rparr>"
  have step: "world_steps ?v ?v1" by (rule r_into_rtranclp) (rule wst_start_messaging)
  have "t_messages (w_db ?v1) = Some []"
    by (simp add: world_init_def NewMessageRouter_def messaging_initDB_def empty_db_def create_def Let_def create_channels_def)
  with deployment_refines_platform [OF rtranclp.rtrancl_refl step] step show ?thesis by blast
qed

end
