(* ===== verification/Pki.thy ===== *)
theory Pki
  imports Base64 "HOL-Library.Word"
begin

section \<open>The certificate authority\<close>

text \<open>
  \<open>services/pki/ca.go\<close>: generating the root key and certificate, saving both to disk and signing
  requests.  The file system is a map from paths to contents and permission bits.  The X.509 and ECDSA
  routines of the standard library are arguments (\<open>x509_lib\<close>); what the theorems need of them is
  \<open>x509_law\<close>.  PEM is modelled.
\<close>

record pkix_name =
  nm_organization :: "string list"
  nm_common :: string

text \<open>The fields of \<open>x509.Certificate\<close> in use.  A template leaves the first five at their zero values.\<close>

record certificate =
  crt_raw :: string
  crt_version :: nat
  crt_issuer :: pkix_name
  crt_public_key :: string
  crt_signature :: string
  crt_serial :: nat
  crt_subject :: pkix_name
  crt_not_before :: instant
  crt_not_after :: instant
  crt_key_usage :: "64 word"
  crt_ext_usage :: "nat list"
  crt_basic_valid :: bool
  crt_is_ca :: bool

record certificate_request =
  csr_subject :: pkix_name
  csr_public_key :: string

record x509_lib =
  xl_public :: "string \<Rightarrow> string"                \<comment> \<open>the public key of a private key\<close>
  xl_create :: "certificate \<Rightarrow> certificate \<Rightarrow> string \<Rightarrow> string \<Rightarrow> string option"
  xl_parse :: "string \<Rightarrow> certificate option"
  xl_parse_request :: "string \<Rightarrow> certificate_request option"
  xl_check_request :: "certificate_request \<Rightarrow> bool"
  xl_verify :: "certificate \<Rightarrow> string \<Rightarrow> bool"     \<comment> \<open>the signature, under a public key\<close>
  xl_marshal_key :: "string \<Rightarrow> string option"

text \<open>What one call gets from its surroundings: random source, two readings of the clock, the outcomes
  of the file operations.\<close>

record pki_env =
  pe_generate_key :: "string option"
  pe_rand_int :: "nat \<Rightarrow> nat option"
  pe_now_before :: instant
  pe_now_after :: instant
  pe_umask :: "32 word"
  pe_mkdir_fails :: bool
  pe_open_fails :: "string \<Rightarrow> bool"
  pe_write_stops :: "string \<Rightarrow> nat option"        \<comment> \<open>\<open>Some k\<close>: an error after \<open>k\<close> bytes\<close>

record ca =
  RootKey :: string
  RootCert :: certificate

datatype ca_err = Key_failed | Serial_failed | Create_failed | Parse_failed | Request_unparsed
  | Request_signature | Sign_failed

text \<open>\<open>x509.KeyUsage\<close> and \<open>x509.ExtKeyUsage\<close>.\<close>

definition KeyUsageDigitalSignature :: "64 word" where "KeyUsageDigitalSignature = 1"
definition KeyUsageKeyEncipherment :: "64 word" where "KeyUsageKeyEncipherment = 4"
definition KeyUsageCertSign :: "64 word" where "KeyUsageCertSign = 32"
definition KeyUsageCRLSign :: "64 word" where "KeyUsageCRLSign = 64"
definition ExtKeyUsageServerAuth :: nat where "ExtKeyUsageServerAuth = 1"
definition ExtKeyUsageClientAuth :: nat where "ExtKeyUsageClientAuth = 2"

lemmas usage_defs = KeyUsageDigitalSignature_def KeyUsageKeyEncipherment_def KeyUsageCertSign_def
  KeyUsageCRLSign_def ExtKeyUsageServerAuth_def ExtKeyUsageClientAuth_def

definition ca_name :: pkix_name where
  "ca_name = \<lparr>nm_organization = [''Secure LAN Chat Corp''], nm_common = ''Secure LAN Chat Root CA''\<rparr>"

definition no_name :: pkix_name where
  "no_name = \<lparr>nm_organization = [], nm_common = []\<rparr>"

definition serialNumberLimit :: nat where
  "serialNumberLimit = push_bit 128 1"

definition root_lifetime :: duration where
  "root_lifetime = 10 * 365 * 24 * (60 * minute)"

unbundle bit_operations_syntax

definition root_template :: "pki_env \<Rightarrow> nat \<Rightarrow> certificate" where
  "root_template e serialNumber =
    \<lparr>crt_raw = [], crt_version = 0, crt_issuer = no_name, crt_public_key = [], crt_signature = [],
     crt_serial = serialNumber, crt_subject = ca_name,
     crt_not_before = pe_now_before e, crt_not_after = pe_now_after e + root_lifetime,
     crt_key_usage = KeyUsageCertSign OR KeyUsageCRLSign, crt_ext_usage = [],
     crt_basic_valid = True, crt_is_ca = True\<rparr>"

definition NewCertificateAuthority :: "x509_lib \<Rightarrow> pki_env \<Rightarrow> ca_err + ca" where
  "NewCertificateAuthority x e =
    (case pe_generate_key e of
       None \<Rightarrow> Inl Key_failed
     | Some privateKey \<Rightarrow>
         (case pe_rand_int e serialNumberLimit of
            None \<Rightarrow> Inl Serial_failed
          | Some serialNumber \<Rightarrow>
              (let template = root_template e serialNumber in
               case xl_create x template template (xl_public x privateKey) privateKey of
                 None \<Rightarrow> Inl Create_failed
               | Some certBytes \<Rightarrow>
                   (case xl_parse x certBytes of
                      None \<Rightarrow> Inl Parse_failed
                    | Some cert \<Rightarrow> Inr \<lparr>RootKey = privateKey, RootCert = cert\<rparr>))))"

text \<open>A duration is a signed 64-bit number of nanoseconds.\<close>

definition leaf_template :: "pki_env \<Rightarrow> nat \<Rightarrow> pkix_name \<Rightarrow> 64 word \<Rightarrow> certificate" where
  "leaf_template e serialNumber subject validDuration =
    \<lparr>crt_raw = [], crt_version = 0, crt_issuer = no_name, crt_public_key = [], crt_signature = [],
     crt_serial = serialNumber, crt_subject = subject,
     crt_not_before = pe_now_before e, crt_not_after = pe_now_after e + sint validDuration,
     crt_key_usage = KeyUsageDigitalSignature OR KeyUsageKeyEncipherment,
     crt_ext_usage = [ExtKeyUsageServerAuth, ExtKeyUsageClientAuth],
     crt_basic_valid = False, crt_is_ca = False\<rparr>"

definition SignCSR :: "x509_lib \<Rightarrow> pki_env \<Rightarrow> ca \<Rightarrow> string \<Rightarrow> 64 word \<Rightarrow> ca_err + string" where
  "SignCSR x e ca csrBytes validDuration =
    (case xl_parse_request x csrBytes of
       None \<Rightarrow> Inl Request_unparsed
     | Some csr \<Rightarrow>
         (if \<not> xl_check_request x csr then Inl Request_signature
          else (case pe_rand_int e serialNumberLimit of
                  None \<Rightarrow> Inl Serial_failed
                | Some serialNumber \<Rightarrow>
                    (case xl_create x (leaf_template e serialNumber (csr_subject csr) validDuration)
                            (RootCert ca) (csr_public_key csr) (RootKey ca) of
                       None \<Rightarrow> Inl Sign_failed
                     | Some certBytes \<Rightarrow> Inr certBytes))))"

subsection \<open>PEM\<close>

function lines64 :: "string \<Rightarrow> string" where
  "lines64 s = (if s = [] then [] else take 64 s @ CHR 0x0A # lines64 (drop 64 s))"
  by pat_completeness auto
termination by (relation "measure length") auto

declare lines64.simps [simp del]

definition pem_head :: "string \<Rightarrow> string" where
  "pem_head t = ''-----BEGIN '' @ t @ ''-----'' @ [CHR 0x0A]"

definition pem_foot :: "string \<Rightarrow> string" where
  "pem_foot t = ''-----END '' @ t @ ''-----'' @ [CHR 0x0A]"

definition pem_encode :: "string \<Rightarrow> string \<Rightarrow> string" where
  "pem_encode t b = pem_head t @ lines64 (b64_std b) @ pem_foot t"

text \<open>Reading a block back: what stands between the two lines, up to the padding.\<close>

definition pem_read :: "string \<Rightarrow> string \<Rightarrow> string option" where
  "pem_read t s =
    (if prefix (pem_head t) s \<and> suffix (pem_foot t) s
     then b64_decode (takeWhile (\<lambda>c. c \<noteq> CHR ''='')
            (take (length s - length (pem_head t) - length (pem_foot t)) (drop (length (pem_head t)) s)))
     else None)"

lemma filter_lines64:
  "filter (\<lambda>c. c \<noteq> CHR 0x0A \<and> P c) (lines64 s) = filter (\<lambda>c. c \<noteq> CHR 0x0A \<and> P c) s"
proof (induction s rule: lines64.induct)
  case (1 s)
  show ?case
  proof (cases "s = []")
    case False
    with 1 have "filter (\<lambda>c. c \<noteq> CHR 0x0A \<and> P c) (lines64 s) =
      filter (\<lambda>c. c \<noteq> CHR 0x0A \<and> P c) (take 64 s @ drop 64 s)"
      by (subst lines64.simps) (simp del: append_take_drop_id)
    then show ?thesis by simp
  qed (simp add: lines64.simps)
qed

lemma filter_takeWhile:
  assumes "filter Q xs = a @ replicate k x" "\<forall>c\<in>set a. c \<noteq> x" "Q x"
  shows "filter Q (takeWhile (\<lambda>c. c \<noteq> x) xs) = a"
  using assms
proof (induction xs arbitrary: a)
  case (Cons y ys)
  show ?case
  proof (cases "Q y")
    case True
    show ?thesis
    proof (cases a)
      case Nil
      with Cons.prems True have "y = x" by (cases k) auto
      with Nil show ?thesis by simp
    next
      case (Cons z zs)
      with Cons.prems True have "y = z" "filter Q ys = zs @ replicate k x" "y \<noteq> x" by auto
      with Cons.IH [of zs] Cons.prems Cons True show ?thesis by auto
    qed
  next
    case False
    with Cons.prems have "filter Q ys = a @ replicate k x" "y \<noteq> x" by auto
    with Cons.IH [OF this(1) Cons.prems(2,3)] False show ?thesis by simp
  qed
qed simp

lemma b64_encode_no_padding: "\<forall>c\<in>set (b64_encode s). c \<noteq> CHR ''=''"
proof -
  have eq: "b64_value (CHR ''='') = None" by (simp add: b64_value_def)
  show ?thesis
    by (induction s rule: b64_encode.induct)
       (simp_all add: b64_char_plain [OF _ eq] mult.commute)
qed

lemma filter_filter_same: "filter P (filter P s) = filter P s"
  by simp

lemma b64_decode_text: "filter (\<lambda>c. c \<noteq> CHR 0x0A \<and> c \<noteq> CHR 0x0D) s = b64_encode b \<Longrightarrow> b64_decode s = Some b"
  using b64_roundtrip [of b] arg_cong [of _ _ "filter (\<lambda>c. c \<noteq> CHR 0x0A \<and> c \<noteq> CHR 0x0D)"]
  by (metis (no_types, lifting) b64_decode_def filter_filter_same)

lemma pem_roundtrip: "pem_read t (pem_encode t b) = Some b"
proof -
  let ?Q = "\<lambda>c. c \<noteq> CHR 0x0A \<and> c \<noteq> CHR 0x0D"
  let ?k = "(3 - length b mod 3) mod 3"
  have "filter ?Q (lines64 (b64_std b)) = filter ?Q (b64_encode b @ replicate ?k CHR ''='')"
    unfolding filter_lines64 b64_std_def ..
  also have "\<dots> = b64_encode b @ replicate ?k CHR ''=''"
    using b64_encode_plain [of b] by (auto simp: filter_id_conv)
  finally have "filter ?Q (takeWhile (\<lambda>c. c \<noteq> CHR ''='') (lines64 (b64_std b))) = b64_encode b"
    by (rule filter_takeWhile) (simp_all add: b64_encode_no_padding)
  then have "b64_decode (takeWhile (\<lambda>c. c \<noteq> CHR ''='') (lines64 (b64_std b))) = Some b"
    by (rule b64_decode_text)
  then show ?thesis using suffixI [of _ "pem_head t @ lines64 (b64_std b)" "pem_foot t"]
    by (simp add: pem_read_def pem_encode_def)
qed

subsection \<open>Files\<close>

record disk_file =
  df_data :: string
  df_mode :: "32 word"

record disk =
  dk_files :: "string \<Rightarrow> disk_file option"
  dk_dirs :: "string \<Rightarrow> 32 word option"

datatype save_err = Cert_open | Cert_write | Key_open | Key_marshal | Key_write

text \<open>\<open>os.OpenFile\<close> with \<open>O_CREATE\<close> and \<open>O_TRUNC\<close>: an existing file is emptied and keeps its
  permissions, a new one gets those of the call less the bits of the umask.\<close>

definition open_trunc :: "pki_env \<Rightarrow> string \<Rightarrow> 32 word \<Rightarrow> disk \<Rightarrow> disk option" where
  "open_trunc e path perm dk =
    (if pe_open_fails e path then None
     else Some (dk\<lparr>dk_files := (dk_files dk)(path \<mapsto>
       (case dk_files dk path of
          None \<Rightarrow> \<lparr>df_data = [], df_mode = perm AND NOT (pe_umask e)\<rparr>
        | Some f \<Rightarrow> f\<lparr>df_data := []\<rparr>))\<rparr>))"

text \<open>\<open>os.Create\<close> uses the permissions 0666.\<close>

definition create_file :: "pki_env \<Rightarrow> string \<Rightarrow> disk \<Rightarrow> disk option" where
  "create_file e path = open_trunc e path 0x1B6"

definition write_file :: "pki_env \<Rightarrow> string \<Rightarrow> string \<Rightarrow> disk \<Rightarrow> bool \<times> disk" where
  "write_file e path d dk =
    (case dk_files dk path of
       None \<Rightarrow> (False, dk)
     | Some f \<Rightarrow>
         (let stop = pe_write_stops e path
          in (stop = None,
              dk\<lparr>dk_files := (dk_files dk)(path \<mapsto>
                f\<lparr>df_data := df_data f @ (case stop of None \<Rightarrow> d | Some k \<Rightarrow> take k d)\<rparr>)\<rparr>)))"

definition SaveToDisk :: "x509_lib \<Rightarrow> pki_env \<Rightarrow> ca \<Rightarrow> string \<Rightarrow> string \<Rightarrow> disk \<Rightarrow> save_err option \<times> disk" where
  "SaveToDisk x e ca certPath keyPath dk =
    (case create_file e certPath dk of
       None \<Rightarrow> (Some Cert_open, dk)
     | Some dk1 \<Rightarrow>
         (case write_file e certPath (pem_encode ''CERTIFICATE'' (crt_raw (RootCert ca))) dk1 of
            (False, dk2) \<Rightarrow> (Some Cert_write, dk2)
          | (True, dk2) \<Rightarrow>
              (case open_trunc e keyPath 0x180 dk2 of
                 None \<Rightarrow> (Some Key_open, dk2)
               | Some dk3 \<Rightarrow>
                   (case xl_marshal_key x (RootKey ca) of
                      None \<Rightarrow> (Some Key_marshal, dk3)
                    | Some privBytes \<Rightarrow>
                        (case write_file e keyPath (pem_encode ''EC PRIVATE KEY'' privBytes) dk3 of
                           (False, dk4) \<Rightarrow> (Some Key_write, dk4)
                         | (True, dk4) \<Rightarrow> (None, dk4))))))"

definition MkdirAll :: "pki_env \<Rightarrow> string \<Rightarrow> 32 word \<Rightarrow> disk \<Rightarrow> disk option" where
  "MkdirAll e path perm dk =
    (if dk_dirs dk path \<noteq> None then Some dk
     else if pe_mkdir_fails e then None
     else Some (dk\<lparr>dk_dirs := (dk_dirs dk)(path \<mapsto> perm AND NOT (pe_umask e))\<rparr>))"

definition certPath :: string where "certPath = ''certs/root_ca.crt''"
definition keyPath :: string where "keyPath = ''certs/root_ca.key''"

text \<open>The exit status of the program, and the disk it leaves.\<close>

definition pki_main :: "x509_lib \<Rightarrow> pki_env \<Rightarrow> disk \<Rightarrow> nat \<times> disk" where
  "pki_main x e dk =
    (case NewCertificateAuthority x e of
       Inl _ \<Rightarrow> (1, dk)
     | Inr ca \<Rightarrow>
         (case MkdirAll e ''certs'' 0x1C0 dk of
            None \<Rightarrow> (1, dk)
          | Some dk1 \<Rightarrow>
              (case SaveToDisk x e ca certPath keyPath dk1 of
                 (Some _, dk2) \<Rightarrow> (1, dk2)
               | (None, dk2) \<Rightarrow> (0, dk2))))"

subsection \<open>What is assumed of the X.509 library\<close>

text \<open>The part of \<open>Certificate.CheckSignatureFrom\<close> before and with the check of the signature: who may
  act as an issuer.\<close>

definition CheckSignatureFrom :: "x509_lib \<Rightarrow> certificate \<Rightarrow> certificate \<Rightarrow> bool" where
  "CheckSignatureFrom x child parent \<longleftrightarrow>
    \<not> (crt_version parent = 3 \<and> \<not> crt_basic_valid parent \<or> crt_basic_valid parent \<and> \<not> crt_is_ca parent) \<and>
    \<not> (crt_key_usage parent \<noteq> 0 \<and> crt_key_usage parent AND KeyUsageCertSign = 0) \<and>
    xl_verify x child (crt_public_key parent)"

text \<open>
  A created certificate parses to the template's fields, with times in whole seconds, the subject of the
  parent as its issuer, the given public key, version 3, and a signature that verifies under the public
  key of the signing key.  A request is signed under the public key in it.
\<close>

definition x509_law :: "x509_lib \<Rightarrow> bool" where
  "x509_law x \<longleftrightarrow>
    (\<forall>t p pk k b. xl_create x t p pk k = Some b \<longrightarrow>
      (\<exists>sg. let c = t\<lparr>crt_raw := b, crt_version := 3, crt_issuer := crt_subject p, crt_public_key := pk,
               crt_signature := sg, crt_not_before := unix_sec (crt_not_before t) * second,
               crt_not_after := unix_sec (crt_not_after t) * second\<rparr>
        in xl_parse x b = Some c \<and> xl_verify x c (xl_public x k)))"

lemma x509_lawE:
  assumes "x509_law x" "xl_create x t p pk k = Some b"
  obtains c where "xl_parse x b = Some c" "xl_verify x c (xl_public x k)" "crt_raw c = b"
    "crt_version c = 3" "crt_issuer c = crt_subject p" "crt_public_key c = pk"
    "crt_serial c = crt_serial t" "crt_subject c = crt_subject t"
    "crt_not_before c = unix_sec (crt_not_before t) * second"
    "crt_not_after c = unix_sec (crt_not_after t) * second"
    "crt_key_usage c = crt_key_usage t" "crt_ext_usage c = crt_ext_usage t"
    "crt_basic_valid c = crt_basic_valid t" "crt_is_ca c = crt_is_ca t"
  using assms unfolding x509_law_def Let_def by fastforce

subsection \<open>Issued certificates\<close>

definition root_cert_ok :: "x509_lib \<Rightarrow> pki_env \<Rightarrow> ca \<Rightarrow> bool" where
  "root_cert_ok x e ca \<longleftrightarrow>
    (let c = RootCert ca in
     pe_generate_key e = Some (RootKey ca) \<and> xl_parse x (crt_raw c) = Some c \<and>
     crt_public_key c = xl_public x (RootKey ca) \<and>
     crt_subject c = ca_name \<and> crt_issuer c = ca_name \<and>
     crt_key_usage c = KeyUsageCertSign OR KeyUsageCRLSign \<and> crt_basic_valid c \<and> crt_is_ca c \<and>
     crt_not_after c = unix_sec (pe_now_after e + root_lifetime) * second \<and>
     xl_verify x c (crt_public_key c))"

lemma root_signs:
  assumes "root_cert_ok x e ca"
  shows "CheckSignatureFrom x c (RootCert ca) \<longleftrightarrow> xl_verify x c (crt_public_key (RootCert ca))"
  using assms by (simp add: CheckSignatureFrom_def root_cert_ok_def Let_def usage_defs)

lemma NewCertificateAuthority_ok:
  assumes "x509_law x" "NewCertificateAuthority x e = Inr ca"
  shows "root_cert_ok x e ca"
proof -
  obtain k n b c where gen: "pe_generate_key e = Some k" and
    create: "xl_create x (root_template e n) (root_template e n) (xl_public x k) k = Some b" and
    parse: "xl_parse x b = Some c" and ca: "ca = \<lparr>RootKey = k, RootCert = c\<rparr>"
    using assms(2) by (auto simp: NewCertificateAuthority_def Let_def split: option.splits)
  from x509_lawE [OF assms(1) create] parse obtain
    "xl_verify x c (xl_public x k)" "crt_raw c = b" "crt_issuer c = ca_name"
    "crt_public_key c = xl_public x k" "crt_subject c = ca_name"
    "crt_not_after c = unix_sec (pe_now_after e + root_lifetime) * second"
    "crt_key_usage c = KeyUsageCertSign OR KeyUsageCRLSign" "crt_basic_valid c" "crt_is_ca c"
    by (auto simp: root_template_def)
  with gen parse ca show ?thesis by (simp add: root_cert_ok_def)
qed

text \<open>C39: What the authority signs for a request is a certificate of the request's subject and key,
  issued only when the request's own signature checks, that verifies against the root and against which
  nothing verifies: the holder cannot act as an authority.  Its serial number has at most 128 bits, and
  its validity is what the caller asked for, so it outlives the root exactly when that reaches further
  than ten years from the creation of the root.\<close>

theorem SignCSR_issues_leaf:
  assumes "x509_law x" and "NewCertificateAuthority x e = Inr ca"
    and "SignCSR x e' ca csrBytes d = Inr out" and "\<And>l v. pe_rand_int e' l = Some v \<Longrightarrow> v < l"
  shows "\<exists>csr leaf. xl_parse_request x csrBytes = Some csr \<and> xl_check_request x csr \<and>
    xl_parse x out = Some leaf \<and> crt_subject leaf = csr_subject csr \<and>
    crt_public_key leaf = csr_public_key csr \<and> crt_issuer leaf = ca_name \<and>
    crt_serial leaf < 2 ^ 128 \<and> CheckSignatureFrom x leaf (RootCert ca) \<and>
    (\<forall>c. \<not> CheckSignatureFrom x c leaf) \<and>
    crt_not_after leaf = unix_sec (pe_now_after e' + sint d) * second \<and>
    (crt_not_after (RootCert ca) < crt_not_after leaf \<longleftrightarrow>
       unix_sec (pe_now_after e + root_lifetime) < unix_sec (pe_now_after e' + sint d))"
proof -
  note root = NewCertificateAuthority_ok [OF assms(1,2)]
  obtain csr n where req: "xl_parse_request x csrBytes = Some csr" "xl_check_request x csr" and
    rnd: "pe_rand_int e' serialNumberLimit = Some n" and
    create: "xl_create x (leaf_template e' n (csr_subject csr) d) (RootCert ca) (csr_public_key csr)
      (RootKey ca) = Some out"
    using assms(3) by (auto simp: SignCSR_def split: option.splits if_splits)
  from assms(4) [OF rnd] have "n < 2 ^ 128" by (simp add: serialNumberLimit_def push_bit_eq_mult)
  moreover obtain leaf where "xl_parse x out = Some leaf" "xl_verify x leaf (xl_public x (RootKey ca))"
    "crt_version leaf = 3" "crt_issuer leaf = ca_name" "crt_public_key leaf = csr_public_key csr"
    "crt_serial leaf = n" "crt_subject leaf = csr_subject csr" "\<not> crt_basic_valid leaf"
    "crt_not_after leaf = unix_sec (pe_now_after e' + sint d) * second"
    using x509_lawE [OF assms(1) create] root by (auto simp: leaf_template_def root_cert_ok_def Let_def)
  moreover have "0 < second" by simp
  ultimately show ?thesis
    using req root root_signs [OF root]
    by (intro exI [of _ csr] exI [of _ leaf])
       (auto simp: CheckSignatureFrom_def [of x _ leaf] root_cert_ok_def Let_def)
qed

subsection \<open>A concrete library\<close>

definition ex_pki :: pki_env where
  "ex_pki = \<lparr>pe_generate_key = Some ''KEY'', pe_rand_int = (\<lambda>l. if 7 < l then Some 7 else None),
     pe_now_before = 5 * second, pe_now_after = 5 * second, pe_umask = 0x12, pe_mkdir_fails = False,
     pe_open_fails = (\<lambda>_. False), pe_write_stops = (\<lambda>_. None)\<rparr>"

definition ex_holder :: pkix_name where
  "ex_holder = \<lparr>nm_organization = [], nm_common = ''node1''\<rparr>"

definition ex_issued :: "string \<Rightarrow> string \<Rightarrow> certificate \<Rightarrow> certificate" where
  "ex_issued b pk t = t\<lparr>crt_raw := b, crt_version := 3, crt_issuer := ca_name, crt_public_key := pk,
     crt_signature := [], crt_not_before := unix_sec (crt_not_before t) * second,
     crt_not_after := unix_sec (crt_not_after t) * second\<rparr>"

definition ex_leaf_template :: certificate where
  "ex_leaf_template = leaf_template ex_pki 7 ex_holder 3600000000000"

definition ex_x509 :: x509_lib where
  "ex_x509 = \<lparr>xl_public = (\<lambda>_. ''PUB''),
     xl_create = (\<lambda>t p pk k.
       if crt_subject p \<noteq> ca_name then None
       else if t = root_template ex_pki 7 \<and> pk = ''PUB'' then Some ''ROOT''
       else if t = ex_leaf_template \<and> pk = ''HOLDER'' then Some ''LEAF'' else None),
     xl_parse = (\<lambda>b. if b = ''ROOT'' then Some (ex_issued b ''PUB'' (root_template ex_pki 7))
       else if b = ''LEAF'' then Some (ex_issued b ''HOLDER'' ex_leaf_template) else None),
     xl_parse_request = (\<lambda>b. Some \<lparr>csr_subject = ex_holder, csr_public_key = b\<rparr>),
     xl_check_request = (\<lambda>_. True), xl_verify = (\<lambda>_ pk. pk = ''PUB''),
     xl_marshal_key = (\<lambda>k. Some k)\<rparr>"

lemma ex_x509_law: "x509_law ex_x509"
  by (auto simp: x509_law_def ex_x509_def ex_issued_def Let_def split: if_splits)

definition ex_ca :: ca where
  "ex_ca = \<lparr>RootKey = ''KEY'', RootCert = ex_issued ''ROOT'' ''PUB'' (root_template ex_pki 7)\<rparr>"

lemma ex_ca_made: "NewCertificateAuthority ex_x509 ex_pki = Inr ex_ca"
  by (simp add: NewCertificateAuthority_def ex_x509_def ex_pki_def ex_ca_def ex_leaf_template_def
      serialNumberLimit_def root_template_def push_bit_eq_mult)

lemma ex_signed: "SignCSR ex_x509 ex_pki ex_ca ''HOLDER'' 3600000000000 = Inr ''LEAF''"
  by (simp add: SignCSR_def ex_x509_def ex_ca_def ex_issued_def ex_leaf_template_def root_template_def
      leaf_template_def serialNumberLimit_def push_bit_eq_mult ex_pki_def)

theorem SignCSR_issues_leaf_witness:
  "\<exists>leaf. xl_parse ex_x509 ''LEAF'' = Some leaf \<and> CheckSignatureFrom ex_x509 leaf (RootCert ex_ca) \<and>
    (\<forall>c. \<not> CheckSignatureFrom ex_x509 c leaf)"
proof -
  have "\<And>l v. pe_rand_int ex_pki l = Some v \<Longrightarrow> v < l" by (auto simp: ex_pki_def split: if_splits)
  from SignCSR_issues_leaf [OF ex_x509_law ex_ca_made ex_signed this] show ?thesis by blast
qed

subsection \<open>The program\<close>

lemma open_trunc_files:
  assumes "open_trunc e p m dk = Some dk'"
  shows "\<exists>f. dk_files dk' = (dk_files dk)(p \<mapsto> f) \<and> df_data f = [] \<and> dk_dirs dk' = dk_dirs dk \<and>
    df_mode f = (case dk_files dk p of None \<Rightarrow> m AND NOT (pe_umask e) | Some g \<Rightarrow> df_mode g)"
  using assms by (auto simp: open_trunc_def split: if_splits option.splits)

lemma write_file_ok:
  assumes "write_file e p d dk = (True, dk')" "dk_files dk p = Some f"
  shows "dk_files dk' = (dk_files dk)(p \<mapsto> f\<lparr>df_data := df_data f @ d\<rparr>)"
  using assms by (auto simp: write_file_def Let_def split: option.splits)

text \<open>Emptying (or creating) a file and writing it, as one step.\<close>

lemma fresh_write:
  assumes "open_trunc e p m dk = Some dk1" "write_file e p d dk1 = (True, dk2)"
  shows "\<exists>f. dk_files dk2 = (dk_files dk)(p \<mapsto> f) \<and> df_data f = d \<and>
    df_mode f = (case dk_files dk p of None \<Rightarrow> m AND NOT (pe_umask e) | Some g \<Rightarrow> df_mode g)"
proof -
  obtain f where f: "dk_files dk1 = (dk_files dk)(p \<mapsto> f)" "df_data f = []"
    "df_mode f = (case dk_files dk p of None \<Rightarrow> m AND NOT (pe_umask e) | Some g \<Rightarrow> df_mode g)"
    using open_trunc_files [OF assms(1)] by blast
  from f(1) have "dk_files dk1 p = Some f" by simp
  from write_file_ok [OF assms(2) this] f show ?thesis by (intro exI [of _ "f\<lparr>df_data := d\<rparr>"]) simp
qed

lemma paths_differ [simp]: "certPath \<noteq> keyPath" "keyPath \<noteq> certPath"
  by (simp_all add: certPath_def keyPath_def)

lemma private_mode: "(0x180 AND NOT u) AND 0x3F = (0 :: 32 word)"
proof -
  have "(0x180 AND NOT u) AND 0x3F = (0x180 AND 0x3F) AND NOT u" by (simp only: ac_simps)
  then show ?thesis by simp
qed

lemma SaveToDisk_ok:
  assumes "SaveToDisk x e ca c k dk = (None, dk')" "c \<noteq> k"
  shows "\<exists>der f g. xl_marshal_key x (RootKey ca) = Some der \<and> dk_files dk' = (dk_files dk)(c \<mapsto> f, k \<mapsto> g) \<and>
    df_data f = pem_encode ''CERTIFICATE'' (crt_raw (RootCert ca)) \<and>
    df_data g = pem_encode ''EC PRIVATE KEY'' der \<and>
    df_mode g = (case dk_files dk k of None \<Rightarrow> 0x180 AND NOT (pe_umask e) | Some h \<Rightarrow> df_mode h)"
proof -
  obtain dk1 dk2 dk3 der where s: "create_file e c dk = Some dk1"
    "write_file e c (pem_encode ''CERTIFICATE'' (crt_raw (RootCert ca))) dk1 = (True, dk2)"
    "open_trunc e k 0x180 dk2 = Some dk3" "xl_marshal_key x (RootKey ca) = Some der"
    "write_file e k (pem_encode ''EC PRIVATE KEY'' der) dk3 = (True, dk')"
    using assms(1) by (auto simp: SaveToDisk_def split: option.splits prod.splits bool.splits)
  obtain f where f: "dk_files dk2 = (dk_files dk)(c \<mapsto> f)"
    "df_data f = pem_encode ''CERTIFICATE'' (crt_raw (RootCert ca))"
    using fresh_write [OF s(1) [unfolded create_file_def] s(2)] by blast
  obtain g where g: "dk_files dk' = (dk_files dk2)(k \<mapsto> g)" "df_data g = pem_encode ''EC PRIVATE KEY'' der"
    "df_mode g = (case dk_files dk2 k of None \<Rightarrow> 0x180 AND NOT (pe_umask e) | Some h \<Rightarrow> df_mode h)"
    using fresh_write [OF s(3,5)] by blast
  from f g s(4) assms(2) show ?thesis by (intro exI [of _ der] exI [of _ f] exI [of _ g]) simp
qed

text \<open>C40: When the program ends with status 0 the two files hold, in PEM, a certificate that verifies
  against itself and the private key of its public key; no other file has changed.  A new key file is
  closed to group and others under every umask; one that existed keeps the permissions it had.\<close>

theorem pki_main_saves:
  assumes "x509_law x" and "pki_main x e dk = (0, dk')"
  shows "\<exists>ca der f g. NewCertificateAuthority x e = Inr ca \<and>
    CheckSignatureFrom x (RootCert ca) (RootCert ca) \<and>
    crt_public_key (RootCert ca) = xl_public x (RootKey ca) \<and>
    xl_marshal_key x (RootKey ca) = Some der \<and>
    dk_files dk' = (dk_files dk)(certPath \<mapsto> f, keyPath \<mapsto> g) \<and>
    pem_read ''CERTIFICATE'' (df_data f) = Some (crt_raw (RootCert ca)) \<and>
    xl_parse x (crt_raw (RootCert ca)) = Some (RootCert ca) \<and>
    pem_read ''EC PRIVATE KEY'' (df_data g) = Some der \<and>
    (case dk_files dk keyPath of None \<Rightarrow> df_mode g AND 0x3F = 0 | Some h \<Rightarrow> df_mode g = df_mode h)"
proof -
  obtain ca dk1 where ca: "NewCertificateAuthority x e = Inr ca" and
    mk: "MkdirAll e ''certs'' 0x1C0 dk = Some dk1" and save: "SaveToDisk x e ca certPath keyPath dk1 = (None, dk')"
    using assms(2) by (auto simp: pki_main_def split: sum.splits option.splits prod.splits)
  have dk1: "dk_files dk1 = dk_files dk" using mk by (auto simp: MkdirAll_def split: if_splits)
  obtain der f g where fg: "xl_marshal_key x (RootKey ca) = Some der"
    "dk_files dk' = (dk_files dk)(certPath \<mapsto> f, keyPath \<mapsto> g)"
    "df_data f = pem_encode ''CERTIFICATE'' (crt_raw (RootCert ca))" "df_data g = pem_encode ''EC PRIVATE KEY'' der"
    "df_mode g = (case dk_files dk keyPath of None \<Rightarrow> 0x180 AND NOT (pe_umask e) | Some h \<Rightarrow> df_mode h)"
    using SaveToDisk_ok [OF save paths_differ(1)] unfolding dk1 by blast
  note root = NewCertificateAuthority_ok [OF assms(1) ca]
  from root have self: "CheckSignatureFrom x (RootCert ca) (RootCert ca)"
    unfolding root_signs [OF root] root_cert_ok_def Let_def by blast
  have mode: "case dk_files dk keyPath of None \<Rightarrow> df_mode g AND 0x3F = 0 | Some h \<Rightarrow> df_mode g = df_mode h"
    using fg(5) private_mode by (simp split: option.splits)
  show ?thesis
    by (rule exI [of _ ca], rule exI [of _ der], rule exI [of _ f], rule exI [of _ g])
       (use ca root self fg pem_roundtrip mode in \<open>simp add: root_cert_ok_def Let_def\<close>)
qed

definition ex_disk :: disk where
  "ex_disk = \<lparr>dk_files = (\<lambda>p. if p = keyPath then Some \<lparr>df_data = ''old'', df_mode = 0x1A4\<rparr> else None),
     dk_dirs = (\<lambda>_. None)\<rparr>"

text \<open>The key file existed with permissions 0644: the new private key is readable by everyone.\<close>

theorem pki_main_saves_witness:
  "\<exists>dk' g. pki_main ex_x509 ex_pki ex_disk = (0, dk') \<and> dk_files dk' keyPath = Some g \<and>
    pem_read ''EC PRIVATE KEY'' (df_data g) = Some ''KEY'' \<and> df_mode g = 0x1A4"
proof -
  have run: "fst (pki_main ex_x509 ex_pki ex_disk) = 0"
    unfolding pki_main_def ex_ca_made
    by (simp add: MkdirAll_def SaveToDisk_def create_file_def open_trunc_def
        write_file_def Let_def ex_pki_def ex_disk_def ex_x509_def ex_ca_def)
  obtain dk' where main: "pki_main ex_x509 ex_pki ex_disk = (0, dk')"
    using run by (cases "pki_main ex_x509 ex_pki ex_disk") simp
  obtain ca der g f where "NewCertificateAuthority ex_x509 ex_pki = Inr ca"
    "xl_marshal_key ex_x509 (RootKey ca) = Some der"
    "dk_files dk' = (dk_files ex_disk)(certPath \<mapsto> f, keyPath \<mapsto> g)"
    "pem_read ''EC PRIVATE KEY'' (df_data g) = Some der" "df_mode g = 0x1A4"
    using pki_main_saves [OF ex_x509_law main] by (auto simp: ex_disk_def)
  moreover from this(1) ex_ca_made have "ca = ex_ca" by simp
  moreover have "xl_marshal_key ex_x509 (RootKey ex_ca) = Some ''KEY''" by (simp add: ex_x509_def ex_ca_def)
  ultimately show ?thesis using main by (intro exI [of _ dk'] exI [of _ g]) simp
qed

text \<open>When the certificate is written and the key file cannot be opened, the program ends with status 1
  and leaves the new certificate beside the old key.\<close>

lemma key_refused_splits_pair:
  assumes "NewCertificateAuthority x e = Inr ca" and "dk_dirs dk ''certs'' \<noteq> None"
    and "\<not> pe_open_fails e certPath" "pe_write_stops e certPath = None" and "pe_open_fails e keyPath"
  shows "\<exists>dk' f. pki_main x e dk = (1, dk') \<and> dk_files dk' = (dk_files dk)(certPath \<mapsto> f) \<and>
    pem_read ''CERTIFICATE'' (df_data f) = Some (crt_raw (RootCert ca))"
  using assms
  by (auto simp: pki_main_def MkdirAll_def SaveToDisk_def create_file_def open_trunc_def write_file_def
      Let_def pem_roundtrip split: option.splits)

end
