(* ===== verification/E2ee.thy ===== *)
theory E2ee
  imports Prelude
begin

section \<open>The end-to-end encryption placeholder\<close>

text \<open>
  \<open>pkg/protocol/e2ee.go\<close>: the session record and the handler that stands in for an implementation of the
  interface \<open>SignalProtocolHandler\<close>.  No service uses it.
\<close>

record ratchet_session =
  rts_root_key :: string
  rts_chain_key :: string
  rts_next_key :: string
  rts_ratchet_id :: string

datatype e2ee_err = Ciphertext_too_short

definition InitializeSession :: "string \<Rightarrow> string \<Rightarrow> string \<Rightarrow> e2ee_err + ratchet_session" where
  "InitializeSession recipientID identityKey signedPreKey =
    Inr \<lparr>rts_root_key = ''root-key'', rts_chain_key = ''chain-key'', rts_next_key = [],
      rts_ratchet_id = ''session-'' @ recipientID\<rparr>"

definition EncryptMessage :: "ratchet_session \<Rightarrow> string \<Rightarrow> e2ee_err + string" where
  "EncryptMessage session plaintext = Inr (plaintext @ ''-encrypted'')"

definition DecryptMessage :: "ratchet_session \<Rightarrow> string \<Rightarrow> e2ee_err + string" where
  "DecryptMessage session ciphertext =
    (if length ciphertext < 10 then Inl Ciphertext_too_short
     else Inr (take (length ciphertext - 10) ciphertext))"

text \<open>
  A locale for the interface, with the round trip a client relies on: a message that was encrypted in a
  session is decrypted in it.  What two parties exchange in order arrives in order.
\<close>

locale signal_protocol =
  fixes enc :: "'s \<Rightarrow> string \<Rightarrow> 'e + string" and dec :: "'s \<Rightarrow> string \<Rightarrow> 'e + string"
  assumes roundtrip: "enc s p = Inr c \<Longrightarrow> dec s c = Inr p"
begin

lemma enc_injective: "enc s p = Inr c \<Longrightarrow> enc s q = Inr c \<Longrightarrow> p = q"
  by (metis roundtrip sum.inject(2))

lemma stream_roundtrip:
  "list_all2 (\<lambda>p c. enc s p = Inr c) ps cs \<Longrightarrow> map (dec s) cs = map Inr ps"
  by (induction rule: list_all2_induct) (auto dest: roundtrip)

end

interpretation dummy: signal_protocol EncryptMessage DecryptMessage
  by unfold_locales (auto simp: EncryptMessage_def DecryptMessage_def)

text \<open>The placeholder keeps the round trip, but decrypts under any session, shows the plaintext as the
  beginning of its ciphertext, and accepts any ten bytes as the mark.\<close>

lemma dummy_any_session: "EncryptMessage s p = Inr c \<Longrightarrow> DecryptMessage s' c = Inr p"
  by (auto simp: EncryptMessage_def DecryptMessage_def)

lemma dummy_shows_plaintext: "EncryptMessage s p = Inr c \<Longrightarrow> prefix p c"
  by (auto simp: EncryptMessage_def)

lemma dummy_malleable: "length junk = 10 \<Longrightarrow> DecryptMessage s (p @ junk) = Inr p"
  by (simp add: DecryptMessage_def)

end
