(* ===== verification/Spec2Isabelle.thy ===== *)
theory Spec2Isabelle
  imports LimiterConcurrency Trace MessagingProps MessagingChannels Presence AuditProps AuthProps
    FileTransfer Cluster Packets MessageWire Requests AdminServer PlatformProps Accounts Concurrent Startup Delivered Confidential World Pki E2ee
begin

text \<open>
  Verification library of the backend of a LAN messenger, \<open>src/backend\<close>: the Go services \<open>auth\<close>,
  \<open>messaging\<close>, \<open>presence\<close>, \<open>audit\<close>, \<open>filetransfer\<close>, \<open>cluster\<close>, \<open>discovery\<close> under \<open>services/\<close>, the
  program \<open>services/pki\<close>, the shared code in \<open>pkg/protocol\<close>, and the
  admin service under \<open>admin-api/\<close>.

  \<^bold>\<open>The program.\<close>  Each service is an HTTP server whose routes go through a tracing middleware (request
  identifier, per-address rate limit, status recorder, log line).  In the shipped deployment
  \<open>auth\<close>, \<open>messaging\<close>, \<open>presence\<close> and the admin service open the same SQLite file.  A user registers
  and logs in at \<open>auth\<close>, which answers a JWT; \<open>messaging\<close> accepts that token, authorises access to
  channels, stores messages and queues them to the connected WebSocket clients; \<open>presence\<close> keeps
  heartbeats; \<open>audit\<close> appends hash-chained lines to a file; \<open>filetransfer\<close> stores encrypted uploads;
  \<open>discovery\<close> announces nodes by UDP; \<open>cluster\<close> is a stub of a Raft node.  The admin service has its own
  accounts and tokens, edits the shared tables, keeps an audit trail in them, and serves metrics, an
  overview and an event stream.

  \<^bold>\<open>How it is modelled.\<close>  A handler is a function from its surroundings, the request and the state to
  the reply and the new state; every early return is a branch.  A table is a list of rows (or absent
  while no service has created it), with the constraints that the statements enforce.  What is not in
  the repository is an argument of the definitions: the token libraries, Argon2, bcrypt, AES-GCM, X.509,
  the clock, random values, and which external calls fail.  So are the decoders of requests; what they
  are in the code, \<open>encoding/json\<close> on the structs of \<open>auth\<close>, \<open>messaging\<close>, \<open>presence\<close> and \<open>discovery\<close>,
  is modelled too and put in their place.  Concurrency
  is a step relation between the program points that matter: the lock of a limiter, the registration
  and delivery of clients, the statements of \<open>/send\<close>, the goroutines of the listener and of the hub.

  \<^bold>\<open>Theories.\<close>
  \<^item> \<open>Prelude\<close>, \<open>GoStrings\<close>, \<open>Http\<close>: time, faults, lists; \<open>strings.*\<close>; requests, replies, \<open>clientIP\<close>,
    request identifiers.
  \<^item> \<open>RateLimiter\<close>, \<open>LimiterConcurrency\<close>, \<open>Trace\<close>: \<open>ipRateLimiter\<close>, with the clock read before or under
    the mutex, and \<open>withRequestTrace\<close> of every service.
  \<^item> \<open>PlatformDB\<close>: the tables, the statements, the schemas of the four services; the locale \<open>keyed_table\<close>
    is the interface of a table with a unique key, interpreted on every table.
  \<^item> \<open>Messaging\<close>, \<open>DirectMessages\<close>, \<open>Delivery\<close>, \<open>MessagingHandlers\<close>, \<open>MessagingSystem\<close>,
    \<open>MessagingExamples\<close>, \<open>MessagingProps\<close>, \<open>MessagingChannels\<close>: \<open>services/messaging/main.go\<close>: tokens,
    channels, direct channels, the client registry and \<open>Broadcast\<close>, the handlers, their interleavings.
    \<open>WriteLoop\<close>, \<open>Delivered\<close>, \<open>Confidential\<close>: the loop that writes a connection's messages, with its
    termination, the way of a message from \<open>/send\<close> to the connections, and noninterference.
  \<^item> \<open>Presence\<close>: heartbeats, status, cleanup, and the map of last heartbeats they refine.
  \<^item> \<open>Json\<close>, \<open>Sha256\<close>, \<open>AuditChain\<close>, \<open>AuditProps\<close>: the audit service; the locale \<open>hash_chain\<close> is the
    chain over any digest, interpreted on the service's encoder and SHA-256.
  \<^item> \<open>Base64\<close>, \<open>Auth\<close>, \<open>AuthProps\<close>: password hashes, registration, login, default user.
  \<^item> \<open>FileTransfer\<close>, \<open>Cluster\<close>, \<open>Discovery\<close>: one service each; \<open>DiscoveryMain\<close>: the process and the loops of
    the discovery service, and when two nodes find each other.
  \<^item> \<open>JsonDecode\<close>, \<open>Wire\<close>: Go's JSON scanner, \<open>Unmarshal\<close> and \<open>Decoder.Decode\<close>, and the codec of structs
    with its round trip; \<open>Packets\<close>, \<open>MessageWire\<close>, \<open>Requests\<close>: the packets, messages and requests of the
    services on the wire (\<open>pkg/protocol\<close>).
  \<^item> \<open>Pki\<close>: \<open>services/pki/ca.go\<close>, the authority, its signing, PEM and the files; \<open>E2ee\<close>: the placeholder of
    \<open>pkg/protocol/e2ee.go\<close> and the locale of the interface it implements.
  \<^item> \<open>AdminCore\<close> (accounts, tokens, middleware, audit trail), \<open>AdminCrud\<close> (users, roles, departments,
    devices, channels), \<open>AdminRoutes\<close> (the routes of the group, constraints), \<open>AdminTrail\<close>,
    \<open>AdminProps\<close>, \<open>Metrics\<close> and \<open>Monitoring\<close> (observability, overview), \<open>Hub\<close> (WebSocket hub),
    \<open>AdminServer\<close> (the middleware chain around all routes): \<open>admin-api/\<close>.
  \<^item> \<open>Platform\<close>, \<open>PlatformProps\<close>: the steps of all services on the shared database; \<open>Accounts\<close>: what
    the admin service's changes of users and members mean for \<open>auth\<close> and \<open>messaging\<close>.
  \<^item> \<open>Concurrent\<close>: \<open>/send\<close> statement by statement, any number of requests interleaved with all services.
  \<^item> \<open>Startup\<close>: the \<open>main\<close> functions: configuration, errors, default accounts, and the services on the files that
    their configuration names.
  \<^item> \<open>Services\<close>: the servers that \<open>main\<close> of each service starts, their routes behind the middleware; the
    locale \<open>limited_server\<close> is the contract of a server with a quota, interpreted on four of them.
  \<^item> \<open>World\<close>: the auth, messaging, presence and admin servers on the shared database, with their
    restarts; it refines the steps of \<open>Platform\<close>.

  \<^bold>\<open>What the theorems show.\<close>  Messaging: \<open>/send\<close> stores one message and queues it for exactly the
  connected users with access; histories and listings agree with the access rule; direct channels are
  private to their two users; no interleaving panics; every connection gets what was queued for it
  in order and once; what a message says does not influence any answer to users without access to
  its channel (\<open>Confidential\<close>); the encrypted payload in the sender's JSON is the one in the receivers' JSON
  (\<open>MessageWire\<close>).  The deployment of all servers refines the steps of the database.
  Presence refines the map of last heartbeats.
  The audit log is a verifiable chain while writes succeed, and a write error or a restart breaks it.
  Auth: a stored hash accepts exactly the passwords with its digest, registration and login fit
  together, tokens need a verified password.  The limiter never admits more than its limit in a window
  when the clock is read under the mutex, and can when it is not.  Uploads come back as stored.
  Admin: no request without an admin's token changes anything but counters; every change leaves a
  trail entry; sessions last 24 hours; metrics are a function of the requests; the overview is at most
  five seconds old; the hub does not panic but can block itself.  Platform: the constraints of
  all tables hold in every reachable state; the two declarations of the channel tables exclude each
  other; a deleted direct channel cannot be opened again; a reset password opens \<open>auth\<close> and a token
  of \<open>auth\<close> opens \<open>messaging\<close>; interleaved requests store only messages of senders who had access when it
  was checked, and one of two concurrent first messages of a pair is refused; the admin service's
  changes of members decide access in \<open>messaging\<close>, a deleted user is locked out everywhere, but the token of a renamed user passes to whoever takes the
  old name; services with one database path are the platform, and with the default paths the
  messaging service refuses everybody (\<open>Startup\<close>).  Discovery: nodes with different names find each
  other, nodes with the same name never do, over the JSON of their packets.  Pki: what the authority signs verifies against the root and can issue
  nothing; the saved files read back as the certificate and its key; a key file that existed keeps its
  permissions.

  \<^bold>\<open>Bounds.\<close>  There is no fuel: the loops are structural, on lists, or have a measure (the write loop the
  length of the queue).  Buffers have
  the code's capacities (256 messages of a client, 256 events of the hub, 512 latencies, 4096 bytes of
  a datagram).  Counters of the metrics are 64-bit words, the words of SHA-256 are 32-bit; durations given
  to the authority are signed 64-bit words, permissions 32-bit words; times are integers of nanoseconds.

  \<^bold>\<open>Not modelled.\<close>  The encoding of X.509 certificates and the curve arithmetic (the law \<open>x509_law\<close>
  states what a created certificate parses to).  The tests.  Sockets, TLS, timeouts of the
  servers, graceful shutdown and the wording of log lines.  Foreign keys:
  SQLite does not enforce them unless a connection asks for it, and no service does.  A request to
  the auth or admin API is one step on the shared database.  The rounding of \<open>float64\<close> is an argument
  of the metrics.  The decoders of the audit event (it has a time) and of the admin service's forms stay arguments.
\<close>

end
